(* ===== verification/Elan_Prelude.thy ===== *)
theory Elan_Prelude
  imports Main "HOL-Library.Word" "HOL-Library.Multiset" "HOL-Library.Char_ord"
    "HOL-Library.List_Lexorder" "HOL-Library.Product_Lexorder" "HOL-Library.Sublist"
begin

text \<open>
  Shared vocabulary of the development.

  Rust's \<open>Result\<close> is a sum with the error on the left (\<open>Err\<close>, \<open>Ok\<close>); \<open>traverse\<close> is
  \<open>iter().map(f).collect::<Result<Vec<_>, _>>()\<close>. A Rust \<open>String\<close> is its list of UTF-8
  bytes, so the string functions of the standard library that the code calls are functions on
  character lists, and the byte order of SQLite's BINARY collation is the lexicographic order of
  lists. The fixed-width integers are words; \<open>add_checked\<close> is Rust's \<open>+\<close>, which panics or wraps
  according to the build's \<open>overflow-checks\<close> setting. The last sections hold facts on stable
  sorting and the locale of step functions with an invariant, which the stateful components
  interpret.
\<close>

named_theorems string_simps \<open>equations of the string functions\<close>
named_theorems step_invs \<open>one-step invariant lemmas\<close>

section \<open>Results\<close>

type_synonym ('e, 'a) result = "'e + 'a"

abbreviation Ok :: "'a \<Rightarrow> ('e, 'a) result" where "Ok \<equiv> Inr"
abbreviation Err :: "'e \<Rightarrow> ('e, 'a) result" where "Err \<equiv> Inl"

definition and_then :: "('e, 'a) result \<Rightarrow> ('a \<Rightarrow> ('e, 'b) result) \<Rightarrow> ('e, 'b) result" where
  "and_then r f = (case r of Inl e \<Rightarrow> Inl e | Inr x \<Rightarrow> f x)"

definition map_err :: "('e \<Rightarrow> 'f) \<Rightarrow> ('e, 'a) result \<Rightarrow> ('f, 'a) result" where
  "map_err g r = (case r of Inl e \<Rightarrow> Inl (g e) | Inr x \<Rightarrow> Inr x)"

definition ok_or :: "'e \<Rightarrow> 'a option \<Rightarrow> ('e, 'a) result" where
  "ok_or e x = (case x of None \<Rightarrow> Inl e | Some y \<Rightarrow> Inr y)"

lemma and_then_simps [simp]:
  "and_then (Inl e) f = Inl e" "and_then (Inr x) f = f x"
  by (simp_all add: and_then_def)

lemma and_then_Ok: "and_then r f = Inr y \<longleftrightarrow> (\<exists>x. r = Inr x \<and> f x = Inr y)"
  by (cases r) auto

lemma map_err_simps [simp]:
  "map_err g (Inl e) = Inl (g e)" "map_err g (Inr x) = Inr x"
  by (simp_all add: map_err_def)

lemma map_err_Ok [simp]: "map_err g r = Inr x \<longleftrightarrow> r = Inr x"
  by (cases r) auto

lemma ok_or_simps [simp]: "ok_or e None = Inl e" "ok_or e (Some x) = Inr x"
  by (simp_all add: ok_or_def)

lemma ok_or_Ok [simp]: "ok_or e v = Inr x \<longleftrightarrow> v = Some x"
  by (cases v) auto

text \<open>\<open>traverse f xs\<close> applies \<open>f\<close> to each element and stops at the first error.\<close>

fun traverse :: "('a \<Rightarrow> ('e, 'b) result) \<Rightarrow> 'a list \<Rightarrow> ('e, 'b list) result" where
  "traverse f [] = Inr []"
| "traverse f (x # xs) =
     (case f x of Inl e \<Rightarrow> Inl e
      | Inr y \<Rightarrow> (case traverse f xs of Inl e \<Rightarrow> Inl e | Inr ys \<Rightarrow> Inr (y # ys)))"

lemma traverse_cong [fundef_cong]:
  "xs = ys \<Longrightarrow> (\<And>x. x \<in> set ys \<Longrightarrow> f x = g x) \<Longrightarrow> traverse f xs = traverse g ys"
  by (induction ys arbitrary: xs) (auto split: sum.splits)

lemma traverse_Ok_iff: "traverse f xs = Inr ys \<longleftrightarrow> list_all2 (\<lambda>x y. f x = Inr y) xs ys"
proof (induction xs arbitrary: ys)
  case Nil
  then show ?case by auto
next
  case (Cons x xs)
  have "traverse f (x # xs) = Inr ys \<longleftrightarrow>
      (\<exists>y zs. f x = Inr y \<and> traverse f xs = Inr zs \<and> ys = y # zs)"
    by (auto split: sum.splits)
  with Cons.IH show ?case by (auto simp: list_all2_Cons1)
qed

lemma traverse_total: "(\<And>x. x \<in> set xs \<Longrightarrow> f x = Inr (g x)) \<Longrightarrow> traverse f xs = Inr (map g xs)"
  by (induction xs) auto

lemma traverse_ex_Ok: "(\<exists>ys. traverse f xs = Inr ys) \<longleftrightarrow> (\<forall>x \<in> set xs. \<exists>y. f x = Inr y)"
  by (induction xs) (auto split: sum.splits)

lemma traverse_Err: "traverse f xs = Inl e \<Longrightarrow> \<exists>x \<in> set xs. f x = Inl e"
  by (induction xs) (auto split: sum.splits)

lemma traverse_in_set:
  assumes "traverse f xs = Inr ys"
  shows "y \<in> set ys \<longleftrightarrow> (\<exists>x \<in> set xs. f x = Inr y)"
proof -
  from assms have "list_all2 (\<lambda>x y. f x = Inr y) xs ys" by (simp add: traverse_Ok_iff)
  then show ?thesis by (induction rule: list_all2_induct) auto
qed

section \<open>Strings\<close>

text \<open>\<open>str::strip_prefix\<close> and \<open>str::strip_suffix\<close>.\<close>

definition strip_prefix :: "string \<Rightarrow> string \<Rightarrow> string option" where
  "strip_prefix p s = (if take (length p) s = p then Some (drop (length p) s) else None)"

definition strip_suffix :: "string \<Rightarrow> string \<Rightarrow> string option" where
  "strip_suffix q s =
     (let k = length s - length q
      in if length q \<le> length s \<and> drop k s = q then Some (take k s) else None)"

lemma strip_prefix_Some [string_simps]: "strip_prefix p s = Some t \<longleftrightarrow> s = p @ t"
  by (auto simp: strip_prefix_def) (metis append_take_drop_id)

lemma strip_suffix_Some [string_simps]: "strip_suffix q s = Some t \<longleftrightarrow> s = t @ q"
  by (auto simp: strip_suffix_def Let_def) (metis append_take_drop_id)

lemma strip_suffix_None: "strip_suffix q s = None \<longleftrightarrow> (\<forall>t. s \<noteq> t @ q)"
  using strip_suffix_Some by (metis not_None_eq)

text \<open>\<open>str::contains\<close> for a string pattern.\<close>

fun str_contains :: "string \<Rightarrow> string \<Rightarrow> bool" where
  "str_contains [] pat = (pat = [])"
| "str_contains (c # s) pat = (take (length pat) (c # s) = pat \<or> str_contains s pat)"

lemma str_contains_iff: "str_contains s pat \<longleftrightarrow> (\<exists>a b. s = a @ pat @ b)"
proof (induction s)
  case Nil
  then show ?case by auto
next
  case (Cons c s)
  have "take (length pat) (c # s) = pat \<longleftrightarrow> (\<exists>b. c # s = pat @ b)"
    by (metis append_eq_conv_conj)
  then show ?case
    using Cons by (auto simp: Cons_eq_append_conv)
qed

text \<open>\<open>str::eq_ignore_ascii_case\<close>: bytes are compared after folding A-Z to a-z.\<close>

definition ascii_lower :: "char \<Rightarrow> char" where
  "ascii_lower c = (let n = (of_char c :: nat) in if 65 \<le> n \<and> n \<le> 90 then char_of (n + 32) else c)"

definition eq_ignore_ascii_case :: "string \<Rightarrow> string \<Rightarrow> bool" where
  "eq_ignore_ascii_case a b = (map ascii_lower a = map ascii_lower b)"

lemma eq_ignore_ascii_case_refl [simp]: "eq_ignore_ascii_case a a"
  by (simp add: eq_ignore_ascii_case_def)

lemma char_of_conv:
  "c = char_of (n :: nat) \<longleftrightarrow> n mod 256 = of_char c"
  "char_of (n :: nat) = c \<longleftrightarrow> n mod 256 = of_char c"
  by (metis char_of_char of_char_of)+

text \<open>\<open>[String]::join\<close>.\<close>

fun str_join :: "string \<Rightarrow> string list \<Rightarrow> string" where
  "str_join sep [] = []"
| "str_join sep [x] = x"
| "str_join sep (x # y # ys) = x @ sep @ str_join sep (y # ys)"

text \<open>\<open>str::split\<close> on one character: at least one piece, one more than separators.\<close>

fun str_split :: "char \<Rightarrow> string \<Rightarrow> string list" where
  "str_split d [] = [[]]"
| "str_split d (c # s) =
     (if c = d then [] # str_split d s
      else (case str_split d s of [] \<Rightarrow> [[c]] | p # ps \<Rightarrow> (c # p) # ps))"

lemma str_split_nonempty [simp]: "str_split d s \<noteq> []"
  by (induction s) (auto split: list.splits)

text \<open>
  \<open>str::rsplitn(2, d)\<close> cuts at the last occurrence of \<open>d\<close>: the pieces come from the right, so
  the text after the last separator is first and the text before it second; without a separator
  the whole string is the only piece.
\<close>

fun rsplit2 :: "char \<Rightarrow> string \<Rightarrow> string list" where
  "rsplit2 d [] = [[]]"
| "rsplit2 d (c # s) =
     (case rsplit2 d s of
        [t, h] \<Rightarrow> [t, c # h]
      | _ \<Rightarrow> if c = d then [s, []] else [c # s])"

lemma rsplit2_no_sep: "d \<notin> set s \<Longrightarrow> rsplit2 d s = [s]"
  by (induction s) auto

lemma rsplit2_last: "d \<notin> set t \<Longrightarrow> rsplit2 d (h @ d # t) = [t, h]"
  by (induction h) (auto simp: rsplit2_no_sep)

lemma rsplit2_cases: "rsplit2 d s = [s] \<and> d \<notin> set s \<or> (\<exists>t h. rsplit2 d s = [t, h] \<and> s = h @ d # t \<and> d \<notin> set t)"
proof (cases "d \<in> set s")
  case True
  then obtain h t where "s = h @ d # t" "d \<notin> set t"
    by (metis split_list_last)
  then show ?thesis by (auto simp: rsplit2_last)
qed (simp add: rsplit2_no_sep)

section \<open>Machine integers\<close>

type_synonym u8 = "8 word"
type_synonym u16 = "16 word"
type_synonym i32 = "32 word"
type_synonym i64 = "64 word"

text \<open>
  Rust's \<open>+\<close> on an unsigned type: with overflow checks (a debug build) an overflow panics, which
  is \<open>None\<close>; without them (a release build) the result wraps.
\<close>

definition add_checked :: "bool \<Rightarrow> 'w::len word \<Rightarrow> 'w word \<Rightarrow> 'w word option" where
  "add_checked checks a b = (if checks \<and> unat a + unat b \<ge> 2 ^ LENGTH('w) then None else Some (a + b))"

lemma add_checked_fits: "unat a + unat (b :: 'w::len word) < 2 ^ LENGTH('w) \<Longrightarrow> add_checked checks a b = Some (a + b)"
  by (simp add: add_checked_def)

text \<open>\<open>u16::saturating_sub\<close>.\<close>

definition saturating_sub :: "'w::len word \<Rightarrow> 'w word \<Rightarrow> 'w word" where
  "saturating_sub a b = (if a < b then 0 else a - b)"

subsection \<open>Decimal text of a number\<close>

definition digit_char :: "nat \<Rightarrow> char" where
  "digit_char n = char_of (n + 48)"

fun nat_str :: "nat \<Rightarrow> string" where
  "nat_str n = (if n < 10 then [digit_char n] else nat_str (n div 10) @ [digit_char (n mod 10)])"

declare nat_str.simps [simp del]

datatype int_error_kind = IntEmpty | IntInvalidDigit | IntPosOverflow

definition char_digit :: "char \<Rightarrow> nat option" where
  "char_digit c = (let n = (of_char c :: nat) in if 48 \<le> n \<and> n \<le> 57 then Some (n - 48) else None)"

text \<open>
  \<open>u16::from_str\<close>: an empty text and a bad digit are errors, a leading \<open>+\<close> is accepted, and the
  accumulator is checked for overflow digit by digit from the left.
\<close>

fun parse_digits_u16 :: "nat \<Rightarrow> string \<Rightarrow> (int_error_kind, nat) result" where
  "parse_digits_u16 acc [] = Inr acc"
| "parse_digits_u16 acc (c # s) =
     (case char_digit c of
        None \<Rightarrow> Inl IntInvalidDigit
      | Some d \<Rightarrow>
          if acc * 10 + d < 2 ^ 16 then parse_digits_u16 (acc * 10 + d) s else Inl IntPosOverflow)"

definition parse_u16 :: "string \<Rightarrow> (int_error_kind, u16) result" where
  "parse_u16 s =
     (case s of
        [] \<Rightarrow> Inl IntEmpty
      | c # cs \<Rightarrow>
          if c = CHR ''+'' \<and> cs = [] then Inl IntInvalidDigit
          else map_sum id word_of_nat (parse_digits_u16 0 (if c = CHR ''+'' then cs else s)))"

lemma char_digit_digit_char [simp]: "n < 10 \<Longrightarrow> char_digit (digit_char n) = Some n"
  by (simp add: char_digit_def digit_char_def of_char_of)

lemma of_char_digit_char: "n < 10 \<Longrightarrow> (of_char (digit_char n) :: nat) = n + 48"
  by (simp add: digit_char_def of_char_of)

lemma digit_char_not_sep [simp]:
  assumes "n < 10"
  shows "digit_char n \<noteq> CHR '':''" "digit_char n \<noteq> CHR ''+''" "digit_char n \<noteq> CHR ''-''"
proof -
  have "digit_char n \<noteq> c" if "(of_char c :: nat) < 48 \<or> 57 < (of_char c :: nat)" for c
    using of_char_digit_char [OF assms] assms that by force
  from this [of "CHR '':''"] this [of "CHR ''+''"] this [of "CHR ''-''"]
  show "digit_char n \<noteq> CHR '':''" "digit_char n \<noteq> CHR ''+''" "digit_char n \<noteq> CHR ''-''" by simp_all
qed

text \<open>Parsing the decimal text of a number below \<open>2^16\<close> gives the number back.\<close>

lemma parse_digits_append:
  "parse_digits_u16 acc (s @ t) =
     (case parse_digits_u16 acc s of Inl e \<Rightarrow> Inl e | Inr a \<Rightarrow> parse_digits_u16 a t)"
  by (induction s arbitrary: acc) (auto split: option.splits)

lemma parse_nat_str: "n < 2 ^ 16 \<Longrightarrow> parse_digits_u16 0 (nat_str n) = Inr n"
proof (induction n rule: nat_str.induct)
  case (1 n)
  show ?case
  proof (cases "n < 10")
    case True
    then show ?thesis by (simp add: nat_str.simps [of n])
  next
    case False
    with 1 have "parse_digits_u16 0 (nat_str (n div 10)) = Inr (n div 10)" by simp
    with False 1(2) show ?thesis
      by (simp add: nat_str.simps [of n] parse_digits_append)
  qed
qed

lemma nat_str_not_empty [simp]: "nat_str n \<noteq> []"
  by (subst nat_str.simps) simp

lemma nat_str_chars: "c \<in> set (nat_str n) \<Longrightarrow> \<exists>d < 10. c = digit_char d"
proof (induction n rule: nat_str.induct)
  case (1 n)
  show ?case
  proof (cases "n < 10")
    case True
    with 1(2) show ?thesis by (auto simp: nat_str.simps [of n])
  next
    case False
    with 1(2) have "c \<in> set (nat_str (n div 10)) \<or> c = digit_char (n mod 10)"
      by (auto simp: nat_str.simps [of n])
    moreover have "n mod 10 < 10" by simp
    ultimately show ?thesis using 1(1) [OF False] by blast
  qed
qed

lemma nat_str_no_sep [simp]: "CHR '':'' \<notin> set (nat_str n)" "CHR ''+'' \<notin> set (nat_str n)"
  using nat_str_chars digit_char_not_sep by metis+

lemma parse_u16_nat_str: "parse_u16 (nat_str (unat (p :: u16))) = Inr p"
proof -
  obtain c cs where s: "nat_str (unat p) = c # cs" by (cases "nat_str (unat p)") auto
  have "c \<noteq> CHR ''+''" using nat_str_no_sep(2) [of "unat p"] s by auto
  moreover have "parse_digits_u16 0 (nat_str (unat p)) = Inr (unat p)"
    using unsigned_less [of p] by (intro parse_nat_str) simp
  ultimately show ?thesis by (simp add: parse_u16_def s)
qed

section \<open>Stable sorting\<close>

text \<open>
  \<open>sort_key\<close> is a stable sort, as are \<open>slice::sort_by\<close> and the model's \<open>ORDER BY\<close>: its first
  element is the first element of the input among those with the least key.
\<close>

lemma hd_insort_key:
  "insort_key f x ys = (if ys = [] \<or> f x \<le> f (hd ys) then x # ys else hd ys # insort_key f x (tl ys))"
  by (cases ys) auto

lemma sort_key_Nil_iff [simp]: "sort_key f xs = [] \<longleftrightarrow> xs = []"
  by (metis length_0_conv length_sort)

lemma hd_sort_key_least: "x \<in> set xs \<Longrightarrow> f (hd (sort_key f xs)) \<le> f x"
proof -
  assume x: "x \<in> set xs"
  then obtain y ys where s: "sort_key f xs = y # ys"
    by (cases "sort_key f xs") auto
  have "sorted (map f (y # ys))" using sorted_sort_key [of f xs] by (simp add: s)
  moreover have "x \<in> set (y # ys)" using x s by (metis set_sort)
  ultimately show "f (hd (sort_key f xs)) \<le> f x" by (auto simp: s)
qed

lemma find_least_sort_key:
  "xs \<noteq> [] \<Longrightarrow> find (\<lambda>x. \<forall>y \<in> set xs. f x \<le> f y) xs = Some (hd (sort_key f xs))"
proof (induction xs)
  case (Cons x xs)
  show ?case
  proof (cases "xs = []")
    case False
    let ?h = "hd (sort_key f xs)"
    have ih: "find (\<lambda>z. \<forall>y \<in> set xs. f z \<le> f y) xs = Some ?h" using Cons.IH False by simp
    have h: "?h \<in> set xs" "\<forall>y \<in> set xs. f ?h \<le> f y"
      using ih by (auto simp: find_Some_iff)
    show ?thesis
    proof (cases "f x \<le> f ?h")
      case True
      then have "\<forall>y \<in> set (x # xs). f x \<le> f y" using h(2) by fastforce
      with True False show ?thesis by (simp add: hd_insort_key)
    next
      case less: False
      then have no: "\<not> (\<forall>y \<in> set (x # xs). f x \<le> f y)" using h(1) by auto
      have eq: "(\<forall>y \<in> set (x # xs). f z \<le> f y) \<longleftrightarrow> (\<forall>y \<in> set xs. f z \<le> f y)" if "z \<in> set xs" for z
        using less h by fastforce
      have cong: "find (\<lambda>z. \<forall>y \<in> set (x # xs). f z \<le> f y) xs = find (\<lambda>z. \<forall>y \<in> set xs. f z \<le> f y) xs"
        using eq by (intro find_cong) auto
      have "find (\<lambda>z. \<forall>y \<in> set (x # xs). f z \<le> f y) (x # xs) = Some ?h"
        unfolding find.simps(2) if_not_P [OF no] using cong ih by (rule trans)
      with less False show ?thesis by (simp add: hd_insort_key)
    qed
  qed simp
qed simp

lemma find_filter: "find P (filter Q xs) = find (\<lambda>x. Q x \<and> P x) xs"
  by (induction xs) auto

lemma find_SomeE:
  assumes "find P xs = Some x"
  obtains us vs where "xs = us @ x # vs" "P x" "\<forall>u \<in> set us. \<not> P u"
  using assms
proof (induction xs arbitrary: thesis)
  case (Cons y ys)
  show ?case
  proof (cases "P y")
    case True
    with Cons.prems(2) have "y # ys = [] @ x # ys" "P x" by auto
    then show ?thesis by (intro Cons.prems(1)) auto
  next
    case False
    with Cons.prems(2) have "find P ys = Some x" by simp
    then obtain us vs where "ys = us @ x # vs" "P x" "\<forall>u \<in> set us. \<not> P u"
      using Cons.IH by blast
    with False show ?thesis by (intro Cons.prems(1) [of "y # us" vs]) auto
  qed
qed simp

lemma sort_key_unique:
  assumes "mset xs = mset ys" "inj_on f (set xs)"
  shows "sort_key f xs = sort_key f ys"
  using assms by (intro sort_key_inj_key_eq) auto

section \<open>Step functions with an invariant\<close>

text \<open>
  A stateful component runs a list of operations through its step function. The locale says
  that a predicate is an invariant of the step; its lemmas carry the invariant through a run and
  through every prefix of it.
\<close>

definition run :: "('s \<Rightarrow> 'op \<Rightarrow> 's) \<Rightarrow> 's \<Rightarrow> 'op list \<Rightarrow> 's" where
  "run step s ops = foldl step s ops"

lemma run_simps [simp]:
  "run step s [] = s" "run step s (x # xs) = run step (step s x) xs"
  "run step s (xs @ ys) = run step (run step s xs) ys"
  by (simp_all add: run_def)

locale invariant_step =
  fixes step :: "'s \<Rightarrow> 'op \<Rightarrow> 's"
    and inv :: "'s \<Rightarrow> bool"
  assumes step_keeps: "inv s \<Longrightarrow> inv (step s x)"
begin

lemma run_keeps: "inv s \<Longrightarrow> inv (run step s xs)"
  by (induction xs arbitrary: s) (auto intro: step_keeps)

lemma run_prefix_keeps: "inv s \<Longrightarrow> prefix ys xs \<Longrightarrow> inv (run step s ys)"
  by (rule run_keeps)

lemma run_measure:
  assumes "\<And>s x. inv s \<Longrightarrow> f (step s x) = f s" and "inv s"
  shows "f (run step s xs) = f s"
  using assms(2)
proof (induction xs arbitrary: s)
  case (Cons x xs)
  then show ?case using assms(1) [of s x] step_keeps [of s x] by simp
qed simp

end

text \<open>
  A step function refines a more abstract one when the abstraction of its next state is the
  abstract next state; then whole runs correspond.
\<close>

locale simulation = invariant_step +
  fixes abs :: "'a \<Rightarrow> 'c"
    and spec :: "'c \<Rightarrow> 'b \<Rightarrow> 'c"
  assumes step_refines: "inv s \<Longrightarrow> abs (step s x) = spec (abs s) x"
begin

lemma run_refines: "inv s \<Longrightarrow> abs (run step s xs) = run spec (abs s) xs"
  by (induction xs arbitrary: s) (simp_all add: step_refines step_keeps)

end

end
