(* ===== verification/Sql_Table.thy ===== *)
theory Sql_Table
  imports Elan_Prelude
begin

text \<open>
  The SQL statements of the stores, on tables as lists of rows in insertion order: UPDATE, DELETE,
  inner JOIN, and lookups by a key column. The lemmas say what they do to the values of a key
  column, which is what the primary-key and UNIQUE invariants need.
\<close>

type_synonym 'r table = "'r list"

definition sql_update :: "('r \<Rightarrow> bool) \<Rightarrow> ('r \<Rightarrow> 'r) \<Rightarrow> 'r table \<Rightarrow> 'r table" where
  "sql_update P f t = map (\<lambda>r. if P r then f r else r) t"

definition sql_delete :: "('r \<Rightarrow> bool) \<Rightarrow> 'r table \<Rightarrow> 'r table" where
  "sql_delete P t = filter (\<lambda>r. \<not> P r) t"

definition sql_join :: "('r \<Rightarrow> 's \<Rightarrow> bool) \<Rightarrow> 'r table \<Rightarrow> 's table \<Rightarrow> ('r \<times> 's) list" where
  "sql_join on t u = concat (map (\<lambda>r. map (Pair r) (filter (on r) u)) t)"

definition sql_exists :: "('r \<Rightarrow> bool) \<Rightarrow> 'r table \<Rightarrow> bool" where
  "sql_exists P t = list_ex P t"

lemma sql_exists_iff [simp]: "sql_exists P t \<longleftrightarrow> (\<exists>r \<in> set t. P r)"
  by (simp add: sql_exists_def list_ex_iff)

lemma set_sql_update: "set (sql_update P f t) = (\<lambda>r. if P r then f r else r) ` set t"
  by (simp add: sql_update_def)

lemma in_sql_update: "x \<in> set (sql_update P f t) \<longleftrightarrow> (\<exists>r \<in> set t. x = (if P r then f r else r))"
  by (auto simp: set_sql_update)

lemma set_sql_delete [simp]: "set (sql_delete P t) = {r \<in> set t. \<not> P r}"
  by (simp add: sql_delete_def)

lemma map_sql_update: "(\<And>r. r \<in> set t \<Longrightarrow> P r \<Longrightarrow> k (f r) = k r) \<Longrightarrow> map k (sql_update P f t) = map k t"
  by (simp add: sql_update_def)

lemma distinct_sql_delete: "distinct (map k t) \<Longrightarrow> distinct (map k (sql_delete P t))"
  unfolding sql_delete_def by (rule distinct_map_filter)

lemma sql_update_id: "(\<And>r. r \<in> set t \<Longrightarrow> \<not> P r) \<Longrightarrow> sql_update P f t = t"
  by (simp add: sql_update_def map_idI)

lemma set_sql_join: "(r, s) \<in> set (sql_join on t u) \<longleftrightarrow> r \<in> set t \<and> s \<in> set u \<and> on r s"
  by (auto simp: sql_join_def)

lemma sql_join_Nil [simp]: "sql_join on [] u = []"
  by (simp add: sql_join_def)

lemma sql_join_append_left: "sql_join on (t @ [r]) u = sql_join on t u @ map (Pair r) (filter (on r) u)"
  by (simp add: sql_join_def)

lemma sql_join_append_right: "(\<And>r. r \<in> set t \<Longrightarrow> \<not> on r s) \<Longrightarrow> sql_join on t (u @ [s]) = sql_join on t u"
  by (induction t) (simp_all add: sql_join_def)

lemma sql_join_delete_left: "sql_join on (sql_delete P t) u = filter (\<lambda>(r, s). \<not> P r) (sql_join on t u)"
  by (induction t) (auto simp: sql_join_def sql_delete_def filter_map o_def)

lemma distinct_key_eq: "distinct (map k t) \<Longrightarrow> r \<in> set t \<Longrightarrow> s \<in> set t \<Longrightarrow> k r = k s \<longleftrightarrow> r = s"
  by (auto simp: distinct_map inj_on_def)

lemma find_key:
  assumes "distinct (map k t)" "r \<in> set t" "\<And>x. P x \<Longrightarrow> k x = k r" "P r"
  shows "find P t = Some r"
proof -
  obtain x where x: "find P t = Some x" using assms(2,4) by (cases "find P t") (auto simp: find_None_iff)
  then have "P x" "x \<in> set t" by (auto simp: find_Some_iff)
  then have "x = r" using assms distinct_key_eq [OF assms(1), of x r] by blast
  with x show ?thesis by simp
qed

text \<open>
  A join over a column that is unique on the right side keeps each left row at most once.
\<close>

lemma filter_unique_key:
  assumes "distinct (map k u)"
  shows "filter (\<lambda>s. k s = v) u = (case find (\<lambda>s. k s = v) u of None \<Rightarrow> [] | Some s \<Rightarrow> [s])"
  using assms
proof (induction u)
  case (Cons x u)
  have "\<forall>s \<in> set u. k s \<noteq> k x" using Cons.prems by (auto simp: image_iff)
  then have "filter (\<lambda>s. k s = k x) u = []" by (simp add: filter_empty_conv)
  with Cons show ?case by auto
qed simp

lemma sql_join_unique:
  assumes "distinct (map k u)"
  shows "map fst (filter (\<lambda>(r, s). Q r s) (sql_join (\<lambda>r s. k s = f r) t u)) =
         filter (\<lambda>r. \<exists>s \<in> set u. k s = f r \<and> Q r s) t"
proof (induction t)
  case (Cons r t)
  show ?case
  proof (cases "find (\<lambda>s. k s = f r) u")
    case None
    then have "\<forall>s \<in> set u. k s \<noteq> f r" by (auto simp: find_None_iff)
    with Cons None filter_unique_key [OF assms, of "f r"] show ?thesis by (simp add: sql_join_def)
  next
    case (Some s)
    then have s: "s \<in> set u" "k s = f r" by (auto simp: find_Some_iff)
    then have "(\<exists>s' \<in> set u. k s' = f r \<and> Q r s') \<longleftrightarrow> Q r s"
      using distinct_key_eq [OF assms] by metis
    with Cons Some filter_unique_key [OF assms, of "f r"] show ?thesis by (simp add: sql_join_def)
  qed
qed (simp add: sql_join_def)

text \<open>
  A table with a key column is a map from keys to rows: a lookup is the map's value, an update of
  rows that keeps the keys maps over the values, and an insertion of a new key extends the map.
\<close>

definition key_map :: "('r \<Rightarrow> 'k) \<Rightarrow> 'r table \<Rightarrow> 'k \<rightharpoonup> 'r" where
  "key_map k t = map_of (map (\<lambda>r. (k r, r)) t)"

lemma key_map_Nil [simp]: "key_map k [] = Map.empty"
  by (simp add: key_map_def)

lemma find_key_map: "find (\<lambda>r. k r = v) t = key_map k t v"
  by (induction t) (auto simp: key_map_def)

lemma key_map_SomeD: "key_map k t v = Some r \<Longrightarrow> r \<in> set t \<and> k r = v"
  by (auto simp: key_map_def dest!: map_of_SomeD)

lemma key_map_Some: "distinct (map k t) \<Longrightarrow> key_map k t v = Some r \<longleftrightarrow> r \<in> set t \<and> k r = v"
  by (auto simp: key_map_def o_def)

lemma key_map_None: "key_map k t v = None \<longleftrightarrow> v \<notin> k ` set t"
  by (auto simp: key_map_def map_of_eq_None_iff image_image)

lemma in_key_image: "v \<in> k ` set t \<longleftrightarrow> (\<exists>r. key_map k t v = Some r)"
  using key_map_None [of k t v] by auto

lemma key_map_update:
  assumes "\<And>r. k (f r) = k r"
  shows "key_map k (sql_update P f t) v = map_option (\<lambda>r. if P r then f r else r) (key_map k t v)"
  using assms by (induction t) (auto simp: key_map_def sql_update_def)

lemma key_map_append: "k r \<notin> k ` set t \<Longrightarrow> key_map k (t @ [r]) = (key_map k t)(k r \<mapsto> r)"
proof (induction t)
  case (Cons x t)
  then have "k x \<noteq> k r" "key_map k (t @ [r]) = (key_map k t)(k r \<mapsto> r)" by auto
  then show ?case by (auto simp: key_map_def fun_eq_iff)
qed (simp add: key_map_def)

end
