(* ===== verification/Common_Types.thy ===== *)
theory Common_Types
  imports Elan_Prelude "HOL-Library.Countable"
begin

text \<open>
  The shared types of the crate elan-common: the error type and its translation to a gRPC status
  (\<open>error.rs\<close>), datasets and their source types (\<open>types/catalog.rs\<close>), the HTTP shapes
  (\<open>types/api.rs\<close>), and the protobuf messages that the services exchange.

  What the code calls in third-party crates is a field of the record \<open>libs\<close>, an argument of every
  definition that uses it: the text of a UUID and its parser (crate uuid), the text of a JSON value
  and its parser (crate serde_json), Unicode lower-casing, and the texts of foreign errors. The
  predicates \<open>uuid_codec\<close> and \<open>json_codec\<close> state the round trips those crates document.
\<close>

section \<open>UUIDs and JSON values\<close>

text \<open>
  A JSON value is one that \<open>serde_json::Value\<close> can hold: an object lists its members in the order of their keys, without
  repetition, and a number is the text it is printed as.
\<close>

type_synonym uuid = "128 word"

datatype json =
    JNull
  | JBool bool
  | JNumber string
  | JString string
  | JArray "json list"
  | JObject "(string \<times> json) list"

instance json :: countable
  by countable_datatype

section \<open>Errors\<close>

datatype status_code = CodeNotFound | CodePermissionDenied | CodeInternal | CodeOther nat

datatype status = Status (status_code: status_code) (status_message: string)

definition status_internal :: "string \<Rightarrow> status" where
  "status_internal m = Status CodeInternal m"

definition status_not_found :: "string \<Rightarrow> status" where
  "status_not_found m = Status CodeNotFound m"

definition status_permission_denied :: "string \<Rightarrow> status" where
  "status_permission_denied m = Status CodePermissionDenied m"

text \<open>
  \<open>ElanError\<close>; a variant that wraps a foreign error carries that error's text.
\<close>

datatype elan_error =
    DatasetNotFound string string
  | AccessDenied string
  | CoordinatorNotFound string
  | Grpc status
  | Transport string
  | Serde string
  | UuidError string
  | Kafka string
  | Config string
  | Io string
  | Other string

text \<open>The constraint and decoding errors of the SQLite stores (\<open>anyhow::Error\<close>).\<close>

datatype sql_error =
    UniqueViolation string
  | ForeignKeyViolation
  | CheckViolation string

datatype store_error =
    SqlError sql_error
  | BadUuid string
  | BadSourceType elan_error
  | BadJson string

type_synonym 'a store_result = "(store_error, 'a) result"

record libs =
  uuid_text :: "uuid \<Rightarrow> string"
  uuid_parse :: "string \<Rightarrow> uuid option"
  json_text :: "json \<Rightarrow> string"
  json_parse :: "string \<Rightarrow> json option"
  mask_text :: "(string \<rightharpoonup> string) \<Rightarrow> string"
  mask_parse :: "string \<Rightarrow> (string \<rightharpoonup> string) option"
  unicode_lower :: "string \<Rightarrow> string"
  status_text :: "status \<Rightarrow> string"
  store_error_text :: "store_error \<Rightarrow> string"

definition uuid_codec :: "libs \<Rightarrow> bool" where
  "uuid_codec L \<longleftrightarrow> (\<forall>u. uuid_parse L (uuid_text L u) = Some u)"

definition json_codec :: "libs \<Rightarrow> bool" where
  "json_codec L \<longleftrightarrow> (\<forall>v. json_parse L (json_text L v) = Some v)"

definition elan_error_text :: "libs \<Rightarrow> elan_error \<Rightarrow> string" where
  "elan_error_text L e =
     (case e of
        DatasetNotFound ns n \<Rightarrow> ''dataset not found: '' @ ns @ ''.'' @ n
      | AccessDenied reason \<Rightarrow> ''access denied: '' @ reason
      | CoordinatorNotFound i \<Rightarrow> ''coordinator not found: '' @ i
      | Grpc s \<Rightarrow> ''gRPC error: '' @ status_text L s
      | Transport t \<Rightarrow> ''transport error: '' @ t
      | Serde t \<Rightarrow> ''serialization error: '' @ t
      | UuidError t \<Rightarrow> ''uuid parse error: '' @ t
      | Kafka t \<Rightarrow> ''kafka error: '' @ t
      | Config t \<Rightarrow> ''config error: '' @ t
      | Io t \<Rightarrow> ''io error: '' @ t
      | Other t \<Rightarrow> t)"

text \<open>\<open>impl From<ElanError> for tonic::Status\<close>.\<close>

definition status_from :: "libs \<Rightarrow> elan_error \<Rightarrow> status" where
  "status_from L e =
     (case e of
        DatasetNotFound _ _ \<Rightarrow> status_not_found (elan_error_text L e)
      | AccessDenied _ \<Rightarrow> status_permission_denied (elan_error_text L e)
      | CoordinatorNotFound _ \<Rightarrow> status_not_found (elan_error_text L e)
      | Grpc s \<Rightarrow> s
      | _ \<Rightarrow> status_internal (elan_error_text L e))"

section \<open>Datasets\<close>

datatype source_type = Parquet | Csv | Postgres | Delta

definition source_type_text :: "source_type \<Rightarrow> string" where
  "source_type_text t =
     (case t of
        Parquet \<Rightarrow> ''parquet''
      | Csv \<Rightarrow> ''csv''
      | Postgres \<Rightarrow> ''postgres''
      | Delta \<Rightarrow> ''delta'')"

definition source_type_try_from :: "string \<Rightarrow> (elan_error, source_type) result" where
  "source_type_try_from s =
     (if s = ''parquet'' then Ok Parquet
      else if s = ''csv'' then Ok Csv
      else if s = ''postgres'' then Ok Postgres
      else if s = ''delta'' then Ok Delta
      else Err (Config (''unknown source type: '' @ s)))"

lemma source_type_round_trip [simp]: "source_type_try_from (source_type_text t) = Ok t"
  by (cases t) (simp_all add: source_type_text_def source_type_try_from_def)

lemma source_type_try_from_Ok: "source_type_try_from s = Ok t \<longleftrightarrow> s = source_type_text t"
  by (cases t) (auto simp: source_type_text_def source_type_try_from_def split: if_splits)

record dataset_info =
  ds_id :: uuid
  ds_name :: string
  ds_namespace :: string
  ds_source_type :: source_type
  ds_coordinator_id :: string
  ds_executor_endpoint :: string
  ds_schema_ipc :: "u8 list"
  ds_metadata :: json

record dataset_proto =
  dp_dataset_id :: string
  dp_name :: string
  dp_namespace :: string
  dp_source_type :: string
  dp_coordinator_id :: string
  dp_executor_endpoint :: string
  dp_arrow_schema_ipc :: "u8 list"
  dp_metadata_json :: string

section \<open>HTTP shapes\<close>

record query_request =
  qr_sql :: string
  qr_session_id :: "string option"

record query_response =
  qp_query_id :: uuid
  qp_columns :: "string list"
  qp_rows :: "json list list"
  qp_duration_ms :: "64 word"

record error_response =
  er_error :: string
  er_detail :: "string option"

record dataset_summary =
  sm_name :: string
  sm_source_type :: string
  sm_coordinator_id :: string

record namespace_info =
  ni_name :: string
  ni_datasets :: "dataset_summary list"

record catalog_response =
  cr_namespaces :: "namespace_info list"

section \<open>An instance of the foreign functions\<close>

text \<open>
  \<open>demo_libs\<close> writes a UUID or a JSON value as the decimal number of its code and reads it back,
  skipping the hyphens of a UUID;
  it satisfies both round trips, so theorems that assume them can be applied.
\<close>

fun read_nat :: "nat \<Rightarrow> string \<Rightarrow> nat option" where
  "read_nat acc [] = Some acc"
| "read_nat acc (c # s) = (case char_digit c of None \<Rightarrow> None | Some d \<Rightarrow> read_nat (acc * 10 + d) s)"

lemma read_nat_append:
  "read_nat acc (s @ t) = (case read_nat acc s of None \<Rightarrow> None | Some a \<Rightarrow> read_nat a t)"
  by (induction s arbitrary: acc) (auto split: option.splits)

lemma read_nat_str [simp]: "read_nat 0 (nat_str n) = Some n"
proof (induction n rule: nat_str.induct)
  case (1 n)
  then show ?case
    by (cases "n < 10") (simp_all add: nat_str.simps [of n] read_nat_append)
qed

definition demo_libs :: libs where
  "demo_libs =
     \<lparr>uuid_text = (\<lambda>u. nat_str (unat u)),
      uuid_parse = (\<lambda>s. map_option word_of_nat (read_nat 0 (filter (\<lambda>c. c \<noteq> CHR ''-'') s))),
      json_text = (\<lambda>v. nat_str (to_nat v)),
      json_parse = (\<lambda>s. map_option from_nat (read_nat 0 s)),
      mask_text = (\<lambda>m. case m ''c'' of None \<Rightarrow> [] | Some v \<Rightarrow> v),
      mask_parse = (\<lambda>s. if s = [] then None else Some [''c'' \<mapsto> s]),
      unicode_lower = map ascii_lower,
      status_text = status_message,
      store_error_text = (\<lambda>e. ''store error'')\<rparr>"

lemma demo_uuid_codec [simp]: "uuid_codec demo_libs"
proof -
  have "filter (\<lambda>c. c \<noteq> CHR ''-'') (nat_str n) = nat_str n" for n
    by (rule filter_True) (auto dest!: nat_str_chars)
  then show ?thesis by (simp add: uuid_codec_def demo_libs_def)
qed

lemma demo_json_codec [simp]: "json_codec demo_libs"
  by (simp add: json_codec_def demo_libs_def)

lemma uuid_codecD: "uuid_codec L \<Longrightarrow> uuid_parse L (uuid_text L u) = Some u"
  by (simp add: uuid_codec_def)

lemma json_codecD: "json_codec L \<Longrightarrow> json_parse L (json_text L v) = Some v"
  by (simp add: json_codec_def)

lemma uuid_text_inj: "uuid_codec L \<Longrightarrow> uuid_text L u = uuid_text L v \<longleftrightarrow> u = v"
  by (metis uuid_codecD option.inject)

end
