(* ===== verification/Iam_Engine.thy ===== *)
theory Iam_Engine
  imports Common_Types
begin

text \<open>
  The policy engine of the crate elan-iam: subjects, resources, policies and their matching
  (\<open>types.rs\<close>), the snapshot engine and the permissive engine (\<open>engine.rs\<close>), and the catalog
  visibility filter (\<open>catalog_filter.rs\<close>). The engine's state is its policy list; the \<open>RwLock\<close>
  around it makes \<open>check\<close> and \<open>reload\<close> atomic, so the model is sequential. The locale \<open>iam_engine\<close>
  is the trait \<open>IamEngine\<close>, interpreted by both implementations.
\<close>

section \<open>Subjects, resources and policies\<close>

record subject =
  user_id :: string
  groups :: "string list"

record resource_id =
  res_namespace :: string
  res_name :: string

definition resource_qualified :: "resource_id \<Rightarrow> string" where
  "resource_qualified r = res_namespace r @ ''.'' @ res_name r"

datatype mask_kind = Redact | Sha256

type_synonym column_mask = "string \<rightharpoonup> mask_kind"

datatype access_decision =
    Allow (allow_row_filter: "string option") (allow_column_mask: "column_mask option")
  | Deny (deny_reason: string)

fun is_allowed :: "access_decision \<Rightarrow> bool" where
  "is_allowed (Allow _ _) = True"
| "is_allowed (Deny _) = False"

datatype policy_effect = EffectAllow | EffectDeny

datatype subject_type = SubjectUser | SubjectGroup

record policy =
  pol_id :: uuid
  pol_subject_name :: string
  pol_subject_type :: subject_type
  pol_resource_pattern :: string
  pol_action :: string
  pol_effect :: policy_effect
  pol_row_filter :: "string option"
  pol_column_mask_json :: "string option"
  pol_priority :: i32

definition matches_resource :: "policy \<Rightarrow> string \<Rightarrow> string \<Rightarrow> bool" where
  "matches_resource p ns name =
     (let pattern = pol_resource_pattern p
      in if pattern = ''*'' then True
         else case strip_suffix ''.*'' pattern of
                Some ns_pattern \<Rightarrow> ns_pattern = ns
              | None \<Rightarrow> pattern = ns @ ''.'' @ name)"

definition matches_action :: "policy \<Rightarrow> string \<Rightarrow> bool" where
  "matches_action p action = (pol_action p = ''*'' \<or> eq_ignore_ascii_case (pol_action p) action)"

definition matches_subject :: "policy \<Rightarrow> subject \<Rightarrow> bool" where
  "matches_subject p subject =
     (case pol_subject_type p of
        SubjectUser \<Rightarrow> pol_subject_name p = ''*'' \<or> pol_subject_name p = user_id subject
      | SubjectGroup \<Rightarrow> pol_subject_name p \<in> set (groups subject))"

definition policy_applies :: "subject \<Rightarrow> resource_id \<Rightarrow> string \<Rightarrow> policy \<Rightarrow> bool" where
  "policy_applies subject resource action p \<longleftrightarrow>
     matches_subject p subject
     \<and> matches_resource p (res_namespace resource) (res_name resource)
     \<and> matches_action p action"

section \<open>The snapshot engine\<close>

type_synonym snapshot_engine = "policy list"

definition effect_ord :: "policy_effect \<Rightarrow> nat" where
  "effect_ord e = (case e of EffectDeny \<Rightarrow> 0 | EffectAllow \<Rightarrow> 1)"

text \<open>
  The comparator of \<open>sort_by\<close>: the effect first, then the priority, larger first. As a key: the
  pair of the effect's rank and the negated signed priority, compared lexicographically.
\<close>

definition policy_key :: "policy \<Rightarrow> nat \<times> int" where
  "policy_key p = (effect_ord (pol_effect p), - sint (pol_priority p))"

definition mask_kind_of :: "string \<Rightarrow> mask_kind option" where
  "mask_kind_of v =
     (if v = ''REDACT'' then Some Redact else if v = ''SHA256'' then Some Sha256 else None)"

definition column_mask_of :: "libs \<Rightarrow> policy \<Rightarrow> column_mask option" where
  "column_mask_of L p =
     Option.bind (pol_column_mask_json p)
       (\<lambda>json. map_option (\<lambda>m k. Option.bind (m k) mask_kind_of) (mask_parse L json))"

definition snapshot_check ::
  "libs \<Rightarrow> snapshot_engine \<Rightarrow> subject \<Rightarrow> resource_id \<Rightarrow> string \<Rightarrow> access_decision" where
  "snapshot_check L policies subject resource action =
     (let matching = sort_key policy_key (filter (policy_applies subject resource action) policies)
      in case matching of
           [] \<Rightarrow> Deny (''No Allow policy for '' @ user_id subject @ '' on '' @
                       res_namespace resource @ ''.'' @ res_name resource)
         | policy # _ \<Rightarrow>
             (case pol_effect policy of
                EffectDeny \<Rightarrow>
                  Deny (''Deny policy '' @ [CHR 0x27] @ uuid_text L (pol_id policy) @ [CHR 0x27] @
                        '' matched for '' @ res_namespace resource @ ''.'' @ res_name resource)
              | EffectAllow \<Rightarrow> Allow (pol_row_filter policy) (column_mask_of L policy)))"

definition snapshot_reload :: "snapshot_engine \<Rightarrow> policy list \<Rightarrow> snapshot_engine" where
  "snapshot_reload engine policies = policies"

section \<open>The permissive engine\<close>

definition allow_all_check ::
  "unit \<Rightarrow> subject \<Rightarrow> resource_id \<Rightarrow> string \<Rightarrow> access_decision" where
  "allow_all_check engine subject resource action = Allow None None"

definition allow_all_reload :: "unit \<Rightarrow> policy list \<Rightarrow> unit" where
  "allow_all_reload engine policies = ()"

section \<open>The catalog filter\<close>

definition is_visible ::
  "(subject \<Rightarrow> resource_id \<Rightarrow> string \<Rightarrow> access_decision) \<Rightarrow> subject \<Rightarrow> string \<Rightarrow> string \<Rightarrow> bool" where
  "is_visible check subject ns name =
     is_allowed (check subject \<lparr>res_namespace = ns, res_name = name\<rparr> ''SELECT'')"

section \<open>Matching\<close>

lemma matches_resource_wildcard: "pol_resource_pattern p = ''*'' \<Longrightarrow> matches_resource p ns name"
  by (simp add: matches_resource_def)

lemma matches_resource_namespace:
  assumes "pol_resource_pattern p = ns' @ ''.*''"
  shows "matches_resource p ns name \<longleftrightarrow> ns = ns'"
proof -
  have "pol_resource_pattern p \<noteq> ''*''" using assms by (cases ns') auto
  moreover have "strip_suffix ''.*'' (pol_resource_pattern p) = Some ns'"
    using assms by (simp add: strip_suffix_Some)
  ultimately show ?thesis by (auto simp: matches_resource_def)
qed

lemma matches_resource_exact:
  assumes "pol_resource_pattern p = ns' @ ''.'' @ name'" and "name' \<noteq> ''*''"
    and "\<forall>t. name' \<noteq> t @ ''.*''"
  shows "matches_resource p ns name \<longleftrightarrow> ns @ ''.'' @ name = ns' @ ''.'' @ name'"
proof -
  have no: "pol_resource_pattern p \<noteq> t @ ''.*''" for t
  proof
    assume "pol_resource_pattern p = t @ ''.*''"
    then have eq: "ns' @ ''.'' @ name' = t @ ''.*''" using assms(1) by simp
    show False
    proof (cases "length t \<le> length ns'")
      case True
      then obtain u where u: "ns' = t @ u" using eq by (metis append_eq_append_conv_if append_take_drop_id)
      with eq have "u @ ''.'' @ name' = ''.*''" by simp
      then show False using assms(2) by (cases u rule: list.exhaust; cases "tl u") auto
    next
      case False
      then obtain u where u: "t = ns' @ u" "u \<noteq> []"
        using eq by (metis append_eq_append_conv_if append_take_drop_id append_Nil2 nat_le_linear)
      with eq have "''.'' @ name' = u @ ''.*''" by simp
      then obtain v where "name' = v @ ''.*''" using u(2) by (cases u) auto
      with assms(3) show False by simp
    qed
  qed
  then have "strip_suffix ''.*'' (pol_resource_pattern p) = None" by (simp add: strip_suffix_None)
  moreover have "pol_resource_pattern p \<noteq> ''*''" using assms(1) by (cases ns') auto
  ultimately show ?thesis using assms(1) by (auto simp: matches_resource_def)
qed

section \<open>The decision of the snapshot engine\<close>

text \<open>The policy that decides: the first of the sorted matching policies.\<close>

definition deciding_policy ::
  "snapshot_engine \<Rightarrow> subject \<Rightarrow> resource_id \<Rightarrow> string \<Rightarrow> policy option" where
  "deciding_policy ps s r a =
     find (\<lambda>p. \<forall>q \<in> set (filter (policy_applies s r a) ps). policy_key p \<le> policy_key q)
       (filter (policy_applies s r a) ps)"

lemma deciding_policy_Nil [simp]:
  "filter (policy_applies s r a) ps = [] \<Longrightarrow> deciding_policy ps s r a = None"
  by (simp add: deciding_policy_def)

lemma deciding_policy_hd:
  "filter (policy_applies s r a) ps \<noteq> [] \<Longrightarrow>
   deciding_policy ps s r a = Some (hd (sort_key policy_key (filter (policy_applies s r a) ps)))"
  unfolding deciding_policy_def by (rule find_least_sort_key)

lemma deciding_policy_None: "deciding_policy ps s r a = None \<longleftrightarrow> (\<forall>p \<in> set ps. \<not> policy_applies s r a p)"
  by (cases "filter (policy_applies s r a) ps = []")
    (auto simp: deciding_policy_hd filter_empty_conv)

lemma deciding_policy_Some:
  assumes "deciding_policy ps s r a = Some p"
  shows "p \<in> set ps" "policy_applies s r a p"
    "\<And>q. q \<in> set ps \<Longrightarrow> policy_applies s r a q \<Longrightarrow> policy_key p \<le> policy_key q"
  using assms by (auto simp: deciding_policy_def find_Some_iff) (metis nth_mem mem_Collect_eq set_filter)+

lemma snapshot_check_deciding:
  "snapshot_check L ps s r a =
     (case deciding_policy ps s r a of
        None \<Rightarrow> Deny (''No Allow policy for '' @ user_id s @ '' on '' @ res_namespace r @ ''.'' @ res_name r)
      | Some p \<Rightarrow>
          (case pol_effect p of
             EffectDeny \<Rightarrow>
               Deny (''Deny policy '' @ [CHR 0x27] @ uuid_text L (pol_id p) @ [CHR 0x27] @
                     '' matched for '' @ res_namespace r @ ''.'' @ res_name r)
           | EffectAllow \<Rightarrow> Allow (pol_row_filter p) (column_mask_of L p)))"
proof (cases "sort_key policy_key (filter (policy_applies s r a) ps)")
  case Nil
  then have "filter (policy_applies s r a) ps = []" by (metis sort_key_Nil_iff)
  then show ?thesis by (simp add: snapshot_check_def)
next
  case (Cons p qs)
  then have "filter (policy_applies s r a) ps \<noteq> []" by auto
  with Cons show ?thesis by (simp add: snapshot_check_def deciding_policy_hd)
qed

lemma key_deny_least: "policy_key p \<le> policy_key q \<Longrightarrow> pol_effect q = EffectDeny \<Longrightarrow> pol_effect p = EffectDeny"
  by (cases "pol_effect p") (auto simp: policy_key_def effect_ord_def)

lemma key_priority: "policy_key p \<le> policy_key q \<Longrightarrow> pol_effect p = pol_effect q \<Longrightarrow> sint (pol_priority q) \<le> sint (pol_priority p)"
  by (auto simp: policy_key_def)

lemma snapshot_allowed_iff:
  "is_allowed (snapshot_check L ps s r a) \<longleftrightarrow>
     (\<exists>p \<in> set ps. policy_applies s r a p \<and> pol_effect p = EffectAllow) \<and>
     \<not> (\<exists>p \<in> set ps. policy_applies s r a p \<and> pol_effect p = EffectDeny)"
proof (cases "deciding_policy ps s r a")
  case None
  then have "\<forall>p \<in> set ps. \<not> policy_applies s r a p" by (simp add: deciding_policy_None)
  with None show ?thesis by (auto simp: snapshot_check_deciding)
next
  case (Some p)
  note p = deciding_policy_Some [OF Some]
  show ?thesis
  proof (cases "pol_effect p")
    case EffectAllow
    then have "\<not> (\<exists>q \<in> set ps. policy_applies s r a q \<and> pol_effect q = EffectDeny)"
      using p(3) key_deny_least by (metis policy_effect.distinct(1))
    with EffectAllow Some p(1,2) show ?thesis by (auto simp: snapshot_check_deciding)
  next
    case EffectDeny
    with Some p(1,2) show ?thesis by (auto simp: snapshot_check_deciding)
  qed
qed

section \<open>The engine interface\<close>

text \<open>
  The trait \<open>IamEngine\<close>. What its clients (the optimizer rule, the catalog filter, the access
  check of elan-central) rely on is that a reload replaces the policy set: the decisions after it
  do not depend on what was loaded before.
\<close>

locale iam_engine =
  fixes check :: "'e \<Rightarrow> subject \<Rightarrow> resource_id \<Rightarrow> string \<Rightarrow> access_decision"
    and reload :: "'e \<Rightarrow> policy list \<Rightarrow> 'e"
  assumes reload_replaces: "check (reload e ps) s r a = check (reload e' ps) s r a"
begin

lemma reload_last: "check (reload (reload e ps) qs) s r a = check (reload e qs) s r a"
  by (rule reload_replaces)

lemma visible_reload_last:
  "is_visible (check (reload (reload e ps) qs)) s ns n = is_visible (check (reload e qs)) s ns n"
  by (simp add: is_visible_def reload_last)

lemma reload_again: "check (foldl reload e (pss @ [qs])) s r a = check (reload e qs) s r a"
  by (simp add: reload_replaces)

end

text \<open>
  An engine that lets an applicable Deny override every Allow and denies where nothing applies.
\<close>

locale deny_overrides_engine = iam_engine +
  assumes allowed_reload:
    "is_allowed (check (reload e ps) s r a) \<longleftrightarrow>
       (\<exists>p \<in> set ps. policy_applies s r a p \<and> pol_effect p = EffectAllow) \<and>
       \<not> (\<exists>p \<in> set ps. policy_applies s r a p \<and> pol_effect p = EffectDeny)"
begin

lemma default_deny: "\<not> is_allowed (check (reload e []) s r a)"
  by (simp add: allowed_reload)

lemma allowed_set: "set ps = set qs \<Longrightarrow> is_allowed (check (reload e ps) s r a) = is_allowed (check (reload e qs) s r a)"
  by (simp add: allowed_reload)

lemma deny_antitone:
  assumes "\<forall>p \<in> set qs. pol_effect p = EffectDeny"
    and "is_allowed (check (reload e (ps @ qs)) s r a)"
  shows "is_allowed (check (reload e ps) s r a)"
  using assms unfolding allowed_reload set_append by fastforce

lemma allow_monotone:
  assumes "\<forall>p \<in> set qs. pol_effect p = EffectAllow"
    and "is_allowed (check (reload e ps) s r a)"
  shows "is_allowed (check (reload e (ps @ qs)) s r a)"
  using assms unfolding allowed_reload set_append by fastforce

lemma visible_iff:
  "is_visible (check (reload e ps)) s ns n \<longleftrightarrow>
     (\<exists>p \<in> set ps. policy_applies s \<lparr>res_namespace = ns, res_name = n\<rparr> ''SELECT'' p \<and> pol_effect p = EffectAllow) \<and>
     \<not> (\<exists>p \<in> set ps. policy_applies s \<lparr>res_namespace = ns, res_name = n\<rparr> ''SELECT'' p \<and> pol_effect p = EffectDeny)"
  by (simp add: is_visible_def allowed_reload)

end

interpretation snapshot: deny_overrides_engine "snapshot_check L" snapshot_reload for L
  by unfold_locales (simp_all add: snapshot_reload_def snapshot_allowed_iff)

interpretation allow_all: iam_engine allow_all_check allow_all_reload
  by unfold_locales (simp add: allow_all_check_def)

section \<open>Properties of the engine\<close>

text \<open>
  C6. Deny overrides Allow and the default is Deny: the snapshot engine grants an action exactly
  when some applicable policy allows it and no applicable policy denies it, whatever the
  priorities and the order of the policies are.
\<close>

theorem snapshot_deny_overrides:
  "is_allowed (snapshot_check L ps s r a) \<longleftrightarrow>
     (\<exists>p \<in> set ps. policy_applies s r a p \<and> pol_effect p = EffectAllow) \<and>
     \<not> (\<exists>p \<in> set ps. policy_applies s r a p \<and> pol_effect p = EffectDeny)"
  by (rule snapshot_allowed_iff)

text \<open>
  The row filter and column mask of a grant come from one policy: an applicable Allow policy
  whose signed priority no other applicable policy exceeds, and the earliest such policy in the
  snapshot.
\<close>

theorem snapshot_grant_source:
  assumes "snapshot_check L ps s r a = Allow f m"
  shows "\<exists>xs p ys. ps = xs @ p # ys \<and> policy_applies s r a p \<and> pol_effect p = EffectAllow \<and>
           f = pol_row_filter p \<and> m = column_mask_of L p \<and>
           (\<forall>q \<in> set ps. policy_applies s r a q \<longrightarrow> sint (pol_priority q) \<le> sint (pol_priority p)) \<and>
           (\<forall>q \<in> set xs. policy_applies s r a q \<longrightarrow> sint (pol_priority q) < sint (pol_priority p))"
proof -
  let ?M = "filter (policy_applies s r a) ps"
  from assms obtain p where p: "deciding_policy ps s r a = Some p" "pol_effect p = EffectAllow"
      "f = pol_row_filter p" "m = column_mask_of L p"
    by (auto simp: snapshot_check_deciding split: option.splits policy_effect.splits)
  have allow: "pol_effect q = EffectAllow" if "q \<in> set ps" "policy_applies s r a q" for q
    using assms that snapshot_allowed_iff [of L ps s r a] by (cases "pol_effect q") auto
  obtain xs ys where split: "ps = xs @ p # ys" "policy_applies s r a p"
      "\<forall>q \<in> set ?M. policy_key p \<le> policy_key q"
      "\<forall>q \<in> set xs. \<not> (policy_applies s r a q \<and> (\<forall>z \<in> set ?M. policy_key q \<le> policy_key z))"
    using p(1) unfolding deciding_policy_def find_filter by (elim find_SomeE) blast
  have key: "policy_key p \<le> policy_key q \<longleftrightarrow> sint (pol_priority q) \<le> sint (pol_priority p)"
    if "q \<in> set ps" "policy_applies s r a q" for q
    using allow [OF that] p(2) by (simp add: policy_key_def)
  have "\<forall>q \<in> set ps. policy_applies s r a q \<longrightarrow> sint (pol_priority q) \<le> sint (pol_priority p)"
    using split(3) key by simp
  moreover have "sint (pol_priority q) < sint (pol_priority p)"
    if q: "q \<in> set xs" "policy_applies s r a q" for q
  proof -
    obtain z where z: "z \<in> set ?M" "\<not> policy_key q \<le> policy_key z" using split(4) q by blast
    then have "\<not> policy_key q \<le> policy_key p" using split(3) order_trans by blast
    moreover have "q \<in> set ps" using q(1) split(1) by simp
    ultimately show ?thesis using allow [of q] q(2) p(2) by (auto simp: policy_key_def)
  qed
  ultimately show ?thesis using split(1,2) p(2-4) by blast
qed

text \<open>A policy set for the witnesses: a wildcard grant and a denial of one namespace.\<close>

definition demo_allow :: policy where
  "demo_allow = \<lparr>pol_id = 2, pol_subject_name = ''*'', pol_subject_type = SubjectUser,
     pol_resource_pattern = ''*'', pol_action = ''SELECT'', pol_effect = EffectAllow,
     pol_row_filter = Some ''country = 1'', pol_column_mask_json = None, pol_priority = 0\<rparr>"

definition demo_deny :: policy where
  "demo_deny = \<lparr>pol_id = 3, pol_subject_name = ''bob'', pol_subject_type = SubjectUser,
     pol_resource_pattern = ''finance.*'', pol_action = ''select'', pol_effect = EffectDeny,
     pol_row_filter = None, pol_column_mask_json = None, pol_priority = 5\<rparr>"

definition demo_subject :: "string \<Rightarrow> subject" where
  "demo_subject u = \<lparr>user_id = u, groups = []\<rparr>"

lemmas demo_policy_defs = demo_allow_def demo_deny_def demo_subject_def

lemmas matching_defs =
  policy_applies_def matches_subject_def matches_resource_def matches_action_def
  strip_suffix_def eq_ignore_ascii_case_def ascii_lower_def char_of_conv

lemma demo_bob_crm:
  "snapshot_check demo_libs [demo_deny, demo_allow] (demo_subject ''bob'')
     \<lparr>res_namespace = ''crm'', res_name = ''customers''\<rparr> ''SELECT'' = Allow (Some ''country = 1'') None"
  by (simp add: snapshot_check_def demo_policy_defs matching_defs column_mask_of_def)

theorem snapshot_grant_source_witness:
  "\<exists>xs p ys. [demo_deny, demo_allow] = xs @ p # ys \<and>
     policy_applies (demo_subject ''bob'') \<lparr>res_namespace = ''crm'', res_name = ''customers''\<rparr> ''SELECT'' p \<and>
     pol_effect p = EffectAllow \<and> Some ''country = 1'' = pol_row_filter p"
  using snapshot_grant_source [OF demo_bob_crm] by blast

text \<open>
  The decision, its row filter and its reason do not depend on the order of the snapshot when
  no two applicable policies tie in effect and priority; without that condition the grant itself
  still does not depend on the order.
\<close>

theorem snapshot_order_independent:
  assumes "mset ps = mset qs" and "inj_on policy_key {p \<in> set ps. policy_applies s r a p}"
  shows "snapshot_check L ps s r a = snapshot_check L qs s r a"
proof -
  have "mset (filter (policy_applies s r a) ps) = mset (filter (policy_applies s r a) qs)"
    using assms(1) by simp
  moreover have "inj_on policy_key (set (filter (policy_applies s r a) ps))"
    using assms(2) by simp
  ultimately have "sort_key policy_key (filter (policy_applies s r a) ps) =
      sort_key policy_key (filter (policy_applies s r a) qs)"
    by (rule sort_key_unique)
  then show ?thesis by (simp add: snapshot_check_def)
qed

theorem snapshot_order_independent_witness:
  "snapshot_check demo_libs [demo_deny, demo_allow] (demo_subject ''bob'')
     \<lparr>res_namespace = ''finance'', res_name = ''t''\<rparr> ''SELECT'' =
   snapshot_check demo_libs [demo_allow, demo_deny] (demo_subject ''bob'')
     \<lparr>res_namespace = ''finance'', res_name = ''t''\<rparr> ''SELECT''"
proof (rule snapshot_order_independent)
  show "mset [demo_deny, demo_allow] = mset [demo_allow, demo_deny]" by simp
  show "inj_on policy_key {p \<in> set [demo_deny, demo_allow].
      policy_applies (demo_subject ''bob'') \<lparr>res_namespace = ''finance'', res_name = ''t''\<rparr> ''SELECT'' p}"
    by (rule inj_on_subset [of _ "{demo_deny, demo_allow}"])
      (auto simp: policy_key_def effect_ord_def demo_policy_defs)
qed

text \<open>
  What a resource pattern matches: everything for the wildcard, one namespace for a pattern
  that ends in a dot and a star, and otherwise only the datasets whose dotted name is the pattern.
\<close>

theorem matches_resource_cases:
  "matches_resource p ns name \<longleftrightarrow>
     pol_resource_pattern p = ''*'' \<or>
     pol_resource_pattern p = ns @ ''.*'' \<or>
     (pol_resource_pattern p = ns @ ''.'' @ name \<and> (\<nexists>t. pol_resource_pattern p = t @ ''.*''))"
proof (cases "strip_suffix ''.*'' (pol_resource_pattern p)")
  case None
  then have no: "\<nexists>t. pol_resource_pattern p = t @ ''.*''" by (simp add: strip_suffix_None)
  with None show ?thesis by (auto simp: matches_resource_def Let_def)
next
  case (Some t)
  then have t: "pol_resource_pattern p = t @ ''.*''" by (simp add: strip_suffix_Some)
  then show ?thesis using matches_resource_namespace [OF t, of ns name] by (cases t) auto
qed

end
