(* ===== verification/Iam_Store.thy ===== *)
theory Iam_Store
  imports Sql_Table Iam_Engine
begin

text \<open>
  The IAM and audit store of elan-central (\<open>db/iam_store.rs\<close>) over the tables of the migrations
  0003, 0004 and 0005. Fresh identifiers and the clock are arguments. SQLite leaves the order of
  rows with equal sort keys open; \<open>scan\<close>, an argument of the queries, is that order: any function
  that permutes rows.
\<close>

section \<open>Tables\<close>

record subject_row =
  su_id :: string
  su_type :: string
  su_name :: string

record policy_row =
  pr_id :: string
  pr_subject_id :: string
  pr_resource_pattern :: string
  pr_action :: string
  pr_effect :: string
  pr_row_filter :: "string option"
  pr_column_mask_json :: "string option"
  pr_priority :: i64

record audit_row =
  au_id :: string
  au_event_type :: string
  au_occurred_at :: string
  au_source_service :: string
  au_user_id :: string
  au_session_id :: "string option"
  au_payload_json :: string

record iam_db =
  iam_subjects :: "subject_row table"
  iam_group_members :: "(string \<times> string) table"
  iam_policies :: "policy_row table"
  audit_events :: "audit_row table"

text \<open>The rows of migration 0005: any user may SELECT any dataset.\<close>

definition seed_subject_id :: string where
  "seed_subject_id = ''00000000-0000-0000-0000-000000000001''"

definition seed_policy_id :: string where
  "seed_policy_id = ''00000000-0000-0000-0000-000000000002''"

definition seeded_iam_db :: iam_db where
  "seeded_iam_db =
     \<lparr>iam_subjects = [\<lparr>su_id = seed_subject_id, su_type = ''user'', su_name = ''*''\<rparr>],
      iam_group_members = [],
      iam_policies =
        [\<lparr>pr_id = seed_policy_id, pr_subject_id = seed_subject_id, pr_resource_pattern = ''*'', pr_action = ''SELECT'',
          pr_effect = ''Allow'', pr_row_filter = None, pr_column_mask_json = None, pr_priority = 0\<rparr>],
      audit_events = []\<rparr>"

section \<open>Operations\<close>

text \<open>SQLite checks the CHECK constraints of a row before its UNIQUE constraints.\<close>

definition create_subject :: "libs \<Rightarrow> uuid \<Rightarrow> string \<Rightarrow> string \<Rightarrow> iam_db \<Rightarrow> string store_result \<times> iam_db" where
  "create_subject L fresh stype name db =
     (let i = uuid_text L fresh
      in if stype \<noteq> ''user'' \<and> stype \<noteq> ''group''
         then (Err (SqlError (CheckViolation ''subject_type'')), db)
         else if sql_exists (\<lambda>s. su_id s = i) (iam_subjects db)
         then (Err (SqlError (UniqueViolation ''iam_subjects.id'')), db)
         else if sql_exists (\<lambda>s. su_name s = name) (iam_subjects db)
         then (Err (SqlError (UniqueViolation ''iam_subjects.name'')), db)
         else (Ok i, db\<lparr>iam_subjects := iam_subjects db @ [\<lparr>su_id = i, su_type = stype, su_name = name\<rparr>]\<rparr>))"

definition get_or_create_subject :: "libs \<Rightarrow> uuid \<Rightarrow> string \<Rightarrow> string \<Rightarrow> iam_db \<Rightarrow> string store_result \<times> iam_db" where
  "get_or_create_subject L fresh stype name db =
     (case find (\<lambda>s. su_name s = name) (iam_subjects db) of
        Some s \<Rightarrow> (Ok (su_id s), db)
      | None \<Rightarrow> create_subject L fresh stype name db)"

definition add_group_member ::
  "libs \<Rightarrow> uuid \<Rightarrow> uuid \<Rightarrow> string \<Rightarrow> string \<Rightarrow> iam_db \<Rightarrow> unit store_result \<times> iam_db" where
  "add_group_member L fresh1 fresh2 group_name user_name db =
     (case get_or_create_subject L fresh1 ''group'' group_name db of
        (Inl e, db1) \<Rightarrow> (Err e, db1)
      | (Inr gid, db1) \<Rightarrow>
          (case get_or_create_subject L fresh2 ''user'' user_name db1 of
             (Inl e, db2) \<Rightarrow> (Err e, db2)
           | (Inr uid, db2) \<Rightarrow>
               if \<not> sql_exists (\<lambda>s. su_id s = gid) (iam_subjects db2) \<or> \<not> sql_exists (\<lambda>s. su_id s = uid) (iam_subjects db2)
               then (Err (SqlError ForeignKeyViolation), db2)
               else if sql_exists (\<lambda>m. m = (gid, uid)) (iam_group_members db2) then (Ok (), db2)
               else (Ok (), db2\<lparr>iam_group_members := iam_group_members db2 @ [(gid, uid)]\<rparr>)))"

definition create_policy ::
  "libs \<Rightarrow> uuid \<Rightarrow> uuid \<Rightarrow> string \<Rightarrow> string \<Rightarrow> string \<Rightarrow> string \<Rightarrow> string \<Rightarrow> string option \<Rightarrow> string option \<Rightarrow> i32 \<Rightarrow>
   iam_db \<Rightarrow> string store_result \<times> iam_db" where
  "create_policy L fresh1 fresh2 sname stype resource_pattern action effect row_filter column_mask_json priority db =
     (case get_or_create_subject L fresh1 stype sname db of
        (Inl e, db1) \<Rightarrow> (Err e, db1)
      | (Inr sid, db1) \<Rightarrow>
          (let policy_id = uuid_text L fresh2
           in if effect \<noteq> ''Allow'' \<and> effect \<noteq> ''Deny''
              then (Err (SqlError (CheckViolation ''effect'')), db1)
              else if sql_exists (\<lambda>p. pr_id p = policy_id) (iam_policies db1)
              then (Err (SqlError (UniqueViolation ''iam_policies.id'')), db1)
              else if \<not> sql_exists (\<lambda>s. su_id s = sid) (iam_subjects db1)
              then (Err (SqlError ForeignKeyViolation), db1)
              else (Ok policy_id, db1\<lparr>iam_policies := iam_policies db1 @
                     [\<lparr>pr_id = policy_id, pr_subject_id = sid, pr_resource_pattern = resource_pattern,
                       pr_action = action, pr_effect = effect, pr_row_filter = row_filter,
                       pr_column_mask_json = column_mask_json, pr_priority = scast priority\<rparr>]\<rparr>)))"

definition delete_policy :: "string \<Rightarrow> iam_db \<Rightarrow> unit store_result \<times> iam_db" where
  "delete_policy policy_id db =
     (Ok (), db\<lparr>iam_policies := sql_delete (\<lambda>p. pr_id p = policy_id) (iam_policies db)\<rparr>)"

definition row_to_policy :: "libs \<Rightarrow> policy_row \<times> subject_row \<Rightarrow> policy store_result" where
  "row_to_policy L r =
     (let (p, s) = r
      in and_then (ok_or (BadUuid (pr_id p)) (uuid_parse L (pr_id p))) (\<lambda>i.
         Ok \<lparr>pol_id = i, pol_subject_name = su_name s,
             pol_subject_type = (if su_type s = ''group'' then SubjectGroup else SubjectUser),
             pol_resource_pattern = pr_resource_pattern p, pol_action = pr_action p,
             pol_effect = (if pr_effect p = ''Deny'' then EffectDeny else EffectAllow),
             pol_row_filter = pr_row_filter p, pol_column_mask_json = pr_column_mask_json p,
             pol_priority = ucast (pr_priority p)\<rparr>))"

type_synonym scan = "(policy_row \<times> subject_row) list \<Rightarrow> (policy_row \<times> subject_row) list"

definition policy_rows :: "iam_db \<Rightarrow> (policy_row \<times> subject_row) list" where
  "policy_rows db = sql_join (\<lambda>p s. su_id s = pr_subject_id p) (iam_policies db) (iam_subjects db)"

definition list_policies :: "libs \<Rightarrow> scan \<Rightarrow> string option \<Rightarrow> iam_db \<Rightarrow> policy list store_result" where
  "list_policies L scan sname db =
     (let rows = sort_key (\<lambda>(p, s). - sint (pr_priority p)) (scan (policy_rows db))
      in traverse (row_to_policy L)
           (filter (\<lambda>(p, s). case sname of None \<Rightarrow> True | Some n \<Rightarrow> su_name s = n) rows))"

definition store_audit_event ::
  "string \<Rightarrow> string \<Rightarrow> string \<Rightarrow> string \<Rightarrow> string \<Rightarrow> string option \<Rightarrow> string \<Rightarrow> iam_db \<Rightarrow> unit store_result \<times> iam_db" where
  "store_audit_event i etype occurred_at source_service user session payload_json db =
     (if sql_exists (\<lambda>a. au_id a = i) (audit_events db)
      then (Err (SqlError (UniqueViolation ''audit_events.id'')), db)
      else (Ok (), db\<lparr>audit_events := audit_events db @
              [\<lparr>au_id = i, au_event_type = etype, au_occurred_at = occurred_at, au_source_service = source_service,
                au_user_id = user, au_session_id = session, au_payload_json = payload_json\<rparr>]\<rparr>))"

text \<open>
  \<open>ORDER BY occurred_at DESC LIMIT ?\<close>, then the filter on the event types in Rust. A negative limit
  means no limit in SQLite.
\<close>

definition get_recent_audit_events ::
  "(audit_row list \<Rightarrow> audit_row list) \<Rightarrow> string option \<Rightarrow> string list \<Rightarrow> i64 \<Rightarrow> iam_db \<Rightarrow> audit_row list" where
  "get_recent_audit_events scan since event_types limit db =
     (let rows = filter (\<lambda>a. case since of None \<Rightarrow> True | Some t \<Rightarrow> t \<le> au_occurred_at a) (audit_events db);
          sorted = rev (sort_key au_occurred_at (scan rows));
          limited = (if sint limit < 0 then sorted else take (nat (sint limit)) sorted)
      in filter (\<lambda>a. event_types = [] \<or> au_event_type a \<in> set event_types) limited)"

section \<open>The invariant of the tables\<close>

definition iam_inv :: "libs \<Rightarrow> iam_db \<Rightarrow> bool" where
  "iam_inv L db \<longleftrightarrow>
     distinct (map su_id (iam_subjects db)) \<and>
     distinct (map su_name (iam_subjects db)) \<and>
     su_type ` set (iam_subjects db) \<subseteq> {''user'', ''group''} \<and>
     distinct (map pr_id (iam_policies db)) \<and>
     pr_subject_id ` set (iam_policies db) \<subseteq> su_id ` set (iam_subjects db) \<and>
     pr_effect ` set (iam_policies db) \<subseteq> {''Allow'', ''Deny''} \<and>
     (\<forall>p \<in> set (iam_policies db). uuid_parse L (pr_id p) \<noteq> None) \<and>
     set (iam_group_members db) \<subseteq> su_id ` set (iam_subjects db) \<times> su_id ` set (iam_subjects db) \<and>
     distinct (iam_group_members db) \<and>
     distinct (map au_id (audit_events db))"

lemma iam_invD:
  assumes "iam_inv L db"
  shows "distinct (map su_id (iam_subjects db))" "distinct (map su_name (iam_subjects db))"
    "pr_subject_id ` set (iam_policies db) \<subseteq> su_id ` set (iam_subjects db)"
    "p \<in> set (iam_policies db) \<Longrightarrow> \<exists>u. uuid_parse L (pr_id p) = Some u"
  using assms by (auto simp: iam_inv_def)

lemma seeded_iam_inv: "uuid_parse L seed_policy_id \<noteq> None \<Longrightarrow> iam_inv L seeded_iam_db"
  by (simp add: iam_inv_def seeded_iam_db_def)

lemma create_subject_cases:
  assumes "create_subject L fresh stype name db = (r, db')"
  obtains e where "r = Err e" "db' = db"
  | "r = Ok (uuid_text L fresh)" "stype \<in> {''user'', ''group''}"
      "uuid_text L fresh \<notin> su_id ` set (iam_subjects db)" "name \<notin> su_name ` set (iam_subjects db)"
      "db' = db\<lparr>iam_subjects := iam_subjects db @ [\<lparr>su_id = uuid_text L fresh, su_type = stype, su_name = name\<rparr>]\<rparr>"
proof (cases "stype \<in> {''user'', ''group''} \<and> uuid_text L fresh \<notin> su_id ` set (iam_subjects db)
    \<and> name \<notin> su_name ` set (iam_subjects db)")
  case True
  then have "create_subject L fresh stype name db =
      (Ok (uuid_text L fresh),
       db\<lparr>iam_subjects := iam_subjects db @ [\<lparr>su_id = uuid_text L fresh, su_type = stype, su_name = name\<rparr>]\<rparr>)"
    by (auto simp: create_subject_def Let_def image_iff)
  with True assms that(2) show ?thesis by simp
next
  case False
  then have "\<exists>e. create_subject L fresh stype name db = (Err e, db)"
    by (auto simp: create_subject_def Let_def image_iff)
  with assms that(1) show ?thesis by auto
qed

lemma add_subject_inv:
  assumes "iam_inv L db" "i \<notin> su_id ` set (iam_subjects db)" "n \<notin> su_name ` set (iam_subjects db)" "t \<in> {''user'', ''group''}"
  shows "iam_inv L (db\<lparr>iam_subjects := iam_subjects db @ [\<lparr>su_id = i, su_type = t, su_name = n\<rparr>]\<rparr>)"
proof -
  let ?ids = "su_id ` set (iam_subjects db)"
  have "pr_subject_id ` set (iam_policies db) \<subseteq> insert i ?ids"
    using assms(1) unfolding iam_inv_def by (meson subset_insertI2)
  moreover have "set (iam_group_members db) \<subseteq> insert i ?ids \<times> insert i ?ids"
  proof -
    have "?ids \<times> ?ids \<subseteq> insert i ?ids \<times> insert i ?ids" by (intro Sigma_mono subset_insertI)
    moreover have "set (iam_group_members db) \<subseteq> ?ids \<times> ?ids" using assms(1) unfolding iam_inv_def by blast
    ultimately show ?thesis by (rule subset_trans [rotated])
  qed
  ultimately show ?thesis using assms by (simp add: iam_inv_def)
qed

text \<open>A subject found or created: the table only grows, and the identifier is in it.\<close>

lemma get_or_create_cases:
  assumes "get_or_create_subject L fresh stype name db = (r, db')"
  obtains e where "r = Err e" "db' = db"
  | s where "r = Ok (su_id s)" "db' = db" "s \<in> set (iam_subjects db)" "su_name s = name"
  | "r = Ok (uuid_text L fresh)" "stype \<in> {''user'', ''group''}"
      "uuid_text L fresh \<notin> su_id ` set (iam_subjects db)" "name \<notin> su_name ` set (iam_subjects db)"
      "db' = db\<lparr>iam_subjects := iam_subjects db @ [\<lparr>su_id = uuid_text L fresh, su_type = stype, su_name = name\<rparr>]\<rparr>"
proof (cases "find (\<lambda>s. su_name s = name) (iam_subjects db)")
  case None
  then have "create_subject L fresh stype name db = (r, db')" using assms by (simp add: get_or_create_subject_def)
  then show ?thesis by (rule create_subject_cases) (use that in auto)
next
  case (Some s)
  then have "s \<in> set (iam_subjects db)" "su_name s = name" by (auto simp: find_Some_iff)
  with Some assms that(2) show ?thesis by (auto simp: get_or_create_subject_def)
qed

lemma get_or_create_inv:
  assumes "iam_inv L db" "get_or_create_subject L fresh stype name db = (r, db')"
  shows "iam_inv L db'"
  using assms(2) by (rule get_or_create_cases) (use assms(1) in \<open>auto intro: add_subject_inv\<close>)

lemma get_or_create_found:
  assumes "get_or_create_subject L fresh stype name db = (Ok i, db')"
  shows "i \<in> su_id ` set (iam_subjects db')"
  using assms by (rule get_or_create_cases) auto

lemma get_or_create_row:
  assumes "get_or_create_subject L fresh stype name db = (Ok i, db')"
  shows "\<exists>s \<in> set (iam_subjects db'). su_id s = i \<and> su_name s = name \<and>
    (name \<notin> su_name ` set (iam_subjects db) \<longrightarrow> su_type s = stype)"
  using assms by (rule get_or_create_cases) (auto intro: rev_bexI)

lemma get_or_create_grows:
  assumes "get_or_create_subject L fresh stype name db = (r, db')"
  shows "set (iam_subjects db) \<subseteq> set (iam_subjects db')" "iam_policies db' = iam_policies db"
  using assms by (auto elim!: get_or_create_cases)

lemma add_group_member_inv:
  assumes "iam_inv L db"
  shows "iam_inv L (snd (add_group_member L f1 f2 g u db))"
proof -
  obtain r1 db1 where g: "get_or_create_subject L f1 ''group'' g db = (r1, db1)" by fastforce
  obtain r2 db2 where u: "get_or_create_subject L f2 ''user'' u db1 = (r2, db2)" by fastforce
  have i1: "iam_inv L db1" using get_or_create_inv [OF assms g] .
  have i2: "iam_inv L db2" using get_or_create_inv [OF i1 u] .
  have "iam_inv L (db2\<lparr>iam_group_members := iam_group_members db2 @ [(a, b)]\<rparr>)"
    if "a \<in> su_id ` set (iam_subjects db2)" "b \<in> su_id ` set (iam_subjects db2)" "(a, b) \<notin> set (iam_group_members db2)" for a b
    using i2 that unfolding iam_inv_def by auto
  with i1 i2 g u show ?thesis
    by (auto simp: add_group_member_def split: sum.splits)
qed

lemma delete_policy_inv: "iam_inv L db \<Longrightarrow> iam_inv L (snd (delete_policy i db))"
  by (auto simp: delete_policy_def iam_inv_def distinct_sql_delete)

lemma store_audit_event_inv: "iam_inv L db \<Longrightarrow> iam_inv L (snd (store_audit_event i t oa ss u se pl db))"
  by (auto simp: store_audit_event_def iam_inv_def)

section \<open>The listing of the policies\<close>

definition permutes_rows :: "scan \<Rightarrow> bool" where
  "permutes_rows scan \<longleftrightarrow> (\<forall>rows. mset (scan rows) = mset rows)"

lemma permutes_rowsD: "permutes_rows scan \<Longrightarrow> mset (scan rows) = mset rows"
  by (simp add: permutes_rows_def)

definition policy_of :: "libs \<Rightarrow> policy_row \<times> subject_row \<Rightarrow> policy" where
  "policy_of L r =
     (let (p, s) = r
      in \<lparr>pol_id = the (uuid_parse L (pr_id p)), pol_subject_name = su_name s,
          pol_subject_type = (if su_type s = ''group'' then SubjectGroup else SubjectUser),
          pol_resource_pattern = pr_resource_pattern p, pol_action = pr_action p,
          pol_effect = (if pr_effect p = ''Deny'' then EffectDeny else EffectAllow),
          pol_row_filter = pr_row_filter p, pol_column_mask_json = pr_column_mask_json p,
          pol_priority = ucast (pr_priority p)\<rparr>)"

lemma row_to_policy_of: "uuid_parse L (pr_id (fst r)) = Some u \<Longrightarrow> row_to_policy L r = Ok (policy_of L r)"
  by (cases r) (simp add: row_to_policy_def policy_of_def)

lemma in_policy_rows: "(p, s) \<in> set (policy_rows db) \<longleftrightarrow> p \<in> set (iam_policies db) \<and> s \<in> set (iam_subjects db) \<and> su_id s = pr_subject_id p"
  by (simp add: policy_rows_def set_sql_join)

text \<open>A listing never fails on a well-formed database, and holds each policy of it once.\<close>

lemma list_policies_total:
  assumes "iam_inv L db" "permutes_rows scan"
  shows "list_policies L scan None db =
    Ok (map (policy_of L) (sort_key (\<lambda>(p, s). - sint (pr_priority p)) (scan (policy_rows db))))"
proof -
  have "row_to_policy L r = Ok (policy_of L r)" if "r \<in> set (scan (policy_rows db))" for r
  proof -
    have "r \<in> set (policy_rows db)" using that permutes_rowsD [OF assms(2)] by (metis set_mset_mset)
    then have "fst r \<in> set (iam_policies db)" using in_policy_rows [of "fst r" "snd r" db] by simp
    then show ?thesis using iam_invD(4) [OF assms(1)] row_to_policy_of by blast
  qed
  then have "traverse (row_to_policy L) (sort_key (\<lambda>(p, s). - sint (pr_priority p)) (scan (policy_rows db))) =
      Ok (map (policy_of L) (sort_key (\<lambda>(p, s). - sint (pr_priority p)) (scan (policy_rows db))))"
    by (intro traverse_total) simp
  then show ?thesis by (simp add: list_policies_def Let_def)
qed

lemma list_policies_mset:
  assumes "iam_inv L db" "permutes_rows scan" "list_policies L scan None db = Ok ps"
  shows "mset ps = image_mset (policy_of L) (mset (policy_rows db))"
proof -
  have "ps = map (policy_of L) (sort_key (\<lambda>(p, s). - sint (pr_priority p)) (scan (policy_rows db)))"
    using assms(3) by (simp add: list_policies_total [OF assms(1,2)])
  then show ?thesis using permutes_rowsD [OF assms(2)] by (simp add: mset_map)
qed

lemma policy_rows_subject_added:
  assumes "iam_inv L db" "i \<notin> su_id ` set (iam_subjects db)"
  shows "policy_rows (db\<lparr>iam_subjects := iam_subjects db @ [\<lparr>su_id = i, su_type = t, su_name = n\<rparr>]\<rparr>) = policy_rows db"
  unfolding policy_rows_def using assms iam_invD(3) [OF assms(1)]
  by (auto intro!: sql_join_append_right)

lemma policy_rows_get_or_create:
  assumes "iam_inv L db" "get_or_create_subject L fresh stype name db = (r, db')"
  shows "policy_rows db' = policy_rows db"
  using assms(2) by (rule get_or_create_cases) (use assms(1) in \<open>simp_all add: policy_rows_subject_added\<close>)

lemma policy_rows_delete: "policy_rows (snd (delete_policy i db)) = filter (\<lambda>(p, s). pr_id p \<noteq> i) (policy_rows db)"
  by (simp add: policy_rows_def delete_policy_def sql_join_delete_left)

lemma policy_rows_add_member: "iam_inv L db \<Longrightarrow> policy_rows (snd (add_group_member L f1 f2 g u db)) = policy_rows db"
proof -
  assume inv: "iam_inv L db"
  obtain r1 db1 where g: "get_or_create_subject L f1 ''group'' g db = (r1, db1)" by fastforce
  obtain r2 db2 where u: "get_or_create_subject L f2 ''user'' u db1 = (r2, db2)" by fastforce
  have "policy_rows db2 = policy_rows db"
    using policy_rows_get_or_create [OF inv g] policy_rows_get_or_create [OF get_or_create_inv [OF inv g] u] by simp
  then show ?thesis
    using policy_rows_get_or_create [OF inv g]
    by (simp add: add_group_member_def g u split: sum.split) (simp add: policy_rows_def)
qed

text \<open>The row a creation adds, and the subject it is attached to.\<close>

lemma create_policy_cases:
  assumes "iam_inv L db" "uuid_codec L"
    and "create_policy L f1 f2 sname stype pattern action effect rf cm prio db = (r, db')"
  obtains e where "r = Err e" "iam_inv L db'" "policy_rows db' = policy_rows db"
  | p s where "r = Ok (uuid_text L f2)" "iam_inv L db'" "policy_rows db' = policy_rows db @ [(p, s)]"
      "p = \<lparr>pr_id = uuid_text L f2, pr_subject_id = su_id s, pr_resource_pattern = pattern, pr_action = action,
            pr_effect = effect, pr_row_filter = rf, pr_column_mask_json = cm, pr_priority = scast prio\<rparr>"
      "su_name s = sname" "s \<in> set (iam_subjects db')" "set (iam_subjects db) \<subseteq> set (iam_subjects db')"
      "sname \<notin> su_name ` set (iam_subjects db) \<Longrightarrow> su_type s = stype" "effect \<in> {''Allow'', ''Deny''}"
proof -
  obtain q db1 where g: "get_or_create_subject L f1 stype sname db = (q, db1)" by fastforce
  have inv1: "iam_inv L db1" using get_or_create_inv [OF assms(1) g] .
  have rows1: "policy_rows db1 = policy_rows db" using policy_rows_get_or_create [OF assms(1) g] .
  show thesis
  proof (cases q)
    case (Inl e)
    then have "r = Err e" "db' = db1" using assms(3) g by (simp_all add: create_policy_def)
    then show thesis using inv1 rows1 that(1) by blast
  next
    case (Inr sid)
    then obtain s where s: "s \<in> set (iam_subjects db1)" "su_id s = sid" "su_name s = sname"
        "sname \<notin> su_name ` set (iam_subjects db) \<Longrightarrow> su_type s = stype"
      using get_or_create_row [of L f1 stype sname db sid db1] g by auto
    let ?p = "\<lparr>pr_id = uuid_text L f2, pr_subject_id = sid, pr_resource_pattern = pattern, pr_action = action,
            pr_effect = effect, pr_row_filter = rf, pr_column_mask_json = cm, pr_priority = scast prio\<rparr>"
    show thesis
    proof (cases "effect \<in> {''Allow'', ''Deny''} \<and> uuid_text L f2 \<notin> pr_id ` set (iam_policies db1)")
      case True
      then have res: "create_policy L f1 f2 sname stype pattern action effect rf cm prio db =
          (Ok (uuid_text L f2), db1\<lparr>iam_policies := iam_policies db1 @ [?p]\<rparr>)"
        using g Inr s(1,2) by (auto simp: create_policy_def Let_def image_iff)
      have "filter (\<lambda>x. su_id x = sid) (iam_subjects db1) = [s]"
        using filter_unique_key [OF iam_invD(1) [OF inv1]] s(1,2) find_key [OF iam_invD(1) [OF inv1] s(1), of "\<lambda>x. su_id x = sid"]
        by auto
      then have rows: "policy_rows (db1\<lparr>iam_policies := iam_policies db1 @ [?p]\<rparr>) = policy_rows db @ [(?p, s)]"
        using rows1 by (simp add: policy_rows_def sql_join_append_left)
      have "iam_inv L (db1\<lparr>iam_policies := iam_policies db1 @ [?p]\<rparr>)"
        using inv1 True s(1,2) uuid_codecD [OF assms(2)] unfolding iam_inv_def by (simp add: image_subset_iff) blast
      moreover have db': "db' = db1\<lparr>iam_policies := iam_policies db1 @ [?p]\<rparr>" and r: "r = Ok (uuid_text L f2)"
        using assms(3) res by simp_all
      moreover have "s \<in> set (iam_subjects db')" "set (iam_subjects db) \<subseteq> set (iam_subjects db')"
        using s get_or_create_grows(1) [OF g] by (simp_all add: db')
      ultimately show thesis using rows s(2-4) True by (intro that(2) [of ?p s]) simp_all
    next
      case False
      then have "\<exists>e. create_policy L f1 f2 sname stype pattern action effect rf cm prio db = (Err e, db1)"
        using g Inr by (auto simp: create_policy_def Let_def image_iff)
      then obtain e where "r = Err e" "db' = db1" using assms(3) by auto
      then show thesis using that(1) inv1 rows1 by blast
    qed
  qed
qed

end
