(* ===== verification/Central_Iam.thy ===== *)
theory Central_Iam
  imports Iam_Store
begin

text \<open>
  The gRPC service \<open>IamSvc\<close> of elan-central (\<open>grpc/iam_svc.rs\<close>) and the start of the server
  (\<open>main.rs\<close>), which loads the engine. The state is the database and the policies of the in-process
  snapshot engine; a handler runs to its end before the next one starts. Every policy write reloads
  the engine, and the invariant is that the engine holds what a listing of the database returns.
\<close>

section \<open>Messages\<close>

record access_request =
  aq_user_id :: string
  aq_groups :: "string list"
  aq_namespace :: string
  aq_dataset :: string
  aq_action :: string

record access_decision_proto =
  apd_allowed :: bool
  apd_reason :: string
  apd_row_filter :: string
  apd_column_mask_json :: string

record policy_proto =
  pp_policy_id :: string
  pp_subject_name :: string
  pp_subject_type :: string
  pp_resource_pattern :: string
  pp_action :: string
  pp_effect :: i32
  pp_row_filter :: string
  pp_column_mask_json :: string
  pp_priority :: i32

record iam_central =
  ic_db :: iam_db
  ic_engine :: snapshot_engine

section \<open>The handlers\<close>

definition unwrap_or_default :: "string option \<Rightarrow> string" where
  "unwrap_or_default x = (case x of None \<Rightarrow> [] | Some s \<Rightarrow> s)"

definition nonempty :: "string \<Rightarrow> string option" where
  "nonempty s = (if s = [] then None else Some s)"

definition mask_kind_text :: "mask_kind \<Rightarrow> string" where
  "mask_kind_text k = (case k of Redact \<Rightarrow> ''REDACT'' | Sha256 \<Rightarrow> ''SHA256'')"

definition decision_proto :: "libs \<Rightarrow> access_decision \<Rightarrow> access_decision_proto" where
  "decision_proto L d =
     (case d of
        Allow row_filter column_mask \<Rightarrow>
          \<lparr>apd_allowed = True, apd_reason = [], apd_row_filter = unwrap_or_default row_filter,
           apd_column_mask_json =
             (case column_mask of None \<Rightarrow> [] | Some m \<Rightarrow> mask_text L (\<lambda>k. map_option mask_kind_text (m k)))\<rparr>
      | Deny reason \<Rightarrow>
          \<lparr>apd_allowed = False, apd_reason = reason, apd_row_filter = [], apd_column_mask_json = []\<rparr>)"

definition svc_check_access :: "libs \<Rightarrow> iam_central \<Rightarrow> access_request \<Rightarrow> access_decision_proto" where
  "svc_check_access L st req =
     decision_proto L
       (snapshot_check L (ic_engine st) \<lparr>user_id = aq_user_id req, groups = aq_groups req\<rparr>
          \<lparr>res_namespace = aq_namespace req, res_name = aq_dataset req\<rparr> (aq_action req))"

definition policy_to_proto :: "libs \<Rightarrow> policy \<Rightarrow> policy_proto" where
  "policy_to_proto L p =
     \<lparr>pp_policy_id = uuid_text L (pol_id p), pp_subject_name = pol_subject_name p,
      pp_subject_type = (case pol_subject_type p of SubjectUser \<Rightarrow> ''user'' | SubjectGroup \<Rightarrow> ''group''),
      pp_resource_pattern = pol_resource_pattern p, pp_action = pol_action p,
      pp_effect = (case pol_effect p of EffectAllow \<Rightarrow> 0 | EffectDeny \<Rightarrow> 1),
      pp_row_filter = unwrap_or_default (pol_row_filter p),
      pp_column_mask_json = unwrap_or_default (pol_column_mask_json p), pp_priority = pol_priority p\<rparr>"

definition internal_status :: "libs \<Rightarrow> 'a store_result \<Rightarrow> (status, 'a) result" where
  "internal_status L r = map_err (\<lambda>e. status_internal (store_error_text L e)) r"

definition svc_list_policies :: "libs \<Rightarrow> scan \<Rightarrow> iam_db \<Rightarrow> string \<Rightarrow> (status, policy_proto list) result" where
  "svc_list_policies L scan db sname =
     and_then (internal_status L (list_policies L scan (nonempty sname) db)) (\<lambda>ps. Ok (map (policy_to_proto L) ps))"

definition reload_engine :: "libs \<Rightarrow> scan \<Rightarrow> iam_central \<Rightarrow> (status, unit) result \<times> iam_central" where
  "reload_engine L scan st =
     (case internal_status L (list_policies L scan None (ic_db st)) of
        Inl e \<Rightarrow> (Err e, st)
      | Inr policies \<Rightarrow> (Ok (), st\<lparr>ic_engine := snapshot_reload (ic_engine st) policies\<rparr>))"

definition svc_create_policy ::
  "libs \<Rightarrow> scan \<Rightarrow> uuid \<Rightarrow> uuid \<Rightarrow> policy_proto \<Rightarrow> iam_central \<Rightarrow> (status, string) result \<times> iam_central" where
  "svc_create_policy L scan fresh1 fresh2 p st =
     (let effect = (if pp_effect p = 1 then ''Deny'' else ''Allow'');
          (r, db') = create_policy L fresh1 fresh2 (pp_subject_name p) (pp_subject_type p) (pp_resource_pattern p)
                       (pp_action p) effect (nonempty (pp_row_filter p)) (nonempty (pp_column_mask_json p))
                       (pp_priority p) (ic_db st);
          st1 = st\<lparr>ic_db := db'\<rparr>
      in case internal_status L r of
           Inl e \<Rightarrow> (Err e, st1)
         | Inr policy_id \<Rightarrow>
             (case reload_engine L scan st1 of
                (Inl e, st2) \<Rightarrow> (Err e, st2)
              | (Inr _, st2) \<Rightarrow> (Ok policy_id, st2)))"

definition svc_delete_policy :: "libs \<Rightarrow> scan \<Rightarrow> string \<Rightarrow> iam_central \<Rightarrow> (status, unit) result \<times> iam_central" where
  "svc_delete_policy L scan policy_id st =
     (let (r, db') = delete_policy policy_id (ic_db st);
          st1 = st\<lparr>ic_db := db'\<rparr>
      in case internal_status L r of
           Inl e \<Rightarrow> (Err e, st1)
         | Inr _ \<Rightarrow> reload_engine L scan st1)"

definition svc_create_subject :: "libs \<Rightarrow> uuid \<Rightarrow> string \<Rightarrow> string \<Rightarrow> iam_central \<Rightarrow> (status, string) result \<times> iam_central" where
  "svc_create_subject L fresh stype name st =
     (let (r, db') = get_or_create_subject L fresh stype name (ic_db st)
      in (internal_status L r, st\<lparr>ic_db := db'\<rparr>))"

definition svc_add_group_member ::
  "libs \<Rightarrow> uuid \<Rightarrow> uuid \<Rightarrow> string \<Rightarrow> string \<Rightarrow> iam_central \<Rightarrow> (status, unit) result \<times> iam_central" where
  "svc_add_group_member L fresh1 fresh2 group_name user_name st =
     (let (r, db') = add_group_member L fresh1 fresh2 group_name user_name (ic_db st)
      in (internal_status L r, st\<lparr>ic_db := db'\<rparr>))"

text \<open>The start of the server: the engine is made from a listing of the database.\<close>

definition central_start :: "libs \<Rightarrow> scan \<Rightarrow> iam_db \<Rightarrow> iam_central store_result" where
  "central_start L scan db =
     and_then (list_policies L scan None db) (\<lambda>initial_policies.
     Ok \<lparr>ic_db = db, ic_engine = initial_policies\<rparr>)"

section \<open>The remote calls as a step function\<close>

datatype iam_rpc =
    CreatePolicy uuid uuid policy_proto
  | DeletePolicy string
  | CreateSubject uuid string string
  | AddGroupMember uuid uuid string string
  | StoreAudit string string string string string "string option" string

fun iam_step :: "libs \<Rightarrow> scan \<Rightarrow> iam_central \<Rightarrow> iam_rpc \<Rightarrow> iam_central" where
  "iam_step L scan st (CreatePolicy f1 f2 p) = snd (svc_create_policy L scan f1 f2 p st)"
| "iam_step L scan st (DeletePolicy i) = snd (svc_delete_policy L scan i st)"
| "iam_step L scan st (CreateSubject f t n) = snd (svc_create_subject L f t n st)"
| "iam_step L scan st (AddGroupMember f1 f2 g u) = snd (svc_add_group_member L f1 f2 g u st)"
| "iam_step L scan st (StoreAudit i t oa ss u se pl) =
     st\<lparr>ic_db := snd (store_audit_event i t oa ss u se pl (ic_db st))\<rparr>"

definition iam_env :: "libs \<Rightarrow> scan \<Rightarrow> bool" where
  "iam_env L scan \<longleftrightarrow> uuid_codec L \<and> permutes_rows scan"

text \<open>The engine holds exactly the policies of the database, in the order of a listing.\<close>

definition iam_sync :: "libs \<Rightarrow> scan \<Rightarrow> iam_central \<Rightarrow> bool" where
  "iam_sync L scan st \<longleftrightarrow>
     iam_inv L (ic_db st) \<and> list_policies L scan None (ic_db st) = Ok (ic_engine st)"

lemma list_policies_rows: "policy_rows db = policy_rows db' \<Longrightarrow> list_policies L scan f db = list_policies L scan f db'"
  by (simp add: list_policies_def)

lemma internal_status_simps [simp]:
  "internal_status L (Inr x) = Inr x"
  "internal_status L (Inl e) = Inl (status_internal (store_error_text L e))"
  by (simp_all add: internal_status_def)

lemma reload_engine_total:
  assumes "iam_env L scan" "iam_inv L (ic_db st)"
  obtains ps where "list_policies L scan None (ic_db st) = Ok ps"
    "reload_engine L scan st = (Ok (), st\<lparr>ic_engine := ps\<rparr>)"
proof -
  from assms obtain ps where "list_policies L scan None (ic_db st) = Ok ps"
    by (auto simp: list_policies_total iam_env_def)
  then show thesis by (intro that) (simp_all add: reload_engine_def snapshot_reload_def)
qed

lemma iam_sync_same_rows:
  "iam_sync L scan st \<Longrightarrow> iam_inv L db \<Longrightarrow> policy_rows db = policy_rows (ic_db st) \<Longrightarrow> iam_sync L scan (st\<lparr>ic_db := db\<rparr>)"
  unfolding iam_sync_def using list_policies_rows [of db "ic_db st"] by simp

lemma create_policy_sync:
  assumes "iam_env L scan" "iam_sync L scan st"
  shows "iam_sync L scan (snd (svc_create_policy L scan f1 f2 p st))"
proof -
  let ?e = "if pp_effect p = 1 then ''Deny'' else ''Allow''"
  obtain r db where cp: "create_policy L f1 f2 (pp_subject_name p) (pp_subject_type p) (pp_resource_pattern p)
      (pp_action p) ?e (nonempty (pp_row_filter p)) (nonempty (pp_column_mask_json p)) (pp_priority p) (ic_db st) = (r, db)"
    by fastforce
  have inv: "iam_inv L (ic_db st)" and uc: "uuid_codec L" using assms by (simp_all add: iam_sync_def iam_env_def)
  show ?thesis
  proof (rule create_policy_cases [OF inv uc cp])
    fix e assume "r = Err e" "iam_inv L db" "policy_rows db = policy_rows (ic_db st)"
    then show ?thesis using iam_sync_same_rows [OF assms(2)] by (simp add: svc_create_policy_def cp)
  next
    fix x s assume r: "r = Ok (uuid_text L f2)" and inv': "iam_inv L db"
    have "iam_inv L (ic_db (st\<lparr>ic_db := db\<rparr>))" using inv' by simp
    from reload_engine_total [OF assms(1) this] obtain ps where
      ps: "list_policies L scan None db = Ok ps"
        "reload_engine L scan (st\<lparr>ic_db := db\<rparr>) = (Ok (), st\<lparr>ic_db := db, ic_engine := ps\<rparr>)"
      by auto
    then show ?thesis using inv' by (simp add: svc_create_policy_def cp r iam_sync_def)
  qed
qed

lemma delete_policy_sync:
  assumes "iam_env L scan" "iam_sync L scan st"
  shows "iam_sync L scan (snd (svc_delete_policy L scan i st))"
proof -
  have inv: "iam_inv L (snd (delete_policy i (ic_db st)))"
    using assms(2) delete_policy_inv by (simp add: iam_sync_def)
  then have "iam_inv L (ic_db (st\<lparr>ic_db := snd (delete_policy i (ic_db st))\<rparr>))" by simp
  from reload_engine_total [OF assms(1) this] obtain ps where
    "list_policies L scan None (snd (delete_policy i (ic_db st))) = Ok ps"
    "reload_engine L scan (st\<lparr>ic_db := snd (delete_policy i (ic_db st))\<rparr>) =
       (Ok (), st\<lparr>ic_db := snd (delete_policy i (ic_db st)), ic_engine := ps\<rparr>)"
    by auto
  with inv show ?thesis by (simp add: svc_delete_policy_def delete_policy_def iam_sync_def)
qed

lemma iam_step_sync [step_invs]:
  assumes "iam_env L scan" "iam_sync L scan st"
  shows "iam_sync L scan (iam_step L scan st x)"
proof (cases x)
  case (CreateSubject f t n)
  obtain r db where g: "get_or_create_subject L f t n (ic_db st) = (r, db)" by fastforce
  have inv: "iam_inv L (ic_db st)" using assms(2) by (simp add: iam_sync_def)
  show ?thesis
    using iam_sync_same_rows [OF assms(2) get_or_create_inv [OF inv g] policy_rows_get_or_create [OF inv g]]
    by (simp add: CreateSubject svc_create_subject_def g)
next
  case (AddGroupMember f1 f2 g u)
  have inv: "iam_inv L (ic_db st)" using assms(2) by (simp add: iam_sync_def)
  show ?thesis
    using iam_sync_same_rows [OF assms(2) add_group_member_inv [OF inv] policy_rows_add_member [OF inv]]
    by (simp add: AddGroupMember svc_add_group_member_def split: prod.split) (metis snd_conv)
next
  case (StoreAudit i t oa ss u se pl)
  have inv: "iam_inv L (ic_db st)" using assms(2) by (simp add: iam_sync_def)
  have "policy_rows (snd (store_audit_event i t oa ss u se pl (ic_db st))) = policy_rows (ic_db st)"
    by (simp add: store_audit_event_def policy_rows_def)
  then show ?thesis
    using iam_sync_same_rows [OF assms(2) store_audit_event_inv [OF inv]] by (simp add: StoreAudit)
qed (simp_all add: create_policy_sync [OF assms] delete_policy_sync [OF assms])

interpretation iam: invariant_step "iam_step L scan" "\<lambda>st. iam_env L scan \<and> iam_sync L scan st" for L scan
  by unfold_locales (simp add: iam_step_sync)

section \<open>Decisions in terms of the tables\<close>

abbreviation request_subject :: "access_request \<Rightarrow> subject" where
  "request_subject req \<equiv> \<lparr>user_id = aq_user_id req, groups = aq_groups req\<rparr>"

abbreviation request_resource :: "access_request \<Rightarrow> resource_id" where
  "request_resource req \<equiv> \<lparr>res_namespace = aq_namespace req, res_name = aq_dataset req\<rparr>"

definition row_applies :: "libs \<Rightarrow> access_request \<Rightarrow> policy_row \<times> subject_row \<Rightarrow> bool" where
  "row_applies L req r =
     policy_applies (request_subject req) (request_resource req) (aq_action req) (policy_of L r)"

definition rows_allow :: "libs \<Rightarrow> access_request \<Rightarrow> (policy_row \<times> subject_row) set \<Rightarrow> bool" where
  "rows_allow L req R \<longleftrightarrow>
     (\<exists>r \<in> R. row_applies L req r \<and> pr_effect (fst r) = ''Allow'') \<and>
     \<not> (\<exists>r \<in> R. row_applies L req r \<and> pr_effect (fst r) = ''Deny'')"

lemma apd_allowed_proto [simp]: "apd_allowed (decision_proto L d) = is_allowed d"
  by (cases d) (simp_all add: decision_proto_def)

lemma sync_engine_set:
  assumes "iam_env L scan" "iam_sync L scan st"
  shows "set (ic_engine st) = policy_of L ` set (policy_rows (ic_db st))"
proof -
  have "mset (ic_engine st) = image_mset (policy_of L) (mset (policy_rows (ic_db st)))"
    using assms list_policies_mset by (auto simp: iam_env_def iam_sync_def)
  then have "set_mset (mset (ic_engine st)) = set_mset (image_mset (policy_of L) (mset (policy_rows (ic_db st))))" by simp
  then show ?thesis by simp
qed

lemma policy_of_effect:
  assumes "iam_inv L db" "r \<in> set (policy_rows db)"
  shows "pol_effect (policy_of L r) = EffectAllow \<longleftrightarrow> pr_effect (fst r) = ''Allow''"
    and "pol_effect (policy_of L r) = EffectDeny \<longleftrightarrow> pr_effect (fst r) = ''Deny''"
proof -
  have "fst r \<in> set (iam_policies db)" using assms(2) in_policy_rows [of "fst r" "snd r" db] by simp
  then have "pr_effect (fst r) \<in> {''Allow'', ''Deny''}" using assms(1) by (auto simp: iam_inv_def)
  then show "pol_effect (policy_of L r) = EffectAllow \<longleftrightarrow> pr_effect (fst r) = ''Allow''"
    "pol_effect (policy_of L r) = EffectDeny \<longleftrightarrow> pr_effect (fst r) = ''Deny''"
    by (auto simp: policy_of_def split: prod.split)
qed

lemma check_access_rows:
  assumes "iam_env L scan" "iam_sync L scan st"
  shows "apd_allowed (svc_check_access L st req) \<longleftrightarrow> rows_allow L req (set (policy_rows (ic_db st)))"
proof -
  have inv: "iam_inv L (ic_db st)" using assms(2) by (simp add: iam_sync_def)
  show ?thesis
    unfolding svc_check_access_def apd_allowed_proto snapshot_allowed_iff sync_engine_set [OF assms] rows_allow_def
      row_applies_def using policy_of_effect [OF inv] by (simp cong: bex_cong conj_cong)
qed

section \<open>Properties of the service\<close>

lemma central_start_sync:
  assumes "iam_inv L db" "central_start L scan db = Ok st"
  shows "iam_sync L scan st"
  using assms by (auto simp: central_start_def and_then_Ok iam_sync_def)

text \<open>
  C10. From the migrated database on, after whatever calls the service has handled one after another, failed ones
  included, the in-process engine holds exactly the policies of the database, and an access check grants exactly where a
  stored Allow policy applies and no stored Deny policy does. (Calls whose handlers interleave are C25 and C26.)
\<close>

theorem engine_in_sync:
  assumes "iam_env L scan" "uuid_parse L seed_policy_id \<noteq> None" "central_start L scan seeded_iam_db = Ok st0"
  shows "let st = run (iam_step L scan) st0 calls
    in list_policies L scan None (ic_db st) = Ok (ic_engine st) \<and>
       (apd_allowed (svc_check_access L st req) \<longleftrightarrow> rows_allow L req (set (policy_rows (ic_db st))))"
proof -
  have "iam_sync L scan st0" using central_start_sync [OF seeded_iam_inv assms(3)] assms(2) by simp
  then have "iam_env L scan \<and> iam_sync L scan (run (iam_step L scan) st0 calls)"
    using assms(1) iam.run_keeps [of L scan st0 calls] by simp
  then show ?thesis using check_access_rows [of L scan] unfolding Let_def by (simp add: iam_sync_def)
qed

lemma demo_seed [simp]: "uuid_parse demo_libs seed_policy_id = Some 2" "uuid_parse demo_libs seed_policy_id \<noteq> None"
  by (simp_all add: demo_libs_def seed_policy_id_def char_digit_def)

lemma demo_iam_env [simp]: "iam_env demo_libs id"
  by (simp add: iam_env_def permutes_rows_def)

definition demo_central :: iam_central where
  "demo_central = \<lparr>ic_db = seeded_iam_db, ic_engine = map (policy_of demo_libs) (policy_rows seeded_iam_db)\<rparr>"

lemma demo_seed_rows: "policy_rows seeded_iam_db = [(hd (iam_policies seeded_iam_db), hd (iam_subjects seeded_iam_db))]"
  by (simp add: policy_rows_def sql_join_def seeded_iam_db_def)

lemma demo_central_start: "central_start demo_libs id seeded_iam_db = Ok demo_central"
  by (simp add: central_start_def list_policies_total [OF seeded_iam_inv] permutes_rows_def demo_central_def demo_seed_rows)

definition demo_request :: "string \<Rightarrow> string \<Rightarrow> access_request" where
  "demo_request u ns = \<lparr>aq_user_id = u, aq_groups = [], aq_namespace = ns, aq_dataset = ''orders'', aq_action = ''select''\<rparr>"

theorem engine_in_sync_witness:
  "apd_allowed (svc_check_access demo_libs demo_central (demo_request ''bob'' ''crm''))"
  using engine_in_sync [OF demo_iam_env demo_seed(2) demo_central_start, of "[]" "demo_request ''bob'' ''crm''"]
  by (simp add: Let_def demo_central_def demo_seed_rows rows_allow_def row_applies_def)
    (simp add: policy_of_def seeded_iam_db_def demo_request_def matching_defs)

text \<open>The policy that a message states, and the one that a successful creation stores.\<close>

definition stated_policy :: "uuid \<Rightarrow> policy_proto \<Rightarrow> policy" where
  "stated_policy i p =
     \<lparr>pol_id = i, pol_subject_name = pp_subject_name p,
      pol_subject_type = (if pp_subject_type p = ''group'' then SubjectGroup else SubjectUser),
      pol_resource_pattern = pp_resource_pattern p, pol_action = pp_action p,
      pol_effect = (if pp_effect p = 1 then EffectDeny else EffectAllow),
      pol_row_filter = nonempty (pp_row_filter p), pol_column_mask_json = nonempty (pp_column_mask_json p),
      pol_priority = pp_priority p\<rparr>"

lemma ucast_scast_i32 [simp]: "ucast (scast (x :: i32) :: i64) = (x :: i32)"
  by (rule bit_word_eqI) (simp add: bit_simps)

lemma svc_create_policy_ok:
  assumes "iam_env L scan" "iam_sync L scan st" "svc_create_policy L scan f1 f2 p st = (Ok i, st')"
  obtains q s where "iam_sync L scan st'" "policy_rows (ic_db st') = policy_rows (ic_db st) @ [(q, s)]"
    "policy_of L (q, s) =
       (stated_policy f2 p)\<lparr>pol_subject_type := if su_type s = ''group'' then SubjectGroup else SubjectUser\<rparr>"
    "s \<in> set (iam_subjects (ic_db st'))" "su_name s = pp_subject_name p"
    "set (iam_subjects (ic_db st)) \<subseteq> set (iam_subjects (ic_db st'))"
    "pp_subject_name p \<notin> su_name ` set (iam_subjects (ic_db st)) \<Longrightarrow> su_type s = pp_subject_type p"
proof -
  let ?e = "if pp_effect p = 1 then ''Deny'' else ''Allow''"
  obtain r db where cp: "create_policy L f1 f2 (pp_subject_name p) (pp_subject_type p) (pp_resource_pattern p)
      (pp_action p) ?e (nonempty (pp_row_filter p)) (nonempty (pp_column_mask_json p)) (pp_priority p) (ic_db st) = (r, db)"
    by fastforce
  have inv: "iam_inv L (ic_db st)" and uc: "uuid_codec L" using assms by (simp_all add: iam_sync_def iam_env_def)
  have sync: "iam_sync L scan st'" using create_policy_sync [OF assms(1,2), of f1 f2 p] assms(3) by simp
  show thesis
  proof (rule create_policy_cases [OF inv uc cp])
    fix e assume "r = Err e"
    then show thesis using assms(3) by (simp add: svc_create_policy_def cp)
  next
    fix q s
    assume *: "r = Ok (uuid_text L f2)" "iam_inv L db" "policy_rows db = policy_rows (ic_db st) @ [(q, s)]"
      and q: "q = \<lparr>pr_id = uuid_text L f2, pr_subject_id = su_id s, pr_resource_pattern = pp_resource_pattern p,
            pr_action = pp_action p, pr_effect = ?e, pr_row_filter = nonempty (pp_row_filter p),
            pr_column_mask_json = nonempty (pp_column_mask_json p), pr_priority = scast (pp_priority p)\<rparr>"
      and s: "su_name s = pp_subject_name p" "s \<in> set (iam_subjects db)" "set (iam_subjects (ic_db st)) \<subseteq> set (iam_subjects db)"
        "pp_subject_name p \<notin> su_name ` set (iam_subjects (ic_db st)) \<Longrightarrow> su_type s = pp_subject_type p"
    have "iam_inv L (ic_db (st\<lparr>ic_db := db\<rparr>))" using *(2) by simp
    from reload_engine_total [OF assms(1) this] obtain ps where
      "reload_engine L scan (st\<lparr>ic_db := db\<rparr>) = (Ok (), st\<lparr>ic_db := db, ic_engine := ps\<rparr>)" by auto
    then have "ic_db st' = db" using assms(3) by (auto simp: svc_create_policy_def cp *(1))
    moreover have "policy_of L (q, s) =
       (stated_policy f2 p)\<lparr>pol_subject_type := if su_type s = ''group'' then SubjectGroup else SubjectUser\<rparr>"
      using s(1) by (simp add: policy_of_def q stated_policy_def uuid_codecD [OF uc])
    ultimately show thesis using sync *(3) s by (intro that [of q s]) simp_all
  qed
qed

lemma subject_of_name:
  assumes "iam_inv L db" "s \<in> set (iam_subjects db)" "s' \<in> set (iam_subjects db)" "su_name s = su_name s'"
  shows "s = s'"
  using distinct_key_eq [OF iam_invD(2) [OF assms(1)] assms(2,3)] assms(4) by simp

lemma created_deny_refuses:
  assumes "iam_env L scan" "iam_sync L scan st" "svc_create_policy L scan f1 f2 p st = (Ok i, st')"
    and "pp_effect p = 1"
    and "\<forall>s \<in> set (iam_subjects (ic_db st)). su_name s = pp_subject_name p \<longrightarrow> su_type s = pp_subject_type p"
    and "policy_applies (request_subject req) (request_resource req) (aq_action req) (stated_policy f2 p)"
  shows "\<not> apd_allowed (svc_check_access L st' req)"
proof (rule svc_create_policy_ok [OF assms(1-3)])
  fix q s
  assume sync: "iam_sync L scan st'" and rows: "policy_rows (ic_db st') = policy_rows (ic_db st) @ [(q, s)]"
    and pol: "policy_of L (q, s) =
       (stated_policy f2 p)\<lparr>pol_subject_type := if su_type s = ''group'' then SubjectGroup else SubjectUser\<rparr>"
    and s: "s \<in> set (iam_subjects (ic_db st'))" "su_name s = pp_subject_name p"
      "set (iam_subjects (ic_db st)) \<subseteq> set (iam_subjects (ic_db st'))"
      "pp_subject_name p \<notin> su_name ` set (iam_subjects (ic_db st)) \<Longrightarrow> su_type s = pp_subject_type p"
  have inv: "iam_inv L (ic_db st')" using sync by (simp add: iam_sync_def)
  have "su_type s = pp_subject_type p"
  proof (cases "pp_subject_name p \<in> su_name ` set (iam_subjects (ic_db st))")
    case True
    then obtain s' where "s' \<in> set (iam_subjects (ic_db st))" "su_name s' = pp_subject_name p" by auto
    moreover then have "s' = s" using s subject_of_name [OF inv, of s' s] by auto
    ultimately show ?thesis using assms(5) by auto
  qed (rule s(4))
  then have "policy_of L (q, s) = stated_policy f2 p" using pol by (simp add: stated_policy_def)
  then have "row_applies L req (q, s)" "pol_effect (policy_of L (q, s)) = EffectDeny"
    using assms(4,6) by (simp_all add: row_applies_def stated_policy_def)
  moreover have "(q, s) \<in> set (policy_rows (ic_db st'))" using rows by simp
  ultimately show ?thesis
    unfolding check_access_rows [OF assms(1) sync] rows_allow_def using policy_of_effect(2) [OF inv] by blast
qed

text \<open>
  C21. A Deny policy takes effect with the answer of its creation, when no other call that writes policies is handled at the same
  time: once \<open>CreatePolicy\<close> has returned its identifier, every access the policy applies to is refused,
  whatever else is stored, provided its subject's name is new or registered with the type the policy states. (With another
  writer at work it need not be: C26.)
\<close>

theorem deny_policy_effective:
  assumes "iam_env L scan" "iam_sync L scan st" "svc_create_policy L scan f1 f2 p st = (Ok i, st')"
    and "pp_effect p = 1"
    and "\<forall>s \<in> set (iam_subjects (ic_db st)). su_name s = pp_subject_name p \<longrightarrow> su_type s = pp_subject_type p"
    and "policy_applies (request_subject req) (request_resource req) (aq_action req) (stated_policy f2 p)"
  shows "\<not> apd_allowed (svc_check_access L st' req)"
  using assms by (rule created_deny_refuses)

definition demo_deny_proto :: "string \<Rightarrow> string \<Rightarrow> policy_proto" where
  "demo_deny_proto t n =
     \<lparr>pp_policy_id = [], pp_subject_name = n, pp_subject_type = t, pp_resource_pattern = ''crm.*'', pp_action = ''*'',
      pp_effect = 1, pp_row_filter = [], pp_column_mask_json = [], pp_priority = - 5\<rparr>"

lemma demo_central_sync [simp]: "iam_sync demo_libs id demo_central"
  by (rule central_start_sync [OF seeded_iam_inv demo_central_start]) simp

lemma demo_seed_ids [simp]: "nat_str 10 = ''10''" "nat_str 11 = ''11''"
  by code_simp+

lemma demo_uuid_text: "uuid_text demo_libs u = nat_str (unat u)"
  by (simp add: demo_libs_def)

lemma demo_create:
  "\<exists>st'. svc_create_policy demo_libs id 10 11 (demo_deny_proto ''user'' ''bob'') demo_central = (Ok ''11'', st')"
proof -
  have ex: "\<exists>db. create_policy demo_libs 10 11 ''bob'' ''user'' ''crm.*'' ''*'' ''Deny'' None None (- 5) seeded_iam_db = (Ok ''11'', db)"
  proof -
    have "get_or_create_subject demo_libs 10 ''user'' ''bob'' seeded_iam_db =
        (Ok ''10'', seeded_iam_db\<lparr>iam_subjects := iam_subjects seeded_iam_db @ [\<lparr>su_id = ''10'', su_type = ''user'', su_name = ''bob''\<rparr>]\<rparr>)"
      by (simp add: get_or_create_subject_def create_subject_def seeded_iam_db_def demo_uuid_text seed_subject_id_def Let_def)
    then show ?thesis
      by (simp add: create_policy_def demo_uuid_text seeded_iam_db_def seed_policy_id_def Let_def)
  qed
  then obtain db where cp: "create_policy demo_libs 10 11 ''bob'' ''user'' ''crm.*'' ''*'' ''Deny'' None None (- 5) seeded_iam_db = (Ok ''11'', db)" ..
  have "iam_inv demo_libs db"
    by (rule create_policy_cases [OF seeded_iam_inv [OF demo_seed(2)] demo_uuid_codec cp]) simp_all
  then have "iam_inv demo_libs (ic_db (demo_central\<lparr>ic_db := db\<rparr>))" by simp
  from reload_engine_total [OF demo_iam_env this] obtain ps where
    "reload_engine demo_libs id (demo_central\<lparr>ic_db := db\<rparr>) = (Ok (), demo_central\<lparr>ic_db := db, ic_engine := ps\<rparr>)" by auto
  then show ?thesis
    by (simp add: svc_create_policy_def demo_deny_proto_def demo_central_def nonempty_def cp)
qed

theorem deny_policy_effective_witness:
  "\<exists>st'. svc_create_policy demo_libs id 10 11 (demo_deny_proto ''user'' ''bob'') demo_central = (Ok ''11'', st') \<and>
     \<not> apd_allowed (svc_check_access demo_libs st' (demo_request ''bob'' ''crm''))"
proof -
  obtain st' where "svc_create_policy demo_libs id 10 11 (demo_deny_proto ''user'' ''bob'') demo_central = (Ok ''11'', st')"
    using demo_create by blast
  moreover have "\<not> apd_allowed (svc_check_access demo_libs st' (demo_request ''bob'' ''crm''))"
    by (rule deny_policy_effective [OF demo_iam_env demo_central_sync calculation])
      (simp_all add: demo_deny_proto_def demo_central_def seeded_iam_db_def stated_policy_def demo_request_def matching_defs)
  ultimately show ?thesis by blast
qed


lemma svc_create_policy_existing:
  assumes "iam_env L scan" "iam_sync L scan st" "s \<in> set (iam_subjects (ic_db st))" "su_name s = pp_subject_name p"
    and "uuid_text L f2 \<notin> pr_id ` set (iam_policies (ic_db st))"
  shows "\<exists>st'. svc_create_policy L scan f1 f2 p st = (Ok (uuid_text L f2), st')"
proof -
  let ?e = "if pp_effect p = 1 then ''Deny'' else ''Allow''"
  have inv: "iam_inv L (ic_db st)" using assms(2) by (simp add: iam_sync_def)
  have "find (\<lambda>x. su_name x = pp_subject_name p) (iam_subjects (ic_db st)) = Some s"
    using find_key [OF iam_invD(2) [OF inv] assms(3), of "\<lambda>x. su_name x = pp_subject_name p"] assms(4) by simp
  then have "\<exists>db. create_policy L f1 f2 (pp_subject_name p) (pp_subject_type p) (pp_resource_pattern p)
      (pp_action p) ?e (nonempty (pp_row_filter p)) (nonempty (pp_column_mask_json p)) (pp_priority p) (ic_db st) = (Ok (uuid_text L f2), db)"
    using assms(3,5) by (auto simp: create_policy_def get_or_create_subject_def Let_def image_iff)
  then obtain db where cp: "create_policy L f1 f2 (pp_subject_name p) (pp_subject_type p) (pp_resource_pattern p)
      (pp_action p) ?e (nonempty (pp_row_filter p)) (nonempty (pp_column_mask_json p)) (pp_priority p) (ic_db st) = (Ok (uuid_text L f2), db)" ..
  have "uuid_codec L" using assms(1) by (simp add: iam_env_def)
  then have "iam_inv L db" using cp by (rule create_policy_cases [OF inv]) simp_all
  then have "iam_inv L (ic_db (st\<lparr>ic_db := db\<rparr>))" by simp
  from reload_engine_total [OF assms(1) this] obtain ps where
    "reload_engine L scan (st\<lparr>ic_db := db\<rparr>) = (Ok (), st\<lparr>ic_db := db, ic_engine := ps\<rparr>)" by auto
  then show ?thesis by (simp add: svc_create_policy_def cp)
qed

definition demo_bob :: iam_central where
  "demo_bob = snd (svc_create_subject demo_libs 10 ''user'' ''bob'' demo_central)"

lemma demo_bob_sync [simp]: "iam_sync demo_libs id demo_bob"
  using iam_step_sync [OF demo_iam_env demo_central_sync, of "CreateSubject 10 ''user'' ''bob''"] by (simp add: demo_bob_def)

lemma demo_bob_db:
  "ic_db demo_bob = seeded_iam_db\<lparr>iam_subjects := iam_subjects seeded_iam_db @ [\<lparr>su_id = ''10'', su_type = ''user'', su_name = ''bob''\<rparr>]\<rparr>"
  by (simp add: demo_bob_def svc_create_subject_def get_or_create_subject_def create_subject_def demo_central_def
      seeded_iam_db_def demo_uuid_text seed_subject_id_def Let_def)


text \<open>
  Group membership is stored and read by nothing: adding a member to a group leaves every decision
  of the engine and every listing of the policies as it was.
\<close>

lemma group_members_unused:
  assumes "iam_inv L (ic_db st)"
  shows "svc_check_access L (snd (svc_add_group_member L f1 f2 g u st)) req = svc_check_access L st req"
    and "list_policies L scan n (ic_db (snd (svc_add_group_member L f1 f2 g u st))) = list_policies L scan n (ic_db st)"
proof -
  show "svc_check_access L (snd (svc_add_group_member L f1 f2 g u st)) req = svc_check_access L st req"
    by (simp add: svc_add_group_member_def svc_check_access_def split: prod.split)
  show "list_policies L scan n (ic_db (snd (svc_add_group_member L f1 f2 g u st))) = list_policies L scan n (ic_db st)"
    using policy_rows_add_member [OF assms, of f1 f2 g u]
    by (intro list_policies_rows, cases "add_group_member L f1 f2 g u (ic_db st)") (simp add: svc_add_group_member_def)
qed

end
