(* ===== verification/Subject_Race.thy ===== *)
theory Subject_Race
  imports Central_Iam
begin

text \<open>
  The statements of \<open>create_policy\<close>, \<open>add_group_member\<close> and \<open>get_or_create_subject\<close> under concurrency (\<open>db/iam_store.rs\<close>): the lookup of a
  subject, its insertion when there is none, and the insertion of the policy or the member are separate statements
  without a transaction, so those of several calls interleave, with deletions and audit events between them. Run alone, the statements of a call are the operation of the store.
\<close>

section \<open>The statements\<close>

record policy_call =
  pc_fresh1 :: uuid
  pc_fresh2 :: uuid
  pc_subject_name :: string
  pc_subject_type :: string
  pc_resource_pattern :: string
  pc_action :: string
  pc_effect :: string
  pc_row_filter :: "string option"
  pc_column_mask_json :: "string option"
  pc_priority :: i32

definition insert_policy :: "libs \<Rightarrow> policy_call \<Rightarrow> string \<Rightarrow> iam_db \<Rightarrow> string store_result \<times> iam_db" where
  "insert_policy L c sid db =
     (let policy_id = uuid_text L (pc_fresh2 c)
      in if pc_effect c \<noteq> ''Allow'' \<and> pc_effect c \<noteq> ''Deny''
         then (Err (SqlError (CheckViolation ''effect'')), db)
         else if sql_exists (\<lambda>p. pr_id p = policy_id) (iam_policies db)
         then (Err (SqlError (UniqueViolation ''iam_policies.id'')), db)
         else if \<not> sql_exists (\<lambda>s. su_id s = sid) (iam_subjects db)
         then (Err (SqlError ForeignKeyViolation), db)
         else (Ok policy_id, db\<lparr>iam_policies := iam_policies db @
                [\<lparr>pr_id = policy_id, pr_subject_id = sid, pr_resource_pattern = pc_resource_pattern c,
                  pr_action = pc_action c, pr_effect = pc_effect c, pr_row_filter = pc_row_filter c,
                  pr_column_mask_json = pc_column_mask_json c, pr_priority = scast (pc_priority c)\<rparr>]\<rparr>))"

lemma create_policy_statements:
  "create_policy L (pc_fresh1 c) (pc_fresh2 c) (pc_subject_name c) (pc_subject_type c) (pc_resource_pattern c) (pc_action c)
     (pc_effect c) (pc_row_filter c) (pc_column_mask_json c) (pc_priority c) db =
   (case get_or_create_subject L (pc_fresh1 c) (pc_subject_type c) (pc_subject_name c) db of
      (Inl e, db1) \<Rightarrow> (Err e, db1)
    | (Inr sid, db1) \<Rightarrow> insert_policy L c sid db1)"
  by (simp only: create_policy_def insert_policy_def)

record subject_call =
  sc_fresh :: uuid
  sc_type :: string
  sc_name :: string

record member_call =
  mc_fresh1 :: uuid
  mc_fresh2 :: uuid
  mc_group_name :: string
  mc_user_name :: string

definition insert_member :: "string \<Rightarrow> string \<Rightarrow> iam_db \<Rightarrow> unit store_result \<times> iam_db" where
  "insert_member gid uid db =
     (if \<not> sql_exists (\<lambda>s. su_id s = gid) (iam_subjects db) \<or> \<not> sql_exists (\<lambda>s. su_id s = uid) (iam_subjects db)
      then (Err (SqlError ForeignKeyViolation), db)
      else if sql_exists (\<lambda>m. m = (gid, uid)) (iam_group_members db) then (Ok (), db)
      else (Ok (), db\<lparr>iam_group_members := iam_group_members db @ [(gid, uid)]\<rparr>))"

lemma add_group_member_statements:
  "add_group_member L (mc_fresh1 m) (mc_fresh2 m) (mc_group_name m) (mc_user_name m) db =
   (case get_or_create_subject L (mc_fresh1 m) ''group'' (mc_group_name m) db of
      (Inl e, db1) \<Rightarrow> (Err e, db1)
    | (Inr gid, db1) \<Rightarrow>
        (case get_or_create_subject L (mc_fresh2 m) ''user'' (mc_user_name m) db1 of
           (Inl e, db2) \<Rightarrow> (Err e, db2)
         | (Inr uid, db2) \<Rightarrow> insert_member gid uid db2))"
  by (simp only: add_group_member_def insert_member_def)

section \<open>The steps\<close>

text \<open>
  How far a call is: it found no subject, it has its subject, or it has ended with its answer; for a member, first
  with its group and then with its user. A call for a subject alone ends when it has it.
\<close>

datatype call_stage =
    NoSubject policy_call
  | HasSubject policy_call string
  | Ended policy_call "string store_result"
  | NoGroup member_call
  | HasGroup member_call string
  | NoUser member_call string
  | HasUser member_call string string
  | MemberEnded member_call "unit store_result"
  | MissingSubject subject_call
  | SubjectEnded subject_call "string store_result"

text \<open>The first statement of a call, which only reads, and each next one; a call that has ended has none left.\<close>

definition lookup_subject :: "string \<Rightarrow> iam_db \<Rightarrow> string option" where
  "lookup_subject name db = map_option su_id (find (\<lambda>s. su_name s = name) (iam_subjects db))"

definition begin_policy :: "policy_call \<Rightarrow> iam_db \<Rightarrow> call_stage" where
  "begin_policy c db = (case lookup_subject (pc_subject_name c) db of Some sid \<Rightarrow> HasSubject c sid | None \<Rightarrow> NoSubject c)"

definition begin_member :: "member_call \<Rightarrow> iam_db \<Rightarrow> call_stage" where
  "begin_member m db = (case lookup_subject (mc_group_name m) db of Some gid \<Rightarrow> HasGroup m gid | None \<Rightarrow> NoGroup m)"

definition begin_subject :: "subject_call \<Rightarrow> iam_db \<Rightarrow> call_stage" where
  "begin_subject c db = (case lookup_subject (sc_name c) db of Some i \<Rightarrow> SubjectEnded c (Ok i) | None \<Rightarrow> MissingSubject c)"

fun stage_step :: "libs \<Rightarrow> call_stage \<Rightarrow> iam_db \<Rightarrow> call_stage \<times> iam_db" where
  "stage_step L (NoSubject c) db =
     (let (r, db') = create_subject L (pc_fresh1 c) (pc_subject_type c) (pc_subject_name c) db
      in (case r of Inl e \<Rightarrow> Ended c (Err e) | Inr sid \<Rightarrow> HasSubject c sid, db'))"
| "stage_step L (HasSubject c sid) db = (let (r, db') = insert_policy L c sid db in (Ended c r, db'))"
| "stage_step L (Ended c r) db = (Ended c r, db)"
| "stage_step L (NoGroup m) db =
     (let (r, db') = create_subject L (mc_fresh1 m) ''group'' (mc_group_name m) db
      in (case r of Inl e \<Rightarrow> MemberEnded m (Err e) | Inr gid \<Rightarrow> HasGroup m gid, db'))"
| "stage_step L (HasGroup m gid) db =
     (case lookup_subject (mc_user_name m) db of Some uid \<Rightarrow> HasUser m gid uid | None \<Rightarrow> NoUser m gid, db)"
| "stage_step L (NoUser m gid) db =
     (let (r, db') = create_subject L (mc_fresh2 m) ''user'' (mc_user_name m) db
      in (case r of Inl e \<Rightarrow> MemberEnded m (Err e) | Inr uid \<Rightarrow> HasUser m gid uid, db'))"
| "stage_step L (HasUser m gid uid) db = (let (r, db') = insert_member gid uid db in (MemberEnded m r, db'))"
| "stage_step L (MemberEnded m r) db = (MemberEnded m r, db)"
| "stage_step L (MissingSubject c) db =
     (let (r, db') = create_subject L (sc_fresh c) (sc_type c) (sc_name c) db in (SubjectEnded c r, db'))"
| "stage_step L (SubjectEnded c r) db = (SubjectEnded c r, db)"

record subject_system =
  sy_db :: iam_db
  sy_calls :: "call_stage list"

inductive subject_move :: "libs \<Rightarrow> subject_system \<Rightarrow> subject_system \<Rightarrow> bool" for L where
  begins_policy: "subject_move L s (s\<lparr>sy_calls := sy_calls s @ [begin_policy c (sy_db s)]\<rparr>)"
| begins_member: "subject_move L s (s\<lparr>sy_calls := sy_calls s @ [begin_member m (sy_db s)]\<rparr>)"
| begins_subject: "subject_move L s (s\<lparr>sy_calls := sy_calls s @ [begin_subject k (sy_db s)]\<rparr>)"
| advances:
    "sy_calls s = xs @ x # ys \<Longrightarrow> stage_step L x (sy_db s) = (y, db) \<Longrightarrow>
     subject_move L s (s\<lparr>sy_db := db, sy_calls := xs @ y # ys\<rparr>)"
| deletes: "subject_move L s (s\<lparr>sy_db := snd (delete_policy i (sy_db s))\<rparr>)"
| stores_audit: "subject_move L s (s\<lparr>sy_db := snd (store_audit_event i t oa ss u se pl (sy_db s))\<rparr>)"

definition subject_start :: "iam_db \<Rightarrow> subject_system" where
  "subject_start db = \<lparr>sy_db = db, sy_calls = []\<rparr>"

section \<open>A call that runs alone\<close>

lemma get_or_create_lookup:
  "get_or_create_subject L f t n db =
   (case lookup_subject n db of Some i \<Rightarrow> (Ok i, db) | None \<Rightarrow> create_subject L f t n db)"
  by (simp add: get_or_create_subject_def lookup_subject_def split: option.split)

theorem policy_statements_alone:
  "(case_prod (stage_step L) ^^ 2) (begin_policy c db, db) =
   (case create_policy L (pc_fresh1 c) (pc_fresh2 c) (pc_subject_name c) (pc_subject_type c) (pc_resource_pattern c) (pc_action c)
           (pc_effect c) (pc_row_filter c) (pc_column_mask_json c) (pc_priority c) db of
      (r, db') \<Rightarrow> (Ended c r, db'))"
  unfolding create_policy_statements get_or_create_lookup
  by (simp add: begin_policy_def numeral_2_eq_2 split: option.split prod.split sum.split)

theorem member_statements_alone:
  "(case_prod (stage_step L) ^^ 4) (begin_member m db, db) =
   (case add_group_member L (mc_fresh1 m) (mc_fresh2 m) (mc_group_name m) (mc_user_name m) db of
      (r, db') \<Rightarrow> (MemberEnded m r, db'))"
  unfolding add_group_member_statements get_or_create_lookup
  by (simp add: begin_member_def eval_nat_numeral split: option.split prod.split sum.split)

theorem subject_statements_alone:
  "stage_step L (begin_subject c db) db =
   (case get_or_create_subject L (sc_fresh c) (sc_type c) (sc_name c) db of (r, db') \<Rightarrow> (SubjectEnded c r, db'))"
  unfolding get_or_create_lookup by (simp add: begin_subject_def split: option.split prod.split)

section \<open>The invariant\<close>

text \<open>The subjects of a call under way stay in the table, so its foreign keys cannot fail.\<close>

fun stage_ok :: "iam_db \<Rightarrow> call_stage \<Rightarrow> bool" where
  "stage_ok db (HasSubject c sid) = (sid \<in> su_id ` set (iam_subjects db))"
| "stage_ok db (Ended c r) = (r \<noteq> Err (SqlError ForeignKeyViolation))"
| "stage_ok db (HasGroup m gid) = (gid \<in> su_id ` set (iam_subjects db))"
| "stage_ok db (NoUser m gid) = (gid \<in> su_id ` set (iam_subjects db))"
| "stage_ok db (HasUser m gid uid) = (gid \<in> su_id ` set (iam_subjects db) \<and> uid \<in> su_id ` set (iam_subjects db))"
| "stage_ok db (MemberEnded m r) = (r \<noteq> Err (SqlError ForeignKeyViolation))"
| "stage_ok db (SubjectEnded c r) = (r \<noteq> Err (SqlError ForeignKeyViolation))"
| "stage_ok db _ = True"

definition sy_inv :: "libs \<Rightarrow> subject_system \<Rightarrow> bool" where
  "sy_inv L s \<longleftrightarrow> iam_inv L (sy_db s) \<and> (\<forall>x \<in> set (sy_calls s). stage_ok (sy_db s) x)"

lemma stage_ok_mono: "stage_ok db x \<Longrightarrow> set (iam_subjects db) \<subseteq> set (iam_subjects db') \<Longrightarrow> stage_ok db' x"
  by (cases x) auto

lemma sy_inv_db:
  "sy_inv L s \<Longrightarrow> iam_inv L db \<Longrightarrow> set (iam_subjects (sy_db s)) \<subseteq> set (iam_subjects db) \<Longrightarrow> sy_inv L (s\<lparr>sy_db := db\<rparr>)"
  unfolding sy_inv_def using stage_ok_mono by fastforce

lemma sy_inv_call:
  assumes "sy_inv L s" "sy_calls s = xs @ x # ys" "iam_inv L db"
    and "set (iam_subjects (sy_db s)) \<subseteq> set (iam_subjects db)" "stage_ok db y"
  shows "sy_inv L (s\<lparr>sy_db := db, sy_calls := xs @ y # ys\<rparr>)"
proof -
  have "stage_ok db z" if "z \<in> set xs \<union> set ys" for z
  proof (rule stage_ok_mono [OF _ assms(4)])
    show "stage_ok (sy_db s) z" using assms(1,2) that by (auto simp: sy_inv_def)
  qed
  with assms(3,5) show ?thesis by (auto simp: sy_inv_def)
qed

lemma create_subject_facts:
  assumes "create_subject L f t n db = (r, db')" "iam_inv L db"
  shows "iam_inv L db'" "set (iam_subjects db) \<subseteq> set (iam_subjects db')"
    "r = Ok sid \<Longrightarrow> sid \<in> su_id ` set (iam_subjects db')" "r \<noteq> Err (SqlError ForeignKeyViolation)"
proof -
  have "iam_inv L db' \<and> set (iam_subjects db) \<subseteq> set (iam_subjects db') \<and> (r = Ok sid \<longrightarrow> sid \<in> su_id ` set (iam_subjects db'))"
    using assms(1) by (rule create_subject_cases) (use assms(2) in \<open>auto intro: add_subject_inv\<close>)
  then show "iam_inv L db'" "set (iam_subjects db) \<subseteq> set (iam_subjects db')"
    "r = Ok sid \<Longrightarrow> sid \<in> su_id ` set (iam_subjects db')" by blast+
  show "r \<noteq> Err (SqlError ForeignKeyViolation)"
    using assms(1) by (auto simp: create_subject_def Let_def split: if_splits)
qed

lemma insert_policy_facts:
  assumes "insert_policy L c sid db = (r, db')" "iam_inv L db" "uuid_codec L" "sid \<in> su_id ` set (iam_subjects db)"
  shows "iam_inv L db'" "iam_subjects db' = iam_subjects db" "r \<noteq> Err (SqlError ForeignKeyViolation)"
proof -
  obtain s where s: "s \<in> set (iam_subjects db)" "su_id s = sid" using assms(4) by auto
  show "iam_subjects db' = iam_subjects db" "r \<noteq> Err (SqlError ForeignKeyViolation)"
    using assms(1) s by (auto simp: insert_policy_def Let_def split: if_splits)
  show "iam_inv L db'"
  proof (cases "pc_effect c \<in> {''Allow'', ''Deny''} \<and> uuid_text L (pc_fresh2 c) \<notin> pr_id ` set (iam_policies db)")
    case True
    then have g: "\<not> (pc_effect c \<noteq> ''Allow'' \<and> pc_effect c \<noteq> ''Deny'')"
        "\<not> sql_exists (\<lambda>p. pr_id p = uuid_text L (pc_fresh2 c)) (iam_policies db)"
        "sql_exists (\<lambda>x. su_id x = sid) (iam_subjects db)"
      using s by (auto simp: image_iff)
    have db': "db' = db\<lparr>iam_policies := iam_policies db @
        [\<lparr>pr_id = uuid_text L (pc_fresh2 c), pr_subject_id = sid, pr_resource_pattern = pc_resource_pattern c,
          pr_action = pc_action c, pr_effect = pc_effect c, pr_row_filter = pc_row_filter c,
          pr_column_mask_json = pc_column_mask_json c, pr_priority = scast (pc_priority c)\<rparr>]\<rparr>"
      using assms(1) by (simp only: insert_policy_def Let_def g if_False if_True not_True_eq_False prod.inject)
    show ?thesis
      using assms(2) True s uuid_codecD [OF assms(3)] unfolding db' iam_inv_def by (simp add: image_subset_iff) blast
  next
    case False
    then have "db' = db" using assms(1) by (auto simp: insert_policy_def Let_def image_iff split: if_splits)
    with assms(2) show ?thesis by simp
  qed
qed

lemma insert_member_facts:
  assumes "insert_member gid uid db = (r, db')" "iam_inv L db" "gid \<in> su_id ` set (iam_subjects db)" "uid \<in> su_id ` set (iam_subjects db)"
  shows "iam_inv L db'" "iam_subjects db' = iam_subjects db" "r \<noteq> Err (SqlError ForeignKeyViolation)"
proof -
  have "iam_inv L (db\<lparr>iam_group_members := iam_group_members db @ [(gid, uid)]\<rparr>)" if "(gid, uid) \<notin> set (iam_group_members db)"
    using assms(2-4) that unfolding iam_inv_def by auto
  then show "iam_inv L db'" "iam_subjects db' = iam_subjects db" "r \<noteq> Err (SqlError ForeignKeyViolation)"
    using assms by (auto simp: insert_member_def split: if_splits)
qed

lemma lookup_subject_Some: "lookup_subject n db = Some i \<Longrightarrow> i \<in> su_id ` set (iam_subjects db)"
  by (auto simp: lookup_subject_def find_Some_iff)

lemma begin_ok: "stage_ok db (begin_policy c db)" "stage_ok db (begin_member m db)" "stage_ok db (begin_subject k db)"
  by (simp_all add: begin_policy_def begin_member_def begin_subject_def lookup_subject_Some split: option.split)

lemma stage_step_facts:
  assumes "stage_step L x db = (y, db')" "iam_inv L db" "uuid_codec L" "stage_ok db x"
  shows "iam_inv L db' \<and> set (iam_subjects db) \<subseteq> set (iam_subjects db') \<and> stage_ok db' y"
proof (cases x)
  case (NoSubject c)
  obtain r db1 where c: "create_subject L (pc_fresh1 c) (pc_subject_type c) (pc_subject_name c) db = (r, db1)" by fastforce
  show ?thesis using create_subject_facts [OF c assms(2)] assms(1) by (auto simp: NoSubject c split: sum.splits)
next
  case (HasSubject c sid)
  obtain r db1 where c: "insert_policy L c sid db = (r, db1)" by fastforce
  show ?thesis using insert_policy_facts [OF c assms(2,3)] assms(1,4) by (auto simp: HasSubject c)
next
  case (NoGroup m)
  obtain r db1 where c: "create_subject L (mc_fresh1 m) ''group'' (mc_group_name m) db = (r, db1)" by fastforce
  show ?thesis using create_subject_facts [OF c assms(2)] assms(1) by (auto simp: NoGroup c split: sum.splits)
next
  case (NoUser m gid)
  obtain r db1 where c: "create_subject L (mc_fresh2 m) ''user'' (mc_user_name m) db = (r, db1)" by fastforce
  show ?thesis using create_subject_facts [OF c assms(2)] assms(1,4) by (auto simp: NoUser c split: sum.splits)
next
  case (HasUser m gid uid)
  obtain r db1 where c: "insert_member gid uid db = (r, db1)" by fastforce
  show ?thesis using insert_member_facts [OF c assms(2)] assms(1,4) by (auto simp: HasUser c)
next
  case (MissingSubject c)
  obtain r db1 where c: "create_subject L (sc_fresh c) (sc_type c) (sc_name c) db = (r, db1)" by fastforce
  show ?thesis using create_subject_facts [OF c assms(2)] assms(1) by (auto simp: MissingSubject c)
qed (use assms in \<open>auto simp: lookup_subject_Some split: option.splits\<close>)

lemma subject_move_inv: "subject_move L s s' \<Longrightarrow> uuid_codec L \<Longrightarrow> sy_inv L s \<Longrightarrow> sy_inv L s'"
proof (induction rule: subject_move.induct)
  case (begins_policy s c)
  then show ?case using begin_ok(1) by (auto simp: sy_inv_def)
next
  case (begins_member s m)
  then show ?case using begin_ok(2) by (auto simp: sy_inv_def)
next
  case (begins_subject s k)
  then show ?case using begin_ok(3) by (auto simp: sy_inv_def)
next
  case (advances s xs x ys y db)
  have "iam_inv L db \<and> set (iam_subjects (sy_db s)) \<subseteq> set (iam_subjects db) \<and> stage_ok db y"
    using advances by (intro stage_step_facts [OF advances.hyps(2)]) (simp_all add: sy_inv_def)
  then show ?case by (intro sy_inv_call [OF advances.prems(2) advances.hyps(1)]) simp_all
next
  case (deletes s i)
  then have "iam_inv L (snd (delete_policy i (sy_db s)))" by (intro delete_policy_inv) (simp add: sy_inv_def)
  with deletes show ?case by (intro sy_inv_db) (simp_all add: delete_policy_def)
next
  case (stores_audit s i t oa ss u se pl)
  then have "iam_inv L (snd (store_audit_event i t oa ss u se pl (sy_db s)))"
    by (intro store_audit_event_inv) (simp add: sy_inv_def)
  with stores_audit show ?case by (intro sy_inv_db) (simp_all add: store_audit_event_def)
qed

lemma subject_moves_inv:
  "(subject_move L)\<^sup>*\<^sup>* (subject_start db) s \<Longrightarrow> uuid_codec L \<Longrightarrow> iam_inv L db \<Longrightarrow> sy_inv L s"
proof (induction rule: rtranclp_induct)
  case base
  then show ?case by (simp add: subject_start_def sy_inv_def)
next
  case (step s s')
  then show ?case by (blast intro: subject_move_inv)
qed

section \<open>Properties under interleaving\<close>

text \<open>
  However the statements of policy creations, member additions and new subjects interleave with each other and with
  the other calls, the tables keep every constraint of the schema, a listing of the policies succeeds, and no call fails on the
  foreign key of a subject.
\<close>

theorem interleaved_policies_sound:
  assumes "(subject_move L)\<^sup>*\<^sup>* (subject_start db) s" "iam_env L scan" "iam_inv L db"
  shows "iam_inv L (sy_db s) \<and> (\<exists>ps. list_policies L scan None (sy_db s) = Ok ps) \<and>
    (\<nexists>c. Ended c (Err (SqlError ForeignKeyViolation)) \<in> set (sy_calls s)) \<and>
    (\<nexists>m. MemberEnded m (Err (SqlError ForeignKeyViolation)) \<in> set (sy_calls s))"
proof -
  have inv: "sy_inv L s" using subject_moves_inv [OF assms(1) _ assms(3)] assms(2) by (simp add: iam_env_def)
  then have "\<exists>ps. list_policies L scan None (sy_db s) = Ok ps"
    using assms(2) by (auto simp: sy_inv_def iam_env_def list_policies_total)
  with inv show ?thesis by (fastforce simp: sy_inv_def)
qed

text \<open>
  Creating a policy for a subject that does not exist yet fails when another call creates that subject at the same
  time: both find none, both insert one, and the second insertion violates the uniqueness of the name, although
  one after the other both calls would have got the subject.
\<close>

theorem concurrent_subjects_conflict:
  fixes c1 c2 :: policy_call
  assumes "pc_subject_name c1 = n" "pc_subject_name c2 = n" "n \<notin> su_name ` set (iam_subjects db)"
    and "pc_subject_type c1 \<in> {''user'', ''group''}" "pc_subject_type c2 \<in> {''user'', ''group''}"
    and "uuid_text L (pc_fresh1 c1) \<noteq> uuid_text L (pc_fresh1 c2)"
    and "{uuid_text L (pc_fresh1 c1), uuid_text L (pc_fresh1 c2)} \<inter> su_id ` set (iam_subjects db) = {}"
  shows "\<exists>s. (subject_move L)\<^sup>*\<^sup>* (subject_start db) s \<and>
    Ended c2 (Err (SqlError (UniqueViolation ''iam_subjects.name''))) \<in> set (sy_calls s)"
proof -
  let ?row = "\<lparr>su_id = uuid_text L (pc_fresh1 c1), su_type = pc_subject_type c1, su_name = n\<rparr>"
  let ?db = "db\<lparr>iam_subjects := iam_subjects db @ [?row]\<rparr>" and ?e = "SqlError (UniqueViolation ''iam_subjects.name'')"
  have none: "lookup_subject n db = None" using assms(3) by (auto simp: lookup_subject_def find_None_iff)
  have ins1: "create_subject L (pc_fresh1 c1) (pc_subject_type c1) n db = (Ok (uuid_text L (pc_fresh1 c1)), ?db)"
    using assms(3,4,7) by (auto simp: create_subject_def Let_def image_iff)
  have ins2: "create_subject L (pc_fresh1 c2) (pc_subject_type c2) n ?db = (Err ?e, ?db)"
    using assms(5-7) by (auto simp: create_subject_def Let_def image_iff)
  let ?s1 = "\<lparr>sy_db = db, sy_calls = [NoSubject c1]\<rparr>" and ?s2 = "\<lparr>sy_db = db, sy_calls = [NoSubject c1, NoSubject c2]\<rparr>"
  let ?s3 = "\<lparr>sy_db = ?db, sy_calls = [HasSubject c1 (uuid_text L (pc_fresh1 c1)), NoSubject c2]\<rparr>"
  let ?s4 = "\<lparr>sy_db = ?db, sy_calls = [HasSubject c1 (uuid_text L (pc_fresh1 c1)), Ended c2 (Err ?e)]\<rparr>"
  have "subject_move L (subject_start db) ?s1"
    using begins_policy [of L "subject_start db" c1] none assms(1) by (simp add: subject_start_def begin_policy_def)
  moreover have "subject_move L ?s1 ?s2" using begins_policy [of L ?s1 c2] none assms(2) by (simp add: begin_policy_def)
  moreover have "subject_move L ?s2 ?s3"
    using advances [of ?s2 "[]" "NoSubject c1" "[NoSubject c2]" L "HasSubject c1 (uuid_text L (pc_fresh1 c1))" ?db] ins1 assms(1) by simp
  moreover have "subject_move L ?s3 ?s4"
    using advances [of ?s3 "[HasSubject c1 (uuid_text L (pc_fresh1 c1))]" "NoSubject c2" "[]" L "Ended c2 (Err ?e)" ?db] ins2 assms(2) by simp
  ultimately have "(subject_move L)\<^sup>*\<^sup>* (subject_start db) ?s4"
    by (meson rtranclp.rtrancl_refl rtranclp.rtrancl_into_rtrancl)
  then show ?thesis by (intro exI [of _ ?s4]) simp
qed

definition demo_call :: "uuid \<Rightarrow> policy_call" where
  "demo_call i =
     \<lparr>pc_fresh1 = i, pc_fresh2 = i, pc_subject_name = ''bob'', pc_subject_type = ''user'', pc_resource_pattern = ''*'',
      pc_action = ''*'', pc_effect = ''Deny'', pc_row_filter = None, pc_column_mask_json = None, pc_priority = 0\<rparr>"

theorem concurrent_subjects_conflict_witness:
  "\<exists>s. (subject_move demo_libs)\<^sup>*\<^sup>* (subject_start seeded_iam_db) s \<and>
     Ended (demo_call 11) (Err (SqlError (UniqueViolation ''iam_subjects.name''))) \<in> set (sy_calls s)"
  by (rule concurrent_subjects_conflict [of "demo_call 10" "''bob''"])
    (simp_all add: demo_call_def seeded_iam_db_def seed_subject_id_def demo_uuid_text)

end
