(* ===== verification/Iam_Race.thy ===== *)
theory Iam_Race
  imports Subject_Race
begin

text \<open>
  The handlers of \<open>grpc/iam_svc.rs\<close> under concurrency. A handler of \<open>CreatePolicy\<close> or \<open>DeletePolicy\<close> writes the
  database, by the statements of \<open>Subject_Race\<close>, then lists the policies, then stores them into the engine; it can be
  suspended between any two of these (each is a separate await), so handlers interleave. The state has the
  handlers under way and, as a ghost, the databases so far.
\<close>

section \<open>Handlers under way\<close>

datatype handler = Storing call_stage | ToList | ToInstall "policy list"

record iam_system =
  is_central :: iam_central
  is_handlers :: "handler list"
  is_past :: "iam_db list"

definition policy_call_of :: "uuid \<Rightarrow> uuid \<Rightarrow> policy_proto \<Rightarrow> policy_call" where
  "policy_call_of fresh1 fresh2 p =
     \<lparr>pc_fresh1 = fresh1, pc_fresh2 = fresh2, pc_subject_name = pp_subject_name p, pc_subject_type = pp_subject_type p,
      pc_resource_pattern = pp_resource_pattern p, pc_action = pp_action p,
      pc_effect = (if pp_effect p = 1 then ''Deny'' else ''Allow''), pc_row_filter = nonempty (pp_row_filter p),
      pc_column_mask_json = nonempty (pp_column_mask_json p), pc_priority = pp_priority p\<rparr>"

text \<open>What is left of a handler after a statement: a created policy leaves the reload, every other end nothing.\<close>

fun after_stage :: "call_stage \<Rightarrow> handler list" where
  "after_stage (Ended c r) = (case r of Inl _ \<Rightarrow> [] | Inr _ \<Rightarrow> [ToList])"
| "after_stage (MemberEnded m r) = []"
| "after_stage (SubjectEnded k r) = []"
| "after_stage x = [Storing x]"

definition set_db :: "iam_db \<Rightarrow> handler list \<Rightarrow> iam_system \<Rightarrow> iam_system" where
  "set_db db hs s = s\<lparr>is_central := (is_central s)\<lparr>ic_db := db\<rparr>, is_handlers := hs, is_past := is_past s @ [db]\<rparr>"

inductive iam_move :: "libs \<Rightarrow> scan \<Rightarrow> iam_system \<Rightarrow> iam_system \<Rightarrow> bool"
  for L :: libs and scan :: scan where
  begins:
    "x = begin_policy (policy_call_of f1 f2 p) (ic_db (is_central s)) \<or> x = begin_member m (ic_db (is_central s)) \<or>
     x = begin_subject k (ic_db (is_central s)) \<Longrightarrow>
     iam_move L scan s (s\<lparr>is_handlers := is_handlers s @ after_stage x\<rparr>)"
| stores:
    "is_handlers s = xs @ Storing x # ys \<Longrightarrow> stage_step L x (ic_db (is_central s)) = (y, db) \<Longrightarrow>
     iam_move L scan s (set_db db (xs @ after_stage y @ ys) s)"
| delete_writes:
    "delete_policy i (ic_db (is_central s)) = (Ok u, db) \<Longrightarrow> iam_move L scan s (set_db db (is_handlers s @ [ToList]) s)"
| lists:
    "is_handlers s = xs @ ToList # ys \<Longrightarrow> list_policies L scan None (ic_db (is_central s)) = Ok ps \<Longrightarrow>
     iam_move L scan s (s\<lparr>is_handlers := xs @ ToInstall ps # ys\<rparr>)"
| list_fails:
    "is_handlers s = xs @ ToList # ys \<Longrightarrow> list_policies L scan None (ic_db (is_central s)) = Err e \<Longrightarrow>
     iam_move L scan s (s\<lparr>is_handlers := xs @ ys\<rparr>)"
| installs:
    "is_handlers s = xs @ ToInstall ps # ys \<Longrightarrow>
     iam_move L scan s
       (s\<lparr>is_central := (is_central s)\<lparr>ic_engine := snapshot_reload (ic_engine (is_central s)) ps\<rparr>, is_handlers := xs @ ys\<rparr>)"
| stores_audit:
    "iam_move L scan s (set_db (snd (store_audit_event i t oa ss u se pl (ic_db (is_central s)))) (is_handlers s) s)"

definition system_start :: "iam_central \<Rightarrow> iam_system" where
  "system_start st = \<lparr>is_central = st, is_handlers = [], is_past = [ic_db st]\<rparr>"

section \<open>The moves of one handler\<close>

abbreviation system_of :: "iam_db \<Rightarrow> snapshot_engine \<Rightarrow> handler list \<Rightarrow> iam_db list \<Rightarrow> iam_system" where
  "system_of db eng hs past \<equiv> \<lparr>is_central = \<lparr>ic_db = db, ic_engine = eng\<rparr>, is_handlers = hs, is_past = past\<rparr>"

text \<open>The statements of a call in a row.\<close>

lemma stages_run:
  "(case_prod (stage_step L) ^^ n) (x, db) = (y, db') \<Longrightarrow>
   \<exists>past'. (iam_move L scan)\<^sup>*\<^sup>* (system_of db eng (hs @ after_stage x) past) (system_of db' eng (hs @ after_stage y) past')"
proof (induction n arbitrary: x db past)
  case (Suc n)
  obtain z db1 where z: "stage_step L x db = (z, db1)" by fastforce
  then have rest: "(case_prod (stage_step L) ^^ n) (z, db1) = (y, db')"
    using Suc.prems by (simp add: funpow_Suc_right del: funpow.simps)
  show ?case
  proof (cases "after_stage x = [Storing x]")
    case True
    then have "iam_move L scan (system_of db eng (hs @ after_stage x) past) (system_of db1 eng (hs @ after_stage z) (past @ [db1]))"
      using stores [of "system_of db eng (hs @ [Storing x]) past" hs x "[]" L z db1 scan] z by (simp add: set_db_def)
    with Suc.IH [OF rest, of "past @ [db1]"] show ?thesis by (meson converse_rtranclp_into_rtranclp)
  next
    case False
    then have "z = x" "db1 = db" using z by (cases x; simp)+
    with Suc.IH [OF rest, of past] show ?thesis by simp
  qed
qed auto

definition write_policy :: "libs \<Rightarrow> uuid \<Rightarrow> uuid \<Rightarrow> policy_proto \<Rightarrow> iam_db \<Rightarrow> string store_result \<times> iam_db" where
  "write_policy L fresh1 fresh2 p db =
     create_policy L fresh1 fresh2 (pp_subject_name p) (pp_subject_type p) (pp_resource_pattern p) (pp_action p)
       (if pp_effect p = 1 then ''Deny'' else ''Allow'') (nonempty (pp_row_filter p)) (nonempty (pp_column_mask_json p))
       (pp_priority p) db"

lemma write_policy_runs:
  assumes "write_policy L f1 f2 p db = (Ok i, db')"
  shows "\<exists>past'. (iam_move L scan)\<^sup>*\<^sup>* (system_of db eng hs past) (system_of db' eng (hs @ [ToList]) past')"
proof -
  let ?c = "policy_call_of f1 f2 p"
  have "(case_prod (stage_step L) ^^ 2) (begin_policy ?c db, db) = (Ended ?c (Ok i), db')"
    using assms unfolding policy_statements_alone by (simp add: write_policy_def policy_call_of_def)
  from stages_run [OF this] obtain past' where
    "(iam_move L scan)\<^sup>*\<^sup>* (system_of db eng (hs @ after_stage (begin_policy ?c db)) past) (system_of db' eng (hs @ [ToList]) past')"
    by fastforce
  moreover have "iam_move L scan (system_of db eng hs past) (system_of db eng (hs @ after_stage (begin_policy ?c db)) past)"
    using begins [of "begin_policy ?c db" f1 f2 p "system_of db eng hs past" _ _ L scan] by simp
  ultimately show ?thesis by (meson converse_rtranclp_into_rtranclp)
qed

lemma lists_next:
  "list_policies L scan None db = Ok ps \<Longrightarrow>
   iam_move L scan (system_of db eng (xs @ ToList # ys) past) (system_of db eng (xs @ ToInstall ps # ys) past)"
  using lists [of "system_of db eng (xs @ ToList # ys) past" xs ys L scan ps] by simp

lemma installs_next:
  "iam_move L scan (system_of db eng (xs @ ToInstall ps # ys) past) (system_of db ps (xs @ ys) past)"
  using installs [of "system_of db eng (xs @ ToInstall ps # ys) past" xs ps ys L scan] by (simp add: snapshot_reload_def)

text \<open>Run without interruption, the moves of a handler are the handler of the sequential model.\<close>

lemma create_uninterrupted:
  assumes "svc_create_policy L scan f1 f2 p st = (Ok i, st')"
  shows "\<exists>past'. (iam_move L scan)\<^sup>*\<^sup>* \<lparr>is_central = st, is_handlers = hs, is_past = past\<rparr> \<lparr>is_central = st', is_handlers = hs, is_past = past'\<rparr>"
proof -
  obtain r db where w: "write_policy L f1 f2 p (ic_db st) = (r, db)" by fastforce
  from assms w obtain ps where r: "r = Ok i" "list_policies L scan None db = Ok ps"
      and st': "st' = st\<lparr>ic_db := db, ic_engine := ps\<rparr>"
    by (auto simp: svc_create_policy_def write_policy_def reload_engine_def snapshot_reload_def internal_status_def map_err_def
        split: sum.splits prod.splits)
  obtain past' where "(iam_move L scan)\<^sup>*\<^sup>* (system_of (ic_db st) (ic_engine st) hs past) (system_of db (ic_engine st) (hs @ [ToList]) past')"
    using write_policy_runs w r(1) by blast
  also have "iam_move L scan (system_of db (ic_engine st) (hs @ [ToList]) past') (system_of db (ic_engine st) (hs @ [ToInstall ps]) past')"
    using r(2) by (rule lists_next)
  also have "iam_move L scan (system_of db (ic_engine st) (hs @ [ToInstall ps]) past') (system_of db ps hs past')"
    using installs_next [of L scan db _ hs ps "[]"] by simp
  finally show ?thesis by (cases st) (auto simp: st')
qed

section \<open>The invariant\<close>

definition past_listing :: "libs \<Rightarrow> scan \<Rightarrow> iam_db list \<Rightarrow> policy list \<Rightarrow> bool" where
  "past_listing L scan past ps \<longleftrightarrow> (\<exists>db \<in> set past. list_policies L scan None db = Ok ps)"

definition handler_ok :: "libs \<Rightarrow> scan \<Rightarrow> iam_db \<Rightarrow> iam_db list \<Rightarrow> handler \<Rightarrow> bool" where
  "handler_ok L scan db past h =
     (case h of Storing x \<Rightarrow> stage_ok db x | ToList \<Rightarrow> True | ToInstall ps \<Rightarrow> past_listing L scan past ps)"

definition race_inv :: "libs \<Rightarrow> scan \<Rightarrow> iam_system \<Rightarrow> bool" where
  "race_inv L scan s \<longleftrightarrow>
     iam_inv L (ic_db (is_central s)) \<and> ic_db (is_central s) \<in> set (is_past s) \<and>
     past_listing L scan (is_past s) (ic_engine (is_central s)) \<and>
     (\<forall>h \<in> set (is_handlers s). handler_ok L scan (ic_db (is_central s)) (is_past s) h)"

lemma past_listing_mono: "past_listing L scan past ps \<Longrightarrow> past_listing L scan (past @ extra) ps"
  by (auto simp: past_listing_def)

lemma handler_ok_mono:
  "handler_ok L scan db past h \<Longrightarrow> set (iam_subjects db) \<subseteq> set (iam_subjects db') \<Longrightarrow> handler_ok L scan db' (past @ extra) h"
  by (auto simp: handler_ok_def stage_ok_mono past_listing_mono split: handler.splits)

lemma after_stage_ok: "stage_ok db x \<Longrightarrow> h \<in> set (after_stage x) \<Longrightarrow> handler_ok L scan db past h"
  by (cases x) (auto simp: handler_ok_def split: sum.splits)

lemma set_db_race_inv:
  assumes "race_inv L scan s" "iam_inv L db" "set (iam_subjects (ic_db (is_central s))) \<subseteq> set (iam_subjects db)"
    and "\<And>h. h \<in> set hs \<Longrightarrow> h \<in> set (is_handlers s) \<or> handler_ok L scan db (is_past s @ [db]) h"
  shows "race_inv L scan (set_db db hs s)"
proof -
  have "handler_ok L scan db (is_past s @ [db]) h" if "h \<in> set hs" for h
    using assms(1,4) that handler_ok_mono [OF _ assms(3)] by (fastforce simp: race_inv_def)
  with assms(1,2) show ?thesis by (auto simp: race_inv_def set_db_def past_listing_mono)
qed

lemma iam_move_inv: "iam_move L scan s s' \<Longrightarrow> uuid_codec L \<Longrightarrow> race_inv L scan s \<Longrightarrow> race_inv L scan s'"
proof (induction rule: iam_move.induct)
  case (begins x f1 f2 p s m k)
  then have "stage_ok (ic_db (is_central s)) x" using begin_ok by blast
  with begins.prems(2) show ?case by (auto simp: race_inv_def dest: after_stage_ok)
next
  case (stores s xs x ys y db)
  have inv: "iam_inv L (ic_db (is_central s))" and "stage_ok (ic_db (is_central s)) x"
    using stores.hyps(1) stores.prems(2) by (simp_all add: race_inv_def handler_ok_def)
  note facts = stage_step_facts [OF stores.hyps(2) inv stores.prems(1) this(2)]
  show ?case
  proof (rule set_db_race_inv [OF stores.prems(2)])
    show "h \<in> set (is_handlers s) \<or> handler_ok L scan db (is_past s @ [db]) h" if "h \<in> set (xs @ after_stage y @ ys)" for h
      using that facts stores.hyps(1) by (auto dest: after_stage_ok)
  qed (use facts in auto)
next
  case (delete_writes i s u db)
  then have "iam_inv L db" using delete_policy_inv [of L "ic_db (is_central s)" i] by (simp add: race_inv_def)
  with delete_writes show ?case
    by (intro set_db_race_inv) (auto simp: delete_policy_def handler_ok_def)
next
  case (lists s xs ys ps)
  then have "past_listing L scan (is_past s) ps" by (auto simp: race_inv_def past_listing_def)
  with lists show ?case by (auto simp: race_inv_def handler_ok_def)
next
  case (installs s xs ps ys)
  then show ?case by (auto simp: race_inv_def handler_ok_def snapshot_reload_def)
next
  case (list_fails s xs ys e)
  then show ?case by (auto simp: race_inv_def)
next
  case (stores_audit s i t oa ss u se pl)
  then have "iam_inv L (snd (store_audit_event i t oa ss u se pl (ic_db (is_central s))))"
    by (intro store_audit_event_inv) (simp add: race_inv_def)
  with stores_audit show ?case by (intro set_db_race_inv) (auto simp: store_audit_event_def)
qed

lemma iam_moves_inv: "(iam_move L scan)\<^sup>*\<^sup>* s s' \<Longrightarrow> uuid_codec L \<Longrightarrow> race_inv L scan s \<Longrightarrow> race_inv L scan s'"
  by (induction rule: rtranclp_induct) (auto intro: iam_move_inv)

lemma system_start_inv: "iam_sync L scan st \<Longrightarrow> race_inv L scan (system_start st)"
  by (simp add: race_inv_def system_start_def past_listing_def iam_sync_def)

section \<open>A race\<close>

text \<open>Two creations whose first writer installs last.\<close>

lemma race_run:
  assumes "write_policy L f1 f2 p (ic_db st) = (Ok i, db1)" "write_policy L g1 g2 q db1 = (Ok j, db2)"
    and "list_policies L scan None db1 = Ok ps1" "list_policies L scan None db2 = Ok ps2"
  shows "\<exists>past. (iam_move L scan)\<^sup>*\<^sup>* (system_start st) (system_of db2 ps1 [] past)"
proof -
  let ?e = "ic_engine st"
  have "system_start st = system_of (ic_db st) ?e [] [ic_db st]" by (cases st) (simp add: system_start_def)
  then obtain past1 where "(iam_move L scan)\<^sup>*\<^sup>* (system_start st) (system_of db1 ?e [ToList] past1)"
    using write_policy_runs [OF assms(1), of scan ?e "[]" "[ic_db st]"] by auto
  also have "iam_move L scan (system_of db1 ?e [ToList] past1) (system_of db1 ?e [ToInstall ps1] past1)"
    using lists_next [OF assms(3), of ?e "[]" "[]"] by simp
  also obtain past2 where "(iam_move L scan)\<^sup>*\<^sup>* (system_of db1 ?e [ToInstall ps1] past1) (system_of db2 ?e [ToInstall ps1, ToList] past2)"
    using write_policy_runs [OF assms(2), of scan ?e "[ToInstall ps1]" past1] by auto
  also have "iam_move L scan (system_of db2 ?e [ToInstall ps1, ToList] past2) (system_of db2 ?e [ToInstall ps1, ToInstall ps2] past2)"
    using lists_next [OF assms(4), of ?e "[ToInstall ps1]" "[]"] by simp
  also have "iam_move L scan (system_of db2 ?e [ToInstall ps1, ToInstall ps2] past2) (system_of db2 ps2 [ToInstall ps1] past2)"
    using installs_next [of L scan db2 ?e "[ToInstall ps1]" ps2 "[]"] by simp
  also have "iam_move L scan (system_of db2 ps2 [ToInstall ps1] past2) (system_of db2 ps1 [] past2)"
    using installs_next [of L scan db2 ps2 "[]" ps1 "[]"] by simp
  finally show ?thesis by blast
qed

lemma write_policy_grows:
  assumes "iam_env L scan" "iam_inv L db" "write_policy L f1 f2 p db = (Ok i, db')"
  obtains ps r where "iam_inv L db'" "policy_rows db' = policy_rows db @ [r]" "list_policies L scan None db' = Ok ps"
    "length ps = length (policy_rows db) + 1"
proof -
  have uc: "uuid_codec L" and perm: "permutes_rows scan" using assms(1) by (simp_all add: iam_env_def)
  obtain r where rows: "policy_rows db' = policy_rows db @ [r]" "iam_inv L db'"
    by (rule create_policy_cases [OF assms(2) uc assms(3) [unfolded write_policy_def]]) auto
  obtain ps where ps: "list_policies L scan None db' = Ok ps" using list_policies_total [OF rows(2) perm] by auto
  have "size (mset ps) = length (policy_rows db')" using list_policies_mset [OF rows(2) perm ps] by simp
  with rows ps show thesis by (intro that) simp_all
qed

lemma demo_writes:
  "\<exists>db1 db2. write_policy demo_libs 12 11 (demo_deny_proto ''user'' ''bob'') (ic_db demo_bob) = (Ok ''11'', db1) \<and>
     write_policy demo_libs 12 13 (demo_deny_proto ''user'' ''bob'') db1 = (Ok ''13'', db2)"
proof -
  have "nat_str 13 = ''13''" by code_simp
  then show ?thesis
    by (simp add: write_policy_def demo_deny_proto_def create_policy_def get_or_create_subject_def demo_bob_db
        seeded_iam_db_def demo_uuid_text seed_policy_id_def seed_subject_id_def Let_def)
qed

text \<open>After the race of two creations for bob, with the first listing in the engine.\<close>

lemma demo_race:
  "\<exists>db2 ps1 past. (iam_move demo_libs id)\<^sup>*\<^sup>* (system_start demo_bob) (system_of db2 ps1 [] past) \<and>
     length ps1 < length (policy_rows db2)"
proof -
  obtain db1 db2 where w: "write_policy demo_libs 12 11 (demo_deny_proto ''user'' ''bob'') (ic_db demo_bob) = (Ok ''11'', db1)"
    "write_policy demo_libs 12 13 (demo_deny_proto ''user'' ''bob'') db1 = (Ok ''13'', db2)"
    using demo_writes by blast
  have "iam_inv demo_libs (ic_db demo_bob)" using demo_bob_sync by (simp add: iam_sync_def)
  from write_policy_grows [OF demo_iam_env this w(1)] obtain ps1 r1 where 1: "iam_inv demo_libs db1"
    "policy_rows db1 = policy_rows (ic_db demo_bob) @ [r1]" "list_policies demo_libs id None db1 = Ok ps1"
    "length ps1 = length (policy_rows (ic_db demo_bob)) + 1" by metis
  from write_policy_grows [OF demo_iam_env 1(1) w(2)] obtain ps2 r2 where 2:
    "policy_rows db2 = policy_rows db1 @ [r2]" "list_policies demo_libs id None db2 = Ok ps2" by metis
  from race_run [OF w 1(3) 2(2)] 1 2(1) show ?thesis by (metis length_append_singleton less_add_one Suc_eq_plus1)
qed

section \<open>Properties of concurrent policy writes\<close>

text \<open>
  C25. However the handlers interleave, statement by statement, the engine is never a mixture: it always holds exactly
  the policies that some database the service has been through lists, in its order; the tables keep every constraint of
  the schema, and a reload that starts now succeeds.
\<close>

theorem engine_is_past_snapshot:
  assumes "iam_env L scan" "iam_sync L scan st" "(iam_move L scan)\<^sup>*\<^sup>* (system_start st) s"
  shows "(\<exists>db \<in> set (is_past s). list_policies L scan None db = Ok (ic_engine (is_central s))) \<and>
    iam_inv L (ic_db (is_central s)) \<and> fst (reload_engine L scan (is_central s)) = Ok ()"
proof -
  have inv: "race_inv L scan s"
    using iam_moves_inv [OF assms(3) _ system_start_inv [OF assms(2)]] assms(1) by (simp add: iam_env_def)
  then have "iam_inv L (ic_db (is_central s))" by (simp add: race_inv_def)
  moreover from this have "fst (reload_engine L scan (is_central s)) = Ok ()" by (rule reload_engine_total [OF assms(1)]) simp
  ultimately show ?thesis using inv by (simp add: race_inv_def past_listing_def)
qed

theorem engine_is_past_snapshot_witness:
  "\<exists>s. (iam_move demo_libs id)\<^sup>*\<^sup>* (system_start demo_bob) s \<and>
     length (ic_engine (is_central s)) < length (policy_rows (ic_db (is_central s))) \<and>
     (\<exists>db \<in> set (is_past s). list_policies demo_libs id None db = Ok (ic_engine (is_central s))) \<and>
     fst (reload_engine demo_libs id (is_central s)) = Ok ()"
proof -
  obtain db2 ps1 past where run: "(iam_move demo_libs id)\<^sup>*\<^sup>* (system_start demo_bob) (system_of db2 ps1 [] past)"
    "length ps1 < length (policy_rows db2)" using demo_race by blast
  from engine_is_past_snapshot [OF demo_iam_env demo_bob_sync run(1)] run show ?thesis
    by (intro exI [of _ "system_of db2 ps1 [] past"]) simp
qed

text \<open>
  C26. It can be stale for good: whenever two creations in a row would succeed, there is a run in which
  both have been answered with success and no handler is under way, but the engine holds the listing
  from before the second creation. A Deny created there is stored and not enforced until the next
  policy write.
\<close>

theorem racing_writers_stale_engine:
  assumes "iam_env L scan" "iam_sync L scan st"
    and "write_policy L f1 f2 p (ic_db st) = (Ok i, db1)" "write_policy L g1 g2 q db1 = (Ok j, db2)"
  shows "\<exists>s. (iam_move L scan)\<^sup>*\<^sup>* (system_start st) s \<and> is_handlers s = [] \<and> ic_db (is_central s) = db2 \<and>
    list_policies L scan None db1 = Ok (ic_engine (is_central s)) \<and>
    list_policies L scan None db2 \<noteq> Ok (ic_engine (is_central s))"
proof -
  have inv: "iam_inv L (ic_db st)" using assms(2) by (simp add: iam_sync_def)
  obtain ps1 r1 where 1: "iam_inv L db1" "list_policies L scan None db1 = Ok ps1" "policy_rows db1 = policy_rows (ic_db st) @ [r1]"
    "length ps1 = length (policy_rows (ic_db st)) + 1"
    using write_policy_grows [OF assms(1) inv assms(3)] by blast
  obtain ps2 where 2: "list_policies L scan None db2 = Ok ps2" "length ps2 = length (policy_rows db1) + 1"
    using write_policy_grows [OF assms(1) 1(1) assms(4)] by blast
  have "ps1 \<noteq> ps2" using 1(3,4) 2(2) by auto
  obtain past where "(iam_move L scan)\<^sup>*\<^sup>* (system_start st) (system_of db2 ps1 [] past)"
    using race_run [OF assms(3,4) 1(2) 2(1)] by blast
  with \<open>ps1 \<noteq> ps2\<close> 1(2) 2(1) show ?thesis by (intro exI [of _ "system_of db2 ps1 [] past"]) simp
qed

theorem racing_writers_stale_engine_witness:
  "\<exists>s. (iam_move demo_libs id)\<^sup>*\<^sup>* (system_start demo_bob) s \<and> is_handlers s = [] \<and>
     list_policies demo_libs id None (ic_db (is_central s)) \<noteq> Ok (ic_engine (is_central s))"
proof -
  obtain db1 db2 where w: "write_policy demo_libs 12 11 (demo_deny_proto ''user'' ''bob'') (ic_db demo_bob) = (Ok ''11'', db1)"
    "write_policy demo_libs 12 13 (demo_deny_proto ''user'' ''bob'') db1 = (Ok ''13'', db2)"
    using demo_writes by blast
  show ?thesis using racing_writers_stale_engine [OF demo_iam_env demo_bob_sync w] by metis
qed

end
