(* ===== verification/Catalog_Store.thy ===== *)
theory Catalog_Store
  imports Sql_Table Common_Types
begin

text \<open>
  The catalog store of elan-central (\<open>db/catalog_store.rs\<close>) over the tables of the migrations
  0001 and 0002. A store operation takes the database and returns its result and the new database;
  one SQL statement that fails leaves the database unchanged. \<open>foreign_keys\<close> is the connection's
  foreign-key setting (sqlx turns it on by default). The clock is an argument. Failures of the
  disk or the connection pool are not modelled.
\<close>

section \<open>Tables\<close>

record coordinator_row =
  c_id :: string
  c_environment :: string
  c_hostname :: string
  c_executor_endpoint :: string
  c_registered_at :: string
  c_last_heartbeat_at :: string
  c_is_alive :: bool

record dataset_row =
  d_id :: string
  d_name :: string
  d_namespace :: string
  d_source_type :: string
  d_coordinator_id :: string
  d_executor_endpoint :: string
  d_arrow_schema_ipc :: "u8 list"
  d_metadata_json :: "string option"
  d_registered_at :: string
  d_last_seen_at :: string
  d_is_active :: bool

record catalog_db =
  coordinators :: "coordinator_row table"
  datasets :: "dataset_row table"
  foreign_keys :: bool

definition empty_catalog :: "bool \<Rightarrow> catalog_db" where
  "empty_catalog fk = \<lparr>coordinators = [], datasets = [], foreign_keys = fk\<rparr>"

section \<open>Operations\<close>

definition upsert_coordinator ::
  "string \<Rightarrow> string \<Rightarrow> string \<Rightarrow> string \<Rightarrow> string \<Rightarrow> catalog_db \<Rightarrow> unit store_result \<times> catalog_db" where
  "upsert_coordinator now i environment hostname endpoint db =
     (if sql_exists (\<lambda>c. c_id c = i) (coordinators db)
      then (Ok (), db\<lparr>coordinators := sql_update (\<lambda>c. c_id c = i)
              (\<lambda>c. c\<lparr>c_environment := environment, c_hostname := hostname, c_executor_endpoint := endpoint,
                      c_last_heartbeat_at := now, c_is_alive := True\<rparr>) (coordinators db)\<rparr>)
      else (Ok (), db\<lparr>coordinators := coordinators db @
              [\<lparr>c_id = i, c_environment = environment, c_hostname = hostname, c_executor_endpoint = endpoint,
                c_registered_at = now, c_last_heartbeat_at = now, c_is_alive = True\<rparr>]\<rparr>))"

definition store_heartbeat :: "string \<Rightarrow> string \<Rightarrow> catalog_db \<Rightarrow> unit store_result \<times> catalog_db" where
  "store_heartbeat now i db =
     (Ok (), db\<lparr>coordinators := sql_update (\<lambda>c. c_id c = i)
        (\<lambda>c. c\<lparr>c_last_heartbeat_at := now, c_is_alive := True\<rparr>) (coordinators db)\<rparr>)"

text \<open>
  INSERT ... ON CONFLICT(namespace, name) DO UPDATE: a row with the same namespace and name is
  updated and keeps its identifier and its registration time; otherwise a duplicate identifier is
  a UNIQUE violation. With foreign keys on, the coordinator must exist in either case.
\<close>

definition upsert_dataset ::
  "string \<Rightarrow> string \<Rightarrow> string \<Rightarrow> string \<Rightarrow> string \<Rightarrow> string \<Rightarrow> string \<Rightarrow> u8 list \<Rightarrow> string option \<Rightarrow>
   catalog_db \<Rightarrow> unit store_result \<times> catalog_db" where
  "upsert_dataset now coordinator_id dataset_id name ns source_type ignored arrow_schema_ipc metadata_json db =
     (let executor_endpoint =
            (case find (\<lambda>c. c_id c = coordinator_id) (coordinators db) of
               Some c \<Rightarrow> c_executor_endpoint c | None \<Rightarrow> []);
          target = (\<lambda>d. d_namespace d = ns \<and> d_name d = name)
      in if \<not> sql_exists target (datasets db) \<and> sql_exists (\<lambda>d. d_id d = dataset_id) (datasets db)
         then (Err (SqlError (UniqueViolation ''datasets.id'')), db)
         else if foreign_keys db \<and> \<not> sql_exists (\<lambda>c. c_id c = coordinator_id) (coordinators db)
         then (Err (SqlError ForeignKeyViolation), db)
         else if sql_exists target (datasets db)
         then (Ok (), db\<lparr>datasets := sql_update target
                 (\<lambda>d. d\<lparr>d_source_type := source_type, d_coordinator_id := coordinator_id,
                         d_executor_endpoint := executor_endpoint, d_arrow_schema_ipc := arrow_schema_ipc,
                         d_metadata_json := metadata_json, d_last_seen_at := now, d_is_active := True\<rparr>)
                 (datasets db)\<rparr>)
         else (Ok (), db\<lparr>datasets := datasets db @
                 [\<lparr>d_id = dataset_id, d_name = name, d_namespace = ns, d_source_type = source_type,
                   d_coordinator_id = coordinator_id, d_executor_endpoint = executor_endpoint,
                   d_arrow_schema_ipc = arrow_schema_ipc, d_metadata_json = metadata_json,
                   d_registered_at = now, d_last_seen_at = now, d_is_active = True\<rparr>]\<rparr>))"

definition row_to_dataset :: "libs \<Rightarrow> dataset_row \<Rightarrow> dataset_info store_result" where
  "row_to_dataset L r =
     and_then (ok_or (BadUuid (d_id r)) (uuid_parse L (d_id r))) (\<lambda>i.
     and_then (map_err BadSourceType (source_type_try_from (d_source_type r))) (\<lambda>st.
     and_then
       (case d_metadata_json r of
          None \<Rightarrow> Ok JNull
        | Some text \<Rightarrow> ok_or (BadJson text) (json_parse L text)) (\<lambda>metadata.
     Ok \<lparr>ds_id = i, ds_name = d_name r, ds_namespace = d_namespace r, ds_source_type = st,
         ds_coordinator_id = d_coordinator_id r, ds_executor_endpoint = d_executor_endpoint r,
         ds_schema_ipc = d_arrow_schema_ipc r, ds_metadata = metadata\<rparr>)))"

text \<open>FROM datasets JOIN coordinators, with the condition on the two flags.\<close>

definition live_rows :: "catalog_db \<Rightarrow> dataset_row list" where
  "live_rows db =
     map fst (filter (\<lambda>(d, c). d_is_active d \<and> c_is_alive c)
       (sql_join (\<lambda>d c. c_id c = d_coordinator_id d) (datasets db) (coordinators db)))"

definition get_dataset :: "libs \<Rightarrow> string \<Rightarrow> string \<Rightarrow> catalog_db \<Rightarrow> dataset_info option store_result" where
  "get_dataset L ns name db =
     (case find (\<lambda>d. d_namespace d = ns \<and> d_name d = name) (live_rows db) of
        None \<Rightarrow> Ok None
      | Some r \<Rightarrow> and_then (row_to_dataset L r) (\<lambda>d. Ok (Some d)))"

definition list_datasets :: "libs \<Rightarrow> string option \<Rightarrow> catalog_db \<Rightarrow> dataset_info list store_result" where
  "list_datasets L namespace_filter db =
     (let rows = (case namespace_filter of
                    Some ns \<Rightarrow> filter (\<lambda>d. d_namespace d = ns) (live_rows db)
                  | None \<Rightarrow> live_rows db)
      in traverse (row_to_dataset L) (sort_key (\<lambda>d. (d_namespace d, d_name d)) rows))"

definition deactivate_dataset :: "string \<Rightarrow> catalog_db \<Rightarrow> unit store_result \<times> catalog_db" where
  "deactivate_dataset dataset_id db =
     (Ok (), db\<lparr>datasets := sql_update (\<lambda>d. d_id d = dataset_id) (\<lambda>d. d\<lparr>d_is_active := False\<rparr>) (datasets db)\<rparr>)"

definition mark_coordinator_dead :: "string \<Rightarrow> catalog_db \<Rightarrow> unit store_result \<times> catalog_db" where
  "mark_coordinator_dead coordinator_id db =
     (Ok (), db\<lparr>coordinators := sql_update (\<lambda>c. c_id c = coordinator_id) (\<lambda>c. c\<lparr>c_is_alive := False\<rparr>) (coordinators db)\<rparr>)"

lemmas catalog_op_defs =
  upsert_coordinator_def store_heartbeat_def deactivate_dataset_def mark_coordinator_dead_def

section \<open>The schema's constraints as an invariant\<close>

definition dataset_key :: "dataset_row \<Rightarrow> string \<times> string" where
  "dataset_key d = (d_namespace d, d_name d)"

definition catalog_inv :: "catalog_db \<Rightarrow> bool" where
  "catalog_inv db \<longleftrightarrow>
     distinct (map c_id (coordinators db)) \<and>
     distinct (map d_id (datasets db)) \<and>
     distinct (map dataset_key (datasets db)) \<and>
     (foreign_keys db \<longrightarrow> d_coordinator_id ` set (datasets db) \<subseteq> c_id ` set (coordinators db))"

lemma catalog_invD:
  assumes "catalog_inv db"
  shows "distinct (map c_id (coordinators db))" "distinct (map d_id (datasets db))"
    "distinct (map dataset_key (datasets db))"
    "foreign_keys db \<Longrightarrow> d_coordinator_id ` set (datasets db) \<subseteq> c_id ` set (coordinators db)"
  using assms by (simp_all add: catalog_inv_def)

lemma empty_catalog_inv [simp]: "catalog_inv (empty_catalog fk)"
  by (simp add: catalog_inv_def empty_catalog_def)

lemma coordinator_update_inv:
  assumes "catalog_inv db" and "\<And>c. c_id (f c) = c_id c"
  shows "catalog_inv (db\<lparr>coordinators := sql_update P f (coordinators db)\<rparr>)"
proof -
  have m: "map c_id (sql_update P f (coordinators db)) = map c_id (coordinators db)"
    using assms(2) by (rule map_sql_update)
  then have "c_id ` set (sql_update P f (coordinators db)) = c_id ` set (coordinators db)"
    by (metis set_map)
  with m assms(1) show ?thesis by (simp add: catalog_inv_def)
qed

lemma dataset_update_inv:
  assumes "catalog_inv db" and "\<And>d. d_id (f d) = d_id d" "\<And>d. dataset_key (f d) = dataset_key d"
    and "\<And>d. d \<in> set (datasets db) \<Longrightarrow> P d \<Longrightarrow> foreign_keys db \<Longrightarrow> d_coordinator_id (f d) \<in> c_id ` set (coordinators db)"
  shows "catalog_inv (db\<lparr>datasets := sql_update P f (datasets db)\<rparr>)"
proof -
  have "map d_id (sql_update P f (datasets db)) = map d_id (datasets db)"
    "map dataset_key (sql_update P f (datasets db)) = map dataset_key (datasets db)"
    using assms(2,3) by (auto intro: map_sql_update)
  moreover have "foreign_keys db \<Longrightarrow>
      d_coordinator_id ` set (sql_update P f (datasets db)) \<subseteq> c_id ` set (coordinators db)"
    using assms(4) catalog_invD(4) [OF assms(1)] by (auto simp: in_sql_update image_subset_iff)
  ultimately show ?thesis using assms(1) by (simp add: catalog_inv_def)
qed

lemma upsert_coordinator_inv: "catalog_inv db \<Longrightarrow> catalog_inv (snd (upsert_coordinator now i e h ep db))"
proof (cases "sql_exists (\<lambda>c. c_id c = i) (coordinators db)")
  case False
  then show "catalog_inv db \<Longrightarrow> ?thesis" by (auto simp: upsert_coordinator_def catalog_inv_def)
qed (auto simp: upsert_coordinator_def intro: coordinator_update_inv)

text \<open>The outcomes of an upsert, and the rows it writes.\<close>

definition endpoint_of :: "string \<Rightarrow> catalog_db \<Rightarrow> string" where
  "endpoint_of i db =
     (case find (\<lambda>c. c_id c = i) (coordinators db) of Some c \<Rightarrow> c_executor_endpoint c | None \<Rightarrow> [])"

definition has_coordinator :: "string \<Rightarrow> catalog_db \<Rightarrow> bool" where
  "has_coordinator i db \<longleftrightarrow> i \<in> c_id ` set (coordinators db)"

definition has_dataset :: "string \<times> string \<Rightarrow> catalog_db \<Rightarrow> bool" where
  "has_dataset k db \<longleftrightarrow> k \<in> dataset_key ` set (datasets db)"

definition has_dataset_id :: "string \<Rightarrow> catalog_db \<Rightarrow> bool" where
  "has_dataset_id i db \<longleftrightarrow> i \<in> d_id ` set (datasets db)"

definition new_row where
  "new_row now ci di n ns st ipc md db =
     \<lparr>d_id = di, d_name = n, d_namespace = ns, d_source_type = st, d_coordinator_id = ci,
      d_executor_endpoint = endpoint_of ci db, d_arrow_schema_ipc = ipc, d_metadata_json = md,
      d_registered_at = now, d_last_seen_at = now, d_is_active = True\<rparr>"

definition renewed_row where
  "renewed_row now ci st ipc md db d =
     d\<lparr>d_source_type := st, d_coordinator_id := ci, d_executor_endpoint := endpoint_of ci db,
       d_arrow_schema_ipc := ipc, d_metadata_json := md, d_last_seen_at := now, d_is_active := True\<rparr>"

lemma upsert_dataset_outcome:
  "upsert_dataset now ci di n ns st ig ipc md db =
     (if \<not> has_dataset (ns, n) db \<and> has_dataset_id di db
      then (Err (SqlError (UniqueViolation ''datasets.id'')), db)
      else if foreign_keys db \<and> \<not> has_coordinator ci db then (Err (SqlError ForeignKeyViolation), db)
      else if has_dataset (ns, n) db
      then (Ok (), db\<lparr>datasets := sql_update (\<lambda>d. dataset_key d = (ns, n)) (renewed_row now ci st ipc md db) (datasets db)\<rparr>)
      else (Ok (), db\<lparr>datasets := datasets db @ [new_row now ci di n ns st ipc md db]\<rparr>))"
proof -
  have "has_dataset (ns, n) db \<longleftrightarrow> sql_exists (\<lambda>d. d_namespace d = ns \<and> d_name d = n) (datasets db)"
    "has_dataset_id di db \<longleftrightarrow> sql_exists (\<lambda>d. d_id d = di) (datasets db)"
    "has_coordinator ci db \<longleftrightarrow> sql_exists (\<lambda>c. c_id c = ci) (coordinators db)"
    by (auto simp: has_dataset_def has_dataset_id_def has_coordinator_def dataset_key_def image_iff)
  moreover have "(\<lambda>d. dataset_key d = (ns, n)) = (\<lambda>d. d_namespace d = ns \<and> d_name d = n)"
    by (simp add: dataset_key_def)
  ultimately show ?thesis
    by (simp only: upsert_dataset_def Let_def new_row_def endpoint_of_def renewed_row_def [abs_def])
qed

lemma renewed_row_sel [simp]:
  "d_id (renewed_row now ci st ipc md db d) = d_id d"
  "dataset_key (renewed_row now ci st ipc md db d) = dataset_key d"
  "d_coordinator_id (renewed_row now ci st ipc md db d) = ci"
  "d_is_active (renewed_row now ci st ipc md db d)"
  "d_executor_endpoint (renewed_row now ci st ipc md db d) = endpoint_of ci db"
  by (simp_all add: renewed_row_def dataset_key_def)

lemma new_row_sel [simp]:
  "d_id (new_row now ci di n ns st ipc md db) = di"
  "dataset_key (new_row now ci di n ns st ipc md db) = (ns, n)"
  "d_coordinator_id (new_row now ci di n ns st ipc md db) = ci"
  "d_is_active (new_row now ci di n ns st ipc md db)"
  "d_executor_endpoint (new_row now ci di n ns st ipc md db) = endpoint_of ci db"
  by (simp_all add: new_row_def dataset_key_def)

lemma upsert_dataset_inv:
  assumes "catalog_inv db"
  shows "catalog_inv (snd (upsert_dataset now ci di n ns st ig ipc md db))"
proof -
  have "catalog_inv (db\<lparr>datasets := sql_update (\<lambda>d. dataset_key d = (ns, n)) (renewed_row now ci st ipc md db) (datasets db)\<rparr>)"
    if "foreign_keys db \<Longrightarrow> has_coordinator ci db"
    using assms that by (intro dataset_update_inv) (auto simp: has_coordinator_def)
  moreover have "catalog_inv (db\<lparr>datasets := datasets db @ [new_row now ci di n ns st ipc md db]\<rparr>)"
    if "foreign_keys db \<Longrightarrow> has_coordinator ci db" "\<not> has_dataset_id di db" "\<not> has_dataset (ns, n) db"
    using assms that by (auto simp: catalog_inv_def has_coordinator_def has_dataset_def has_dataset_id_def)
  ultimately show ?thesis using assms by (auto simp: upsert_dataset_outcome)
qed

section \<open>The operations as a step function\<close>

datatype catalog_op =
    UpsertCoordinator string string string string string
  | StoreHeartbeat string string
  | UpsertDataset string string string string string string "u8 list" "string option"
  | DeactivateDataset string
  | MarkCoordinatorDead string

fun catalog_exec :: "catalog_op \<Rightarrow> catalog_db \<Rightarrow> unit store_result \<times> catalog_db" where
  "catalog_exec (UpsertCoordinator now i e h ep) db = upsert_coordinator now i e h ep db"
| "catalog_exec (StoreHeartbeat now i) db = store_heartbeat now i db"
| "catalog_exec (UpsertDataset now ci di n ns st ipc md) db = upsert_dataset now ci di n ns st ci ipc md db"
| "catalog_exec (DeactivateDataset di) db = deactivate_dataset di db"
| "catalog_exec (MarkCoordinatorDead ci) db = mark_coordinator_dead ci db"

definition catalog_step :: "catalog_db \<Rightarrow> catalog_op \<Rightarrow> catalog_db" where
  "catalog_step db x = snd (catalog_exec x db)"

lemma catalog_step_inv [step_invs]: "catalog_inv db \<Longrightarrow> catalog_inv (catalog_step db x)"
  by (cases x)
    (auto simp: catalog_step_def upsert_coordinator_inv upsert_dataset_inv store_heartbeat_def
      deactivate_dataset_def mark_coordinator_dead_def dataset_key_def catalog_invD(4) image_subset_iff
      dest: catalog_invD(4) intro!: coordinator_update_inv dataset_update_inv)

end
