(* ===== verification/Catalog_Spec.thy ===== *)
theory Catalog_Spec
  imports Catalog_Store
begin

text \<open>
  The abstract catalog: two finite maps, coordinators by identifier and datasets by namespace and
  name. \<open>catalog_abs\<close> reads the tables as these maps, \<open>spec_exec\<close> is what each store operation
  means on them, and the theorems say that the SQL statements implement it.
\<close>

record catalog_spec =
  sp_coordinators :: "string \<rightharpoonup> coordinator_row"
  sp_datasets :: "string \<times> string \<rightharpoonup> dataset_row"
  sp_foreign_keys :: bool

definition catalog_abs :: "catalog_db \<Rightarrow> catalog_spec" where
  "catalog_abs db =
     \<lparr>sp_coordinators = key_map c_id (coordinators db), sp_datasets = key_map dataset_key (datasets db),
      sp_foreign_keys = foreign_keys db\<rparr>"

definition spec_upsert_dataset ::
  "string \<Rightarrow> string \<Rightarrow> string \<Rightarrow> string \<Rightarrow> string \<Rightarrow> string \<Rightarrow> u8 list \<Rightarrow> string option \<Rightarrow>
   catalog_spec \<Rightarrow> unit store_result \<times> catalog_spec" where
  "spec_upsert_dataset now ci di n ns st ipc md m =
     (let endpoint = (case sp_coordinators m ci of None \<Rightarrow> [] | Some c \<Rightarrow> c_executor_endpoint c);
          old = sp_datasets m (ns, n);
          fresh = \<lparr>d_id = di, d_name = n, d_namespace = ns, d_source_type = st, d_coordinator_id = ci,
                   d_executor_endpoint = endpoint, d_arrow_schema_ipc = ipc, d_metadata_json = md,
                   d_registered_at = now, d_last_seen_at = now, d_is_active = True\<rparr>
      in if old = None \<and> di \<in> d_id ` ran (sp_datasets m)
         then (Err (SqlError (UniqueViolation ''datasets.id'')), m)
         else if sp_foreign_keys m \<and> sp_coordinators m ci = None then (Err (SqlError ForeignKeyViolation), m)
         else (Ok (), m\<lparr>sp_datasets := (sp_datasets m)((ns, n) \<mapsto>
                 (case old of
                    None \<Rightarrow> fresh
                  | Some d \<Rightarrow> fresh\<lparr>d_id := d_id d, d_registered_at := d_registered_at d\<rparr>))\<rparr>))"

fun spec_exec :: "catalog_op \<Rightarrow> catalog_spec \<Rightarrow> unit store_result \<times> catalog_spec" where
  "spec_exec (UpsertCoordinator now i e h ep) m =
     (Ok (), m\<lparr>sp_coordinators := (sp_coordinators m)(i \<mapsto>
        \<lparr>c_id = i, c_environment = e, c_hostname = h, c_executor_endpoint = ep,
         c_registered_at = (case sp_coordinators m i of None \<Rightarrow> now | Some c \<Rightarrow> c_registered_at c),
         c_last_heartbeat_at = now, c_is_alive = True\<rparr>)\<rparr>)"
| "spec_exec (StoreHeartbeat now i) m =
     (Ok (), m\<lparr>sp_coordinators := (sp_coordinators m)(i :=
        map_option (\<lambda>c. c\<lparr>c_last_heartbeat_at := now, c_is_alive := True\<rparr>) (sp_coordinators m i))\<rparr>)"
| "spec_exec (UpsertDataset now ci di n ns st ipc md) m = spec_upsert_dataset now ci di n ns st ipc md m"
| "spec_exec (DeactivateDataset di) m =
     (Ok (), m\<lparr>sp_datasets := (\<lambda>k. map_option (\<lambda>d. if d_id d = di then d\<lparr>d_is_active := False\<rparr> else d)
        (sp_datasets m k))\<rparr>)"
| "spec_exec (MarkCoordinatorDead i) m =
     (Ok (), m\<lparr>sp_coordinators := (sp_coordinators m)(i :=
        map_option (\<lambda>c. c\<lparr>c_is_alive := False\<rparr>) (sp_coordinators m i))\<rparr>)"

definition spec_step :: "catalog_spec \<Rightarrow> catalog_op \<Rightarrow> catalog_spec" where
  "spec_step m x = snd (spec_exec x m)"

section \<open>The tables implement the maps\<close>

lemma catalog_abs_sel [simp]:
  "sp_coordinators (catalog_abs db) = key_map c_id (coordinators db)"
  "sp_datasets (catalog_abs db) = key_map dataset_key (datasets db)"
  "sp_foreign_keys (catalog_abs db) = foreign_keys db"
  by (simp_all add: catalog_abs_def)

lemma dataset_key_row [simp]:
  "dataset_key \<lparr>d_id = i, d_name = n, d_namespace = ns, d_source_type = st, d_coordinator_id = ci,
     d_executor_endpoint = ep, d_arrow_schema_ipc = ipc, d_metadata_json = md, d_registered_at = r,
     d_last_seen_at = l, d_is_active = a\<rparr> = (ns, n)"
  by (simp add: dataset_key_def)

lemma catalog_spec_eqI:
  "sp_coordinators m = sp_coordinators m' \<Longrightarrow> sp_datasets m = sp_datasets m' \<Longrightarrow>
   sp_foreign_keys m = sp_foreign_keys m' \<Longrightarrow> m = (m' :: catalog_spec)"
  by simp

lemma has_coordinator_abs: "has_coordinator i db \<longleftrightarrow> sp_coordinators (catalog_abs db) i \<noteq> None"
  by (simp add: has_coordinator_def key_map_None)

lemma has_dataset_abs: "has_dataset k db \<longleftrightarrow> sp_datasets (catalog_abs db) k \<noteq> None"
  by (simp add: has_dataset_def key_map_None)

lemma ran_key_map: "distinct (map k t) \<Longrightarrow> ran (key_map k t) = set t"
  by (auto simp: ran_def key_map_Some)

lemma has_dataset_id_abs: "catalog_inv db \<Longrightarrow> has_dataset_id i db \<longleftrightarrow> i \<in> d_id ` ran (sp_datasets (catalog_abs db))"
  by (simp add: has_dataset_id_def ran_key_map catalog_invD(3))

lemma endpoint_of_abs:
  "endpoint_of i db = (case sp_coordinators (catalog_abs db) i of None \<Rightarrow> [] | Some c \<Rightarrow> c_executor_endpoint c)"
  by (simp add: endpoint_of_def find_key_map split: option.split)

lemma key_map_update_at:
  assumes "\<And>r. k (f r) = k r"
  shows "key_map k (sql_update (\<lambda>r. k r = v) f t) = (key_map k t)(v := map_option f (key_map k t v))"
proof
  fix w
  show "key_map k (sql_update (\<lambda>r. k r = v) f t) w = ((key_map k t)(v := map_option f (key_map k t v))) w"
    unfolding key_map_update [of k f, OF assms]
    by (cases "key_map k t w") (auto dest: key_map_SomeD)
qed

lemma exec_upsert_coordinator:
  "fst (upsert_coordinator now i e h ep db) = Ok ()"
  "catalog_abs (snd (upsert_coordinator now i e h ep db)) =
     snd (spec_exec (UpsertCoordinator now i e h ep) (catalog_abs db))"
proof -
  have ex: "sql_exists (\<lambda>c. c_id c = i) (coordinators db) \<longleftrightarrow> (\<exists>c. key_map c_id (coordinators db) i = Some c)"
    unfolding in_key_image [symmetric] by auto
  show "fst (upsert_coordinator now i e h ep db) = Ok ()" by (simp add: upsert_coordinator_def)
  show "catalog_abs (snd (upsert_coordinator now i e h ep db)) =
     snd (spec_exec (UpsertCoordinator now i e h ep) (catalog_abs db))"
  proof (cases "key_map c_id (coordinators db) i")
    case None
    then have "i \<notin> c_id ` set (coordinators db)" by (simp add: key_map_None)
    with None show ?thesis
      unfolding upsert_coordinator_def ex by (intro catalog_spec_eqI) (auto simp: key_map_append)
  next
    case (Some c)
    then have "c_id c = i" by (auto dest: key_map_SomeD)
    with Some show ?thesis
      unfolding upsert_coordinator_def ex
      by (intro catalog_spec_eqI) (auto simp: key_map_update_at)
  qed
qed

lemma exec_upsert_dataset:
  assumes "catalog_inv db"
  shows "fst (upsert_dataset now ci di n ns st ig ipc md db) = fst (spec_upsert_dataset now ci di n ns st ipc md (catalog_abs db))"
    and "catalog_abs (snd (upsert_dataset now ci di n ns st ig ipc md db)) =
         snd (spec_upsert_dataset now ci di n ns st ipc md (catalog_abs db))"
proof -
  have *: "\<not> has_dataset (ns, n) db \<Longrightarrow> (ns, n) \<notin> dataset_key ` set (datasets db)" by (simp add: has_dataset_def)
  show "fst (upsert_dataset now ci di n ns st ig ipc md db) = fst (spec_upsert_dataset now ci di n ns st ipc md (catalog_abs db))"
    by (simp add: upsert_dataset_outcome spec_upsert_dataset_def Let_def has_dataset_id_abs [OF assms]
        has_dataset_abs has_coordinator_abs)
  show "catalog_abs (snd (upsert_dataset now ci di n ns st ig ipc md db)) =
         snd (spec_upsert_dataset now ci di n ns st ipc md (catalog_abs db))"
  proof (cases "sp_datasets (catalog_abs db) (ns, n)")
    case None
    then have "(ns, n) \<notin> dataset_key ` set (datasets db)" by (simp add: key_map_None)
    with None show ?thesis
      unfolding upsert_dataset_outcome spec_upsert_dataset_def Let_def has_dataset_id_abs [OF assms]
        has_dataset_abs has_coordinator_abs
      by (auto intro!: catalog_spec_eqI simp: key_map_append new_row_def endpoint_of_abs)
  next
    case (Some d)
    then have "d_namespace d = ns" "d_name d = n"
      using key_map_SomeD [of dataset_key "datasets db" "(ns, n)" d] by (auto simp: dataset_key_def)
    moreover have "key_map dataset_key (sql_update (\<lambda>d. dataset_key d = (ns, n)) (renewed_row now ci st ipc md db) (datasets db)) =
        (key_map dataset_key (datasets db))((ns, n) \<mapsto> renewed_row now ci st ipc md db d)"
      using Some by (simp add: key_map_update_at)
    ultimately show ?thesis
      using Some
      unfolding upsert_dataset_outcome spec_upsert_dataset_def Let_def has_dataset_id_abs [OF assms]
        has_dataset_abs has_coordinator_abs
      by (auto intro!: catalog_spec_eqI simp: renewed_row_def endpoint_of_abs)
  qed
qed

lemma abs_coordinator_update:
  assumes "\<And>c. c_id (f c) = c_id c"
  shows "catalog_abs (db\<lparr>coordinators := sql_update (\<lambda>c. c_id c = i) f (coordinators db)\<rparr>) =
    (catalog_abs db)\<lparr>sp_coordinators := (sp_coordinators (catalog_abs db))
       (i := map_option f (sp_coordinators (catalog_abs db) i))\<rparr>"
  using assms by (simp add: catalog_abs_def key_map_update_at)

lemma abs_dataset_update:
  assumes "\<And>d. dataset_key (f d) = dataset_key d"
  shows "catalog_abs (db\<lparr>datasets := sql_update P f (datasets db)\<rparr>) =
    (catalog_abs db)\<lparr>sp_datasets := (\<lambda>k. map_option (\<lambda>d. if P d then f d else d) (sp_datasets (catalog_abs db) k))\<rparr>"
  using key_map_update [of dataset_key f, OF assms] by (simp add: catalog_abs_def fun_eq_iff)

lemma exec_refines:
  assumes "catalog_inv db"
  shows "fst (catalog_exec x db) = fst (spec_exec x (catalog_abs db))"
    and "catalog_abs (snd (catalog_exec x db)) = snd (spec_exec x (catalog_abs db))"
proof -
  show "fst (catalog_exec x db) = fst (spec_exec x (catalog_abs db))"
    using assms by (cases x) (simp_all add: exec_upsert_dataset exec_upsert_coordinator catalog_op_defs)
  show "catalog_abs (snd (catalog_exec x db)) = snd (spec_exec x (catalog_abs db))"
    using assms
    by (cases x)
      (simp_all add: exec_upsert_dataset exec_upsert_coordinator store_heartbeat_def deactivate_dataset_def
        mark_coordinator_dead_def abs_coordinator_update abs_dataset_update dataset_key_def)
qed

interpretation catalog: simulation catalog_step catalog_inv catalog_abs spec_step
proof
  show "catalog_inv (catalog_step db x)" if "catalog_inv db" for db x using that by (rule catalog_step_inv)
  show "catalog_abs (catalog_step db x) = spec_step (catalog_abs db) x" if "catalog_inv db" for db x
    using that by (simp add: catalog_step_def spec_step_def exec_refines)
qed

section \<open>Reads\<close>

definition live_row :: "catalog_db \<Rightarrow> dataset_row \<Rightarrow> bool" where
  "live_row db d \<longleftrightarrow>
     d_is_active d \<and> (\<exists>c \<in> set (coordinators db). c_id c = d_coordinator_id d \<and> c_is_alive c)"

definition spec_live :: "catalog_spec \<Rightarrow> dataset_row \<Rightarrow> bool" where
  "spec_live m d \<longleftrightarrow>
     d_is_active d \<and> (case sp_coordinators m (d_coordinator_id d) of None \<Rightarrow> False | Some c \<Rightarrow> c_is_alive c)"

definition spec_get :: "libs \<Rightarrow> catalog_spec \<Rightarrow> string \<times> string \<Rightarrow> dataset_info option store_result" where
  "spec_get L m k =
     (case sp_datasets m k of
        None \<Rightarrow> Ok None
      | Some d \<Rightarrow> if spec_live m d then and_then (row_to_dataset L d) (\<lambda>x. Ok (Some x)) else Ok None)"

lemma live_rows_filter:
  assumes "catalog_inv db"
  shows "live_rows db = filter (live_row db) (datasets db)"
proof -
  have "(\<lambda>(d, c). d_is_active d \<and> c_is_alive c) = case_prod (\<lambda>d c. d_is_active d \<and> c_is_alive c)" by simp
  then have "live_rows db =
      filter (\<lambda>d. \<exists>c \<in> set (coordinators db). c_id c = d_coordinator_id d \<and> (d_is_active d \<and> c_is_alive c)) (datasets db)"
    unfolding live_rows_def by (simp only: sql_join_unique [OF catalog_invD(1) [OF assms]])
  also have "\<dots> = filter (live_row db) (datasets db)"
    by (rule filter_cong) (auto simp: live_row_def)
  finally show ?thesis .
qed

lemma live_row_spec:
  assumes "catalog_inv db"
  shows "live_row db d \<longleftrightarrow> spec_live (catalog_abs db) d"
proof (cases "key_map c_id (coordinators db) (d_coordinator_id d)")
  case None
  then have "\<forall>c \<in> set (coordinators db). c_id c \<noteq> d_coordinator_id d" by (auto simp: key_map_None image_iff)
  with None show ?thesis by (simp add: live_row_def spec_live_def)
next
  case (Some c)
  then have "c' \<in> set (coordinators db) \<and> c_id c' = d_coordinator_id d \<longleftrightarrow> c' = c" for c'
    using key_map_Some [OF catalog_invD(1) [OF assms]] by (metis option.inject)
  then have "(\<exists>c' \<in> set (coordinators db). c_id c' = d_coordinator_id d \<and> c_is_alive c') \<longleftrightarrow> c_is_alive c" by metis
  with Some show ?thesis by (simp add: live_row_def spec_live_def)
qed

lemma find_live_key:
  assumes "distinct (map k t)"
  shows "find (\<lambda>r. k r = v) (filter Q t) =
    (case key_map k t v of None \<Rightarrow> None | Some r \<Rightarrow> if Q r then Some r else None)"
  using assms
proof (induction t)
  case (Cons x t)
  show ?case
  proof (cases "k x = v")
    case True
    then have "\<forall>r \<in> set t. k r \<noteq> v" using Cons.prems by (auto simp: image_iff)
    then have "find (\<lambda>r. k r = v) (filter Q t) = None" by (auto simp: find_None_iff)
    with True show ?thesis by (simp add: key_map_def)
  next
    case False
    with Cons show ?thesis by (simp add: key_map_def)
  qed
qed simp

lemma get_dataset_spec:
  assumes "catalog_inv db"
  shows "get_dataset L ns n db = spec_get L (catalog_abs db) (ns, n)"
proof -
  have "find (\<lambda>d. d_namespace d = ns \<and> d_name d = n) (live_rows db) =
      find (\<lambda>d. dataset_key d = (ns, n)) (filter (live_row db) (datasets db))"
    unfolding live_rows_filter [OF assms] by (simp add: dataset_key_def)
  then show ?thesis
    unfolding get_dataset_def spec_get_def find_live_key [OF catalog_invD(3) [OF assms]]
    by (auto simp: live_row_spec [OF assms] split: option.split)
qed

lemma row_to_dataset_sel:
  assumes "row_to_dataset L r = Ok d"
  shows "ds_namespace d = d_namespace r" "ds_name d = d_name r" "ds_coordinator_id d = d_coordinator_id r"
    "ds_executor_endpoint d = d_executor_endpoint r" "uuid_parse L (d_id r) = Some (ds_id d)"
    "d_source_type r = source_type_text (ds_source_type d)" "ds_schema_ipc d = d_arrow_schema_ipc r"
  using assms by (auto simp: row_to_dataset_def and_then_Ok source_type_try_from_Ok)

lemma spec_get_Some:
  "spec_get L m k = Ok (Some d) \<longleftrightarrow> (\<exists>r. sp_datasets m k = Some r \<and> spec_live m r \<and> row_to_dataset L r = Ok d)"
  by (auto simp: spec_get_def and_then_Ok split: option.splits)

lemma get_dataset_Some:
  assumes "catalog_inv db"
  shows "get_dataset L ns n db = Ok (Some d) \<longleftrightarrow>
    (\<exists>r \<in> set (live_rows db). dataset_key r = (ns, n) \<and> row_to_dataset L r = Ok d)"
  by (auto simp: get_dataset_spec [OF assms] spec_get_Some live_rows_filter [OF assms] live_row_spec [OF assms]
      key_map_Some [OF catalog_invD(3) [OF assms]])

definition in_namespace :: "string option \<Rightarrow> dataset_row \<Rightarrow> bool" where
  "in_namespace F d \<longleftrightarrow> (case F of None \<Rightarrow> True | Some ns \<Rightarrow> d_namespace d = ns)"

lemma list_datasets_sorted:
  "list_datasets L F db = traverse (row_to_dataset L) (sort_key dataset_key (filter (in_namespace F) (live_rows db)))"
  by (cases F) (simp_all add: list_datasets_def in_namespace_def [abs_def] dataset_key_def [abs_def])

lemma distinct_sorted_wrt: "sorted xs \<Longrightarrow> distinct xs \<Longrightarrow> sorted_wrt (<) (xs :: 'a :: linorder list)"
  using strict_sorted_iff by blast

lemma list_datasets_keys_eq:
  assumes "list_datasets L F db = Ok ds"
  shows "map (\<lambda>d. (ds_namespace d, ds_name d)) ds = map dataset_key (sort_key dataset_key (filter (in_namespace F) (live_rows db)))"
proof -
  have "list_all2 (\<lambda>r d. row_to_dataset L r = Ok d) (sort_key dataset_key (filter (in_namespace F) (live_rows db))) ds"
    using assms by (simp add: list_datasets_sorted traverse_Ok_iff)
  then show ?thesis by (induction rule: list_all2_induct) (auto simp: row_to_dataset_sel dataset_key_def)
qed

lemma list_datasets_keys:
  assumes "catalog_inv db" and "list_datasets L F db = Ok ds"
  shows "distinct (map (\<lambda>d. (ds_namespace d, ds_name d)) ds)"
proof -
  have "distinct (map dataset_key (filter (in_namespace F) (live_rows db)))"
    using catalog_invD(3) [OF assms(1)] by (simp add: live_rows_filter [OF assms(1)] distinct_map_filter)
  then show ?thesis unfolding list_datasets_keys_eq [OF assms(2)] by (metis distinct_map distinct_sort set_sort)
qed

lemma list_datasets_members:
  assumes "catalog_inv db" and "list_datasets L F db = Ok ds"
  shows "d \<in> set ds \<longleftrightarrow> (F = None \<or> F = Some (ds_namespace d)) \<and>
    get_dataset L (ds_namespace d) (ds_name d) db = Ok (Some d)"
proof -
  have tr: "traverse (row_to_dataset L) (sort_key dataset_key (filter (in_namespace F) (live_rows db))) = Ok ds"
    using assms(2) by (simp add: list_datasets_sorted)
  have "row_to_dataset L r = Ok d \<Longrightarrow> in_namespace F r \<longleftrightarrow> (F = None \<or> F = Some (ds_namespace d))" for r
    by (cases F) (auto simp: row_to_dataset_sel in_namespace_def)
  moreover have "row_to_dataset L r = Ok d \<Longrightarrow> dataset_key r = (ds_namespace d, ds_name d)" for r
    by (simp add: row_to_dataset_sel dataset_key_def)
  ultimately show ?thesis
    unfolding get_dataset_Some [OF assms(1)] traverse_in_set [OF tr] set_sort set_filter by blast
qed

section \<open>Properties of the catalog\<close>

text \<open>
  Whatever sequence of operations the store runs from the empty database, identifiers and
  dataset names stay unique and, with foreign keys on, every dataset's coordinator exists.
\<close>

theorem catalog_run_inv: "catalog_inv (run catalog_step (empty_catalog fk) ops)"
  by (rule catalog.run_keeps) simp

text \<open>
  C11. The SQL statements implement the two maps: after any sequence of operations the tables read
  as the maps the specification computes, the next operation succeeds or fails as the
  specification says, and \<open>get_dataset\<close> is the lookup of an active dataset with a live coordinator.
\<close>

theorem catalog_refines:
  "let db = run catalog_step (empty_catalog fk) ops;
       m = run spec_step \<lparr>sp_coordinators = Map.empty, sp_datasets = Map.empty, sp_foreign_keys = fk\<rparr> ops
   in catalog_abs db = m \<and> fst (catalog_exec x db) = fst (spec_exec x m) \<and>
      get_dataset L ns n db = spec_get L m (ns, n)"
proof -
  have inv: "catalog_inv (run catalog_step (empty_catalog fk) ops)" by (rule catalog.run_keeps) simp
  have "catalog_abs (run catalog_step (empty_catalog fk) ops) = run spec_step (catalog_abs (empty_catalog fk)) ops"
    by (rule catalog.run_refines) simp
  then show ?thesis
    using inv by (simp add: Let_def exec_refines get_dataset_spec) (simp add: catalog_abs_def empty_catalog_def)
qed

text \<open>
  C32. A listing that succeeds is strictly sorted by namespace and name, and it contains exactly the
  datasets that \<open>get_dataset\<close> returns, restricted to the requested namespace.
\<close>

theorem list_datasets_complete:
  assumes "catalog_inv db" and "list_datasets L F db = Ok ds"
  shows "sorted_wrt (<) (map (\<lambda>d. (ds_namespace d, ds_name d)) ds) \<and>
    (d \<in> set ds \<longleftrightarrow> (F = None \<or> F = Some (ds_namespace d)) \<and>
       get_dataset L (ds_namespace d) (ds_name d) db = Ok (Some d))"
proof -
  have "sorted (map (\<lambda>d. (ds_namespace d, ds_name d)) ds)"
    unfolding list_datasets_keys_eq [OF assms(2)] by simp
  then show ?thesis
    using list_datasets_keys [OF assms] list_datasets_members [OF assms] by (simp add: distinct_sorted_wrt)
qed

definition demo_catalog_ops :: "catalog_op list" where
  "demo_catalog_ops =
     [UpsertCoordinator ''t0'' ''c1'' ''eu'' ''host-1'' ''lb:50055'',
      UpsertDataset ''t1'' ''c1'' ''7'' ''customers'' ''crm'' ''csv'' [] None,
      UpsertDataset ''t2'' ''c1'' ''8'' ''orders'' ''crm'' ''parquet'' [] None,
      UpsertDataset ''t3'' ''c1'' ''9'' ''ledger'' ''acct'' ''delta'' [] None]"

definition demo_catalog :: catalog_db where
  "demo_catalog = run catalog_step (empty_catalog True) demo_catalog_ops"

lemma demo_catalog_inv [simp]: "catalog_inv demo_catalog"
  unfolding demo_catalog_def by (rule catalog.run_keeps) simp

definition demo_dataset :: "uuid \<Rightarrow> string \<Rightarrow> string \<Rightarrow> source_type \<Rightarrow> dataset_info" where
  "demo_dataset i ns n st =
     \<lparr>ds_id = i, ds_name = n, ds_namespace = ns, ds_source_type = st, ds_coordinator_id = ''c1'',
      ds_executor_endpoint = ''lb:50055'', ds_schema_ipc = [], ds_metadata = JNull\<rparr>"

lemmas catalog_eval =
  demo_catalog_def demo_catalog_ops_def catalog_step_def empty_catalog_def upsert_coordinator_def store_heartbeat_def
  upsert_dataset_def deactivate_dataset_def mark_coordinator_dead_def sql_update_def

lemma demo_catalog_rows:
  "datasets demo_catalog =
     [new_row ''t1'' ''c1'' ''7'' ''customers'' ''crm'' ''csv'' [] None demo_catalog,
      new_row ''t2'' ''c1'' ''8'' ''orders'' ''crm'' ''parquet'' [] None demo_catalog,
      new_row ''t3'' ''c1'' ''9'' ''ledger'' ''acct'' ''delta'' [] None demo_catalog]"
  "coordinators demo_catalog =
     [\<lparr>c_id = ''c1'', c_environment = ''eu'', c_hostname = ''host-1'', c_executor_endpoint = ''lb:50055'',
       c_registered_at = ''t0'', c_last_heartbeat_at = ''t0'', c_is_alive = True\<rparr>]"
  "foreign_keys demo_catalog"
  by (simp_all add: catalog_eval new_row_def endpoint_of_def)

lemma demo_list:
  "list_datasets demo_libs None demo_catalog =
     Ok [demo_dataset 9 ''acct'' ''ledger'' Delta, demo_dataset 7 ''crm'' ''customers'' Csv,
         demo_dataset 8 ''crm'' ''orders'' Parquet]"
  by (simp add: list_datasets_def live_rows_filter live_row_def demo_catalog_rows new_row_def endpoint_of_def
      row_to_dataset_def demo_libs_def char_digit_def demo_dataset_def source_type_try_from_def)

theorem list_datasets_complete_witness:
  "\<exists>ds. list_datasets demo_libs None demo_catalog = Ok ds \<and>
     sorted_wrt (<) (map (\<lambda>d. (ds_namespace d, ds_name d)) ds) \<and>
     get_dataset demo_libs ''acct'' ''ledger'' demo_catalog = Ok (Some (demo_dataset 9 ''acct'' ''ledger'' Delta))"
  using list_datasets_complete [OF demo_catalog_inv demo_list, of "demo_dataset 9 ''acct'' ''ledger'' Delta"] demo_list
  by (simp add: demo_dataset_def)

text \<open>The lookups after an operation, through the specification.\<close>

lemma get_after_exec:
  "catalog_inv db \<Longrightarrow> get_dataset L ns n (snd (catalog_exec x db)) = spec_get L (snd (spec_exec x (catalog_abs db))) (ns, n)"
  using catalog_step_inv [of db x] by (simp add: get_dataset_spec catalog_step_def exec_refines)

lemma spec_get_cong:
  assumes "sp_datasets m k = sp_datasets m' k" "\<And>d. sp_datasets m' k = Some d \<Longrightarrow> spec_live m d = spec_live m' d"
  shows "spec_get L m k = spec_get L m' k"
  using assms by (auto simp: spec_get_def split: option.split)

text \<open>
  Marking a coordinator dead hides exactly its datasets from lookups, and its next heartbeat
  brings back what a heartbeat would have left visible.
\<close>

theorem dead_coordinator_hides:
  assumes "catalog_inv db"
  shows "(get_dataset L ns n (snd (mark_coordinator_dead ci db)) = Ok (Some d) \<longleftrightarrow>
      get_dataset L ns n db = Ok (Some d) \<and> ds_coordinator_id d \<noteq> ci)
    \<and> get_dataset L ns n (snd (store_heartbeat now ci (snd (mark_coordinator_dead ci db)))) =
      get_dataset L ns n (snd (store_heartbeat now ci db))"
proof
  have dead: "get_dataset L ns n (snd (mark_coordinator_dead ci db)) =
      spec_get L (snd (spec_exec (MarkCoordinatorDead ci) (catalog_abs db))) (ns, n)"
    using get_after_exec [OF assms, of L ns n "MarkCoordinatorDead ci"] by simp
  have live: "spec_live (snd (spec_exec (MarkCoordinatorDead ci) m)) r \<longleftrightarrow> spec_live m r \<and> d_coordinator_id r \<noteq> ci" for m r
    by (auto simp: spec_live_def split: option.splits)
  show "get_dataset L ns n (snd (mark_coordinator_dead ci db)) = Ok (Some d) \<longleftrightarrow>
      get_dataset L ns n db = Ok (Some d) \<and> ds_coordinator_id d \<noteq> ci"
    unfolding dead get_dataset_spec [OF assms] spec_get_Some live by (auto simp: row_to_dataset_sel)
  let ?dead = "snd (catalog_exec (MarkCoordinatorDead ci) db)"
  have "catalog_inv ?dead" using catalog_step_inv [OF assms, of "MarkCoordinatorDead ci"] by (simp add: catalog_step_def)
  then have "get_dataset L ns n (snd (catalog_exec (StoreHeartbeat now ci) ?dead)) =
      spec_get L (snd (spec_exec (StoreHeartbeat now ci) (snd (spec_exec (MarkCoordinatorDead ci) (catalog_abs db))))) (ns, n)"
    by (simp only: get_after_exec exec_refines [OF assms])
  also have "snd (spec_exec (StoreHeartbeat now ci) (snd (spec_exec (MarkCoordinatorDead ci) m))) =
      snd (spec_exec (StoreHeartbeat now ci) m)" for m
    by (simp add: option.map_comp o_def)
  finally have "get_dataset L ns n (snd (catalog_exec (StoreHeartbeat now ci) ?dead)) =
      get_dataset L ns n (snd (catalog_exec (StoreHeartbeat now ci) db))"
    by (simp only: get_after_exec [OF assms])
  then show "get_dataset L ns n (snd (store_heartbeat now ci (snd (mark_coordinator_dead ci db)))) =
      get_dataset L ns n (snd (store_heartbeat now ci db))" by simp
qed

theorem dead_coordinator_hides_witness:
  "get_dataset demo_libs ''crm'' ''orders'' (snd (mark_coordinator_dead ''c1'' demo_catalog)) \<noteq>
     Ok (Some (demo_dataset 8 ''crm'' ''orders'' Parquet))"
  using dead_coordinator_hides [OF demo_catalog_inv, of demo_libs "''crm''" "''orders''" "''c1''" "demo_dataset 8 ''crm'' ''orders'' Parquet"]
  by (simp add: demo_dataset_def)

text \<open>
  A live coordinator that registers again, with whatever endpoint, changes no lookup: the
  datasets keep the endpoint the coordinator had when they were registered.
\<close>

theorem reregistration_keeps_endpoints:
  assumes "catalog_inv db" and "c \<in> set (coordinators db)" and "c_is_alive c"
  shows "get_dataset L ns n (snd (upsert_coordinator now (c_id c) environment hostname endpoint db)) =
    get_dataset L ns n db"
proof -
  have "key_map c_id (coordinators db) (c_id c) = Some c"
    using assms(2) by (simp add: key_map_Some [OF catalog_invD(1) [OF assms(1)]])
  then show ?thesis
    using get_after_exec [OF assms(1), of L ns n "UpsertCoordinator now (c_id c) environment hostname endpoint"] assms(3)
    by (simp add: get_dataset_spec [OF assms(1)]) (rule spec_get_cong, auto simp: spec_live_def)
qed

theorem reregistration_keeps_endpoints_witness:
  "get_dataset demo_libs ''crm'' ''orders''
     (snd (upsert_coordinator ''t9'' ''c1'' ''eu'' ''host-1'' ''other:6000'' demo_catalog)) =
   Ok (Some (demo_dataset 8 ''crm'' ''orders'' Parquet))"
  using reregistration_keeps_endpoints [OF demo_catalog_inv, of "hd (coordinators demo_catalog)" demo_libs "''crm''" "''orders''" "''t9''"
      "''eu''" "''host-1''" "''other:6000''"]
  by (simp add: demo_catalog_rows(2) get_dataset_Some)
    (simp add: live_rows_filter live_row_def demo_catalog_rows new_row_def endpoint_of_def
      row_to_dataset_def demo_libs_def char_digit_def demo_dataset_def source_type_try_from_def get_dataset_def)

text \<open>
  The store accepts a new dataset whose identifier is new and not a UUID, under a live coordinator; the listing
  of the whole catalog then fails, although every other lookup is unchanged.
\<close>

lemma unparsed_identifier_upsert:
  assumes "catalog_inv db" and "live_row db (new_row now ci di n ns st ipc md db)"
    and "\<not> has_dataset (ns, n) db" and "\<not> has_dataset_id di db" and "uuid_parse L di = None"
  shows "fst (upsert_dataset now ci di n ns st ig ipc md db) = Ok ()
    \<and> (\<exists>e. list_datasets L None (snd (upsert_dataset now ci di n ns st ig ipc md db)) = Err e)
    \<and> ((ns', n') \<noteq> (ns, n) \<longrightarrow>
         get_dataset L ns' n' (snd (upsert_dataset now ci di n ns st ig ipc md db)) = get_dataset L ns' n' db)"
proof -
  let ?row = "new_row now ci di n ns st ipc md db"
  let ?db = "db\<lparr>datasets := datasets db @ [?row]\<rparr>"
  have "has_coordinator ci db" using assms(2) by (auto simp: live_row_def has_coordinator_def)
  with assms(3,4) have r: "upsert_dataset now ci di n ns st ig ipc md db = (Ok (), ?db)"
    by (simp add: upsert_dataset_outcome)
  have inv: "catalog_inv ?db" using upsert_dataset_inv [OF assms(1), of now ci di n ns st ig ipc md] r by simp
  have "?row \<in> set (sort_key dataset_key (filter (in_namespace None) (live_rows ?db)))"
    using assms(2) by (auto simp: live_rows_filter [OF inv] live_row_def in_namespace_def)
  moreover have "row_to_dataset L ?row \<noteq> Ok d" for d
    using assms(5) by (simp add: row_to_dataset_def new_row_def and_then_Ok)
  ultimately have "\<not> (\<exists>ds. list_datasets L None ?db = Ok ds)"
    unfolding list_datasets_sorted traverse_ex_Ok by blast
  then have "\<exists>e. list_datasets L None ?db = Err e" by (cases "list_datasets L None ?db") auto
  moreover have "get_dataset L ns' n' ?db = get_dataset L ns' n' db" if "(ns', n') \<noteq> (ns, n)"
    unfolding get_dataset_spec [OF inv] get_dataset_spec [OF assms(1)]
  proof (rule spec_get_cong)
    have "dataset_key ?row \<notin> dataset_key ` set (datasets db)" using assms(3) by (simp add: has_dataset_def)
    then show "sp_datasets (catalog_abs ?db) (ns', n') = sp_datasets (catalog_abs db) (ns', n')"
      using that by (auto simp: key_map_append)
  qed (simp add: spec_live_def)
  ultimately show ?thesis by (simp add: r)
qed

end
