(* ===== verification/Central_Catalog.thy ===== *)
theory Central_Catalog
  imports Catalog_Spec
begin

text \<open>
  The gRPC services of elan-central over the catalog store: \<open>CoordinatorSvc\<close>
  (\<open>grpc/coordinator_svc.rs\<close>) and \<open>CatalogSvc\<close> (\<open>grpc/catalog_svc.rs\<close>). A handler takes the
  request and the database and gives the response or status and the new database. A response stream
  is the list of its items: the channel behind it preserves order, and a client that stops reading
  sees a prefix. The locale \<open>catalog_service\<close> is what elan-query relies on.
\<close>

section \<open>Messages\<close>

record register_request =
  rg_coordinator_id :: string
  rg_environment :: string
  rg_hostname :: string
  rg_executor_endpoint :: string

record dataset_registration =
  dg_coordinator_id :: string
  dg_dataset_id :: string
  dg_name :: string
  dg_namespace :: string
  dg_source_type :: string
  dg_arrow_schema_ipc :: "u8 list"
  dg_metadata_json :: string

section \<open>CoordinatorSvc\<close>

definition internal_error :: "libs \<Rightarrow> 'a store_result \<Rightarrow> (status, 'a) result" where
  "internal_error L r = map_err (\<lambda>e. status_internal (store_error_text L e)) r"

definition register :: "libs \<Rightarrow> string \<Rightarrow> register_request \<Rightarrow> catalog_db \<Rightarrow> (status, bool) result \<times> catalog_db" where
  "register L now req db =
     (let (r, db') = upsert_coordinator now (rg_coordinator_id req) (rg_environment req) (rg_hostname req)
                       (rg_executor_endpoint req) db
      in (and_then (internal_error L r) (\<lambda>_. Ok True), db'))"

text \<open>
  The task behind a heartbeat stream: a store error is only logged, every received heartbeat is
  answered with \<open>alive = true\<close> (a client that has gone does not stop the task), and a stream error
  ends it. Each item comes with the clock's value at its arrival. The task of a client that does not read its
  answers waits once the response channel's 8 places are taken; the items here are those it has handled.
\<close>

fun heartbeat_task :: "(string \<times> (status, string) result) list \<Rightarrow> catalog_db \<Rightarrow> bool list \<times> catalog_db" where
  "heartbeat_task [] db = ([], db)"
| "heartbeat_task ((now, item) # items) db =
     (case item of
        Inl _ \<Rightarrow> ([], db)
      | Inr coordinator_id \<Rightarrow>
          (let (_, db1) = store_heartbeat now coordinator_id db;
               (answers, db2) = heartbeat_task items db1
           in (True # answers, db2)))"

definition register_dataset ::
  "libs \<Rightarrow> string \<Rightarrow> dataset_registration \<Rightarrow> catalog_db \<Rightarrow> (status, bool) result \<times> catalog_db" where
  "register_dataset L now req db =
     (let (r, db') = upsert_dataset now (dg_coordinator_id req) (dg_dataset_id req) (dg_name req) (dg_namespace req)
                       (dg_source_type req) (dg_coordinator_id req) (dg_arrow_schema_ipc req)
                       (if dg_metadata_json req = [] then None else Some (dg_metadata_json req)) db
      in (and_then (internal_error L r) (\<lambda>_. Ok True), db'))"

definition unregister_dataset :: "libs \<Rightarrow> string \<Rightarrow> catalog_db \<Rightarrow> (status, unit) result \<times> catalog_db" where
  "unregister_dataset L dataset_id db =
     (let (r, db') = deactivate_dataset dataset_id db in (internal_error L r, db'))"

section \<open>CatalogSvc\<close>

definition dataset_to_proto :: "libs \<Rightarrow> dataset_info \<Rightarrow> dataset_proto" where
  "dataset_to_proto L d =
     \<lparr>dp_dataset_id = uuid_text L (ds_id d), dp_name = ds_name d, dp_namespace = ds_namespace d,
      dp_source_type = source_type_text (ds_source_type d), dp_coordinator_id = ds_coordinator_id d,
      dp_executor_endpoint = ds_executor_endpoint d, dp_arrow_schema_ipc = ds_schema_ipc d,
      dp_metadata_json = json_text L (ds_metadata d)\<rparr>"

definition svc_get_dataset :: "libs \<Rightarrow> catalog_db \<Rightarrow> string \<Rightarrow> string \<Rightarrow> (status, dataset_proto) result" where
  "svc_get_dataset L db ns name =
     and_then (internal_error L (get_dataset L ns name db)) (\<lambda>found.
     and_then (ok_or (status_not_found (''dataset not found: '' @ ns @ ''.'' @ name)) found) (\<lambda>d.
     Ok (dataset_to_proto L d)))"

definition svc_list_datasets :: "libs \<Rightarrow> catalog_db \<Rightarrow> string \<Rightarrow> (status, dataset_proto list) result" where
  "svc_list_datasets L db namespace_filter =
     (let ns_filter = (if namespace_filter = [] then None else Some namespace_filter)
      in and_then (internal_error L (list_datasets L ns_filter db)) (\<lambda>ds. Ok (map (dataset_to_proto L) ds)))"

definition svc_search_datasets :: "libs \<Rightarrow> catalog_db \<Rightarrow> string \<Rightarrow> (status, dataset_proto list) result" where
  "svc_search_datasets L db q =
     (let query = unicode_lower L q
      in and_then (internal_error L (list_datasets L None db)) (\<lambda>all.
         Ok (map (dataset_to_proto L)
           (filter (\<lambda>d. str_contains (unicode_lower L (ds_name d)) query
                      \<or> str_contains (unicode_lower L (ds_namespace d)) query) all))))"

section \<open>The remote calls as a step function\<close>

datatype catalog_rpc =
    Register string register_request
  | Heartbeats "(string \<times> (status, string) result) list"
  | RegisterDataset string dataset_registration
  | UnregisterDataset string

fun rpc_step :: "libs \<Rightarrow> catalog_db \<Rightarrow> catalog_rpc \<Rightarrow> catalog_db" where
  "rpc_step L db (Register now req) = snd (register L now req db)"
| "rpc_step L db (Heartbeats items) = snd (heartbeat_task items db)"
| "rpc_step L db (RegisterDataset now req) = snd (register_dataset L now req db)"
| "rpc_step L db (UnregisterDataset i) = snd (unregister_dataset L i db)"

text \<open>Each call is a run of store operations, so the store's invariant carries over.\<close>

fun rpc_ops :: "catalog_rpc \<Rightarrow> catalog_op list" where
  "rpc_ops (Register now req) =
     [UpsertCoordinator now (rg_coordinator_id req) (rg_environment req) (rg_hostname req) (rg_executor_endpoint req)]"
| "rpc_ops (Heartbeats items) =
     map (\<lambda>(now, item). StoreHeartbeat now (case item of Inl _ \<Rightarrow> [] | Inr i \<Rightarrow> i))
       (takeWhile (\<lambda>(now, item). \<exists>i. item = Ok i) items)"
| "rpc_ops (RegisterDataset now req) =
     [UpsertDataset now (dg_coordinator_id req) (dg_dataset_id req) (dg_name req) (dg_namespace req)
        (dg_source_type req) (dg_arrow_schema_ipc req)
        (if dg_metadata_json req = [] then None else Some (dg_metadata_json req))]"
| "rpc_ops (UnregisterDataset i) = [DeactivateDataset i]"

lemma heartbeat_task_run:
  "heartbeat_task items db =
     (replicate (length (takeWhile (\<lambda>(now, item). \<exists>i. item = Ok i) items)) True,
      run catalog_step db (rpc_ops (Heartbeats items)))"
  by (induction items arbitrary: db)
    (auto simp: catalog_step_def store_heartbeat_def split: sum.splits)

lemma rpc_step_run: "rpc_step L db x = run catalog_step db (rpc_ops x)"
  by (cases x)
    (simp_all add: register_def register_dataset_def unregister_dataset_def catalog_step_def heartbeat_task_run
      split: prod.split)

lemma rpc_step_inv [step_invs]: "catalog_inv db \<Longrightarrow> catalog_inv (rpc_step L db x)"
  unfolding rpc_step_run by (rule catalog.run_keeps)

definition all_alive :: "catalog_db \<Rightarrow> bool" where
  "all_alive db \<longleftrightarrow> catalog_inv db \<and> (\<forall>c \<in> set (coordinators db). c_is_alive c)"

lemma all_alive_step [step_invs]: "all_alive db \<Longrightarrow> all_alive (rpc_step L db x)"
proof -
  have step: "all_alive (catalog_step db y)" if "all_alive db" "\<And>i. y \<noteq> MarkCoordinatorDead i" for db y
    using that catalog_step_inv [of db y]
    by (cases y)
      (auto simp: all_alive_def catalog_step_def upsert_coordinator_def store_heartbeat_def upsert_dataset_outcome
        deactivate_dataset_def in_sql_update)
  have "all_alive (run catalog_step db ys)" if "all_alive db" "\<forall>y \<in> set ys. \<forall>i. y \<noteq> MarkCoordinatorDead i" for ys db
    using that by (induction ys arbitrary: db) (auto intro: step)
  moreover have "\<forall>y \<in> set (rpc_ops x). \<forall>i. y \<noteq> MarkCoordinatorDead i" by (cases x) auto
  ultimately show "all_alive db \<Longrightarrow> all_alive (rpc_step L db x)" by (simp add: rpc_step_run)
qed

interpretation rpc: invariant_step "rpc_step L" all_alive for L
  by unfold_locales (rule all_alive_step)

lemma empty_all_alive [simp]: "all_alive (empty_catalog fk)"
  unfolding all_alive_def by (simp add: empty_catalog_inv) (simp add: empty_catalog_def)

section \<open>The catalog service interface\<close>

text \<open>
  What elan-query relies on: a lookup answers with the dataset asked for, and a listing holds each
  dataset once, agreeing with the lookups.
\<close>

abbreviation proto_key :: "dataset_proto \<Rightarrow> string \<times> string" where
  "proto_key p \<equiv> (dp_namespace p, dp_name p)"

locale catalog_service =
  fixes get :: "string \<Rightarrow> string \<Rightarrow> (status, dataset_proto) result"
    and listing :: "string \<Rightarrow> (status, dataset_proto list) result"
  assumes get_key: "get ns n = Ok p \<Longrightarrow> proto_key p = (ns, n)"
    and listing_get: "listing f = Ok ps \<Longrightarrow> p \<in> set ps \<Longrightarrow> get (dp_namespace p) (dp_name p) = Ok p"
    and get_listing: "listing [] = Ok ps \<Longrightarrow> get ns n = Ok p \<Longrightarrow> p \<in> set ps"
    and listing_keys: "listing f = Ok ps \<Longrightarrow> distinct (map proto_key ps)"
begin

lemma listing_iff: "listing [] = Ok ps \<Longrightarrow> p \<in> set ps \<longleftrightarrow> get (dp_namespace p) (dp_name p) = Ok p"
  using listing_get get_listing by blast

lemma listing_determined: "listing [] = Ok ps \<Longrightarrow> get ns n = Ok p \<longleftrightarrow> p \<in> set ps \<and> proto_key p = (ns, n)"
  using listing_get get_listing get_key by fastforce

lemma listing_part: "listing [] = Ok ps \<Longrightarrow> listing f = Ok qs \<Longrightarrow> set qs \<subseteq> set ps"
  using listing_get get_listing by blast

end

lemma internal_error_Ok [simp]: "internal_error L r = Ok x \<longleftrightarrow> r = Ok x"
  by (simp add: internal_error_def)

lemma svc_get_Ok:
  "svc_get_dataset L db ns n = Ok p \<longleftrightarrow> (\<exists>d. get_dataset L ns n db = Ok (Some d) \<and> p = dataset_to_proto L d)"
  by (auto simp: svc_get_dataset_def and_then_Ok)

lemma svc_list_Ok:
  "svc_list_datasets L db f = Ok ps \<longleftrightarrow>
     (\<exists>ds. list_datasets L (if f = [] then None else Some f) db = Ok ds \<and> ps = map (dataset_to_proto L) ds)"
  by (auto simp: svc_list_datasets_def and_then_Ok)

lemma dataset_to_proto_sel [simp]:
  "dp_name (dataset_to_proto L d) = ds_name d" "dp_namespace (dataset_to_proto L d) = ds_namespace d"
  by (simp_all add: dataset_to_proto_def)

lemma get_dataset_sel:
  assumes "catalog_inv db" "get_dataset L ns n db = Ok (Some d)"
  shows "ds_namespace d = ns" "ds_name d = n"
  using assms by (auto simp: get_dataset_Some dataset_key_def row_to_dataset_sel)

text \<open>The facts behind the listing, shared with the interface below.\<close>

lemma list_datasets_facts:
  assumes "catalog_inv db" and "list_datasets L F db = Ok ds"
  shows "distinct (map (\<lambda>d. (ds_namespace d, ds_name d)) ds)"
    "d \<in> set ds \<longleftrightarrow> (F = None \<or> F = Some (ds_namespace d)) \<and>
       get_dataset L (ds_namespace d) (ds_name d) db = Ok (Some d)"
  using list_datasets_keys [OF assms] list_datasets_members [OF assms] by simp_all

lemma catalog_service_svc:
  assumes inv: "catalog_inv db"
  shows "catalog_service (svc_get_dataset L db) (svc_list_datasets L db)"
proof
  fix ns n p assume "svc_get_dataset L db ns n = Ok p"
  then show "proto_key p = (ns, n)" using get_dataset_sel [OF inv] by (auto simp: svc_get_Ok)
next
  fix f ps p assume "svc_list_datasets L db f = Ok ps" "p \<in> set ps"
  then show "svc_get_dataset L db (dp_namespace p) (dp_name p) = Ok p"
    using list_datasets_facts(2) [OF inv] by (auto simp: svc_get_Ok svc_list_Ok)
next
  fix ps ns n p assume "svc_list_datasets L db [] = Ok ps" "svc_get_dataset L db ns n = Ok p"
  then show "p \<in> set ps"
    using list_datasets_facts(2) [OF inv, of L None] get_dataset_sel [OF inv]
    by (auto simp: svc_get_Ok svc_list_Ok)
next
  fix f ps assume "svc_list_datasets L db f = Ok ps"
  then show "distinct (map proto_key ps)"
    using list_datasets_facts(1) [OF inv] by (auto simp: svc_list_Ok o_def)
qed

interpretation central_catalog: catalog_service
  "svc_get_dataset L (run catalog_step (empty_catalog fk) ops)"
  "svc_list_datasets L (run catalog_step (empty_catalog fk) ops)" for L fk ops
  by (rule catalog_service_svc, rule catalog.run_keeps, simp)

section \<open>Properties of the services\<close>

lemma register_dataset_Ok:
  "fst (register_dataset L now req db) = Ok b \<longleftrightarrow> b \<and>
     fst (upsert_dataset now (dg_coordinator_id req) (dg_dataset_id req) (dg_name req) (dg_namespace req)
       (dg_source_type req) (dg_coordinator_id req) (dg_arrow_schema_ipc req)
       (if dg_metadata_json req = [] then None else Some (dg_metadata_json req)) db) = Ok ()"
  by (auto simp: register_dataset_def and_then_Ok split: prod.split)

lemma register_dataset_db:
  "snd (register_dataset L now req db) =
     snd (upsert_dataset now (dg_coordinator_id req) (dg_dataset_id req) (dg_name req) (dg_namespace req)
       (dg_source_type req) (dg_coordinator_id req) (dg_arrow_schema_ipc req)
       (if dg_metadata_json req = [] then None else Some (dg_metadata_json req)) db)"
  by (simp add: register_dataset_def split: prod.split)

lemma endpoint_of_member: "catalog_inv db \<Longrightarrow> c \<in> set (coordinators db) \<Longrightarrow> endpoint_of (c_id c) db = c_executor_endpoint c"
  using key_map_Some [OF catalog_invD(1), of db "c_id c" c] by (simp add: endpoint_of_abs)

text \<open>
  C20. Registration and lookup round trip: a new dataset registered by a live coordinator with a
  well-formed message is accepted, unless its identifier is taken, and a lookup then returns the
  message's fields with the coordinator's endpoint.
\<close>

theorem register_then_get:
  assumes "catalog_inv db" "uuid_codec L" "json_codec L" "json_text L v \<noteq> []"
    and "c \<in> set (coordinators db)" "c_is_alive c"
    and "\<not> has_dataset (ns, n) db" "\<not> has_dataset_id (uuid_text L u) db"
    and "req = \<lparr>dg_coordinator_id = c_id c, dg_dataset_id = uuid_text L u, dg_name = n, dg_namespace = ns,
                dg_source_type = source_type_text st, dg_arrow_schema_ipc = ipc, dg_metadata_json = json_text L v\<rparr>"
  shows "fst (register_dataset L now req db) = Ok True
    \<and> svc_get_dataset L (snd (register_dataset L now req db)) ns n =
        Ok \<lparr>dp_dataset_id = dg_dataset_id req, dp_name = dg_name req, dp_namespace = dg_namespace req,
            dp_source_type = dg_source_type req, dp_coordinator_id = dg_coordinator_id req,
            dp_executor_endpoint = c_executor_endpoint c, dp_arrow_schema_ipc = dg_arrow_schema_ipc req,
            dp_metadata_json = dg_metadata_json req\<rparr>"
proof -
  let ?row = "new_row now (c_id c) (uuid_text L u) n ns (source_type_text st) ipc (Some (json_text L v)) db"
  have "has_coordinator (c_id c) db" using assms(5) by (auto simp: has_coordinator_def)
  then have up: "upsert_dataset now (c_id c) (uuid_text L u) n ns (source_type_text st) ig ipc (Some (json_text L v)) db =
      (Ok (), db\<lparr>datasets := datasets db @ [?row]\<rparr>)" for ig
    using assms(7,8) by (simp add: upsert_dataset_outcome)
  then have inv: "catalog_inv (db\<lparr>datasets := datasets db @ [?row]\<rparr>)"
    using upsert_dataset_inv [OF assms(1)] by (metis snd_conv)
  let ?d = "\<lparr>ds_id = u, ds_name = n, ds_namespace = ns, ds_source_type = st, ds_coordinator_id = c_id c,
             ds_executor_endpoint = c_executor_endpoint c, ds_schema_ipc = ipc, ds_metadata = v\<rparr>"
  have "row_to_dataset L ?row = Ok ?d"
    using assms(2,3,5) endpoint_of_member [OF assms(1)]
    by (simp add: row_to_dataset_def new_row_def uuid_codecD json_codecD)
  moreover have "?row \<in> set (live_rows (db\<lparr>datasets := datasets db @ [?row]\<rparr>))"
    using assms(5,6) by (auto simp: live_rows_filter [OF inv] live_row_def)
  ultimately have "get_dataset L ns n (db\<lparr>datasets := datasets db @ [?row]\<rparr>) = Ok (Some ?d)"
    unfolding get_dataset_Some [OF inv] by (intro bexI conjI) auto
  then show ?thesis
    unfolding register_dataset_Ok register_dataset_db svc_get_Ok
    using assms(4) by (simp add: assms(9) up) (simp add: dataset_to_proto_def)
qed

lemma demo_json_text: "json_text demo_libs v \<noteq> []"
  by (simp add: demo_libs_def)

theorem register_then_get_witness:
  "\<exists>req. svc_get_dataset demo_libs (snd (register_dataset demo_libs ''t5'' req demo_catalog)) ''crm'' ''tickets'' =
     Ok \<lparr>dp_dataset_id = ''42'', dp_name = ''tickets'', dp_namespace = ''crm'', dp_source_type = ''csv'',
         dp_coordinator_id = ''c1'', dp_executor_endpoint = ''lb:50055'', dp_arrow_schema_ipc = [],
         dp_metadata_json = json_text demo_libs (JBool True)\<rparr>"
proof
  have "nat_str 42 = ''42''" by code_simp
  then have u: "uuid_text demo_libs 42 = ''42''" by (simp add: demo_libs_def)
  show "svc_get_dataset demo_libs (snd (register_dataset demo_libs ''t5''
      \<lparr>dg_coordinator_id = c_id (hd (coordinators demo_catalog)), dg_dataset_id = uuid_text demo_libs 42, dg_name = ''tickets'', dg_namespace = ''crm'',
       dg_source_type = source_type_text Csv, dg_arrow_schema_ipc = [], dg_metadata_json = json_text demo_libs (JBool True)\<rparr>
       demo_catalog)) ''crm'' ''tickets'' =
     Ok \<lparr>dp_dataset_id = ''42'', dp_name = ''tickets'', dp_namespace = ''crm'', dp_source_type = ''csv'',
         dp_coordinator_id = ''c1'', dp_executor_endpoint = ''lb:50055'', dp_arrow_schema_ipc = [],
         dp_metadata_json = json_text demo_libs (JBool True)\<rparr>"
    using register_then_get [OF demo_catalog_inv demo_uuid_codec demo_json_codec demo_json_text, where
        c = "hd (coordinators demo_catalog)" and n = "''tickets''" and ns = "''crm''" and u = 42 and st = Csv and
        v = "JBool True", OF _ _ _ _ refl, where ipc = "[]" and now = "''t5''"]
    by (simp add: demo_catalog_rows(2) u has_dataset_def has_dataset_id_def demo_catalog_rows(1) source_type_text_def)
qed

text \<open>
  Registering a known dataset again keeps its old identifier: the coordinator's new
  identifier is stored nowhere, and unregistering the dataset by it is acknowledged and changes
  nothing.
\<close>

theorem reregistered_identifier_ignored:
  assumes "catalog_inv db" "has_dataset (dg_namespace req, dg_name req) db" "\<not> has_dataset_id (dg_dataset_id req) db"
  shows "map d_id (datasets (snd (register_dataset L now req db))) = map d_id (datasets db)
    \<and> unregister_dataset L (dg_dataset_id req) (snd (register_dataset L now req db)) =
        (Ok (), snd (register_dataset L now req db))"
proof -
  let ?db = "snd (register_dataset L now req db)"
  have ids: "map d_id (datasets ?db) = map d_id (datasets db)"
    using assms(2) by (auto simp: register_dataset_db upsert_dataset_outcome map_sql_update)
  then have "dg_dataset_id req \<notin> d_id ` set (datasets ?db)"
    using assms(3) unfolding has_dataset_id_def by (metis set_map)
  then have "sql_update (\<lambda>d. d_id d = dg_dataset_id req) (\<lambda>d. d\<lparr>d_is_active := False\<rparr>) (datasets ?db) = datasets ?db"
    by (intro sql_update_id) (metis image_eqI)
  with ids show ?thesis by (simp add: unregister_dataset_def deactivate_dataset_def internal_error_def)
qed

definition demo_again :: dataset_registration where
  "demo_again =
     \<lparr>dg_coordinator_id = ''c1'', dg_dataset_id = ''77'', dg_name = ''orders'', dg_namespace = ''crm'',
      dg_source_type = ''csv'', dg_arrow_schema_ipc = [], dg_metadata_json = []\<rparr>"

theorem reregistered_identifier_ignored_witness:
  "let db = snd (register_dataset demo_libs ''t6'' demo_again demo_catalog) in
   map d_id (datasets db) = [''7'', ''8'', ''9''] \<and> unregister_dataset demo_libs ''77'' db = (Ok (), db)"
  using reregistered_identifier_ignored [OF demo_catalog_inv, of demo_again demo_libs "''t6''"]
  by (simp add: Let_def demo_again_def has_dataset_def has_dataset_id_def demo_catalog_rows)

lemma rpc_foreign_keys: "foreign_keys (rpc_step L db x) = foreign_keys db"
proof -
  have "foreign_keys (catalog_step db y) = foreign_keys db" for db y
    by (cases y) (simp_all add: catalog_step_def catalog_op_defs upsert_dataset_outcome)
  then have "foreign_keys (run catalog_step db ys) = foreign_keys db" for ys db
    by (induction ys arbitrary: db) simp_all
  then show ?thesis by (simp add: rpc_step_run)
qed

lemma all_alive_live_rows:
  assumes "all_alive db" "foreign_keys db"
  shows "live_rows db = filter d_is_active (datasets db)"
proof -
  have inv: "catalog_inv db" using assms(1) by (simp add: all_alive_def)
  have "live_row db d \<longleftrightarrow> d_is_active d" if d: "d \<in> set (datasets db)" for d
  proof -
    have "d_coordinator_id d \<in> c_id ` set (coordinators db)"
      using catalog_invD(4) [OF inv assms(2)] d by auto
    then obtain c where "c \<in> set (coordinators db)" "c_id c = d_coordinator_id d" by auto
    moreover then have "c_is_alive c" using assms(1) by (simp add: all_alive_def)
    ultimately show ?thesis unfolding live_row_def by blast
  qed
  then show ?thesis unfolding live_rows_filter [OF inv] by (intro filter_cong) simp_all
qed

text \<open>
  No call of the coordinator service marks a coordinator dead: in every state the calls reach,
  all coordinators are alive, so a dataset leaves the catalog only by being unregistered.
\<close>

theorem grpc_never_marks_dead:
  "let db = run (rpc_step L) (empty_catalog True) calls
   in list_all c_is_alive (coordinators db) \<and> live_rows db = filter d_is_active (datasets db)"
proof -
  have alive: "all_alive (run (rpc_step L) (empty_catalog True) calls)" by (rule rpc.run_keeps) simp
  have "foreign_keys (run (rpc_step L) (empty_catalog True) calls) = foreign_keys (empty_catalog True)"
    by (rule rpc.run_measure [where L = L]) (simp_all add: rpc_foreign_keys)
  then have "foreign_keys (run (rpc_step L) (empty_catalog True) calls)" by (simp add: empty_catalog_def)
  with alive show ?thesis
    unfolding Let_def by (metis all_alive_live_rows all_alive_def list_all_iff)
qed

text \<open>A row keeps its identifier, and is active until it is unregistered by it.\<close>

definition active_id :: "string \<Rightarrow> catalog_db \<Rightarrow> bool" where
  "active_id i db \<longleftrightarrow> (\<exists>d \<in> set (datasets db). d_id d = i \<and> d_is_active d)"

lemma active_id_update:
  assumes "active_id i db" "\<And>d. d_id (f d) = d_id d" "\<And>d. d_id d = i \<Longrightarrow> d_is_active d \<Longrightarrow> P d \<Longrightarrow> d_is_active (f d)"
  shows "active_id i (db\<lparr>datasets := sql_update P f (datasets db)\<rparr>)"
proof -
  obtain d where d: "d \<in> set (datasets db)" "d_id d = i" "d_is_active d" using assms(1) by (auto simp: active_id_def)
  then have "(if P d then f d else d) \<in> set (sql_update P f (datasets db))" by (simp add: set_sql_update)
  moreover have "d_id (if P d then f d else d) = i \<and> d_is_active (if P d then f d else d)" using d assms(2,3) by simp
  ultimately show ?thesis unfolding active_id_def by force
qed

lemma active_id_step: "active_id i db \<Longrightarrow> DeactivateDataset i \<noteq> y \<Longrightarrow> active_id i (catalog_step db y)"
proof (cases y)
  case (UpsertDataset now ci di n ns st ipc md)
  assume *: "active_id i db"
  then have "active_id i (db\<lparr>datasets := datasets db @ ds\<rparr>)" for ds by (auto simp: active_id_def)
  with * show ?thesis
    by (simp add: UpsertDataset catalog_step_def upsert_dataset_outcome active_id_update)
next
  case (DeactivateDataset j)
  assume "active_id i db" "DeactivateDataset i \<noteq> y"
  then show ?thesis by (auto simp: DeactivateDataset catalog_step_def deactivate_dataset_def intro!: active_id_update)
qed (auto simp: active_id_def catalog_step_def upsert_coordinator_def store_heartbeat_def mark_coordinator_dead_def)

lemma active_id_rpc: "active_id i db \<Longrightarrow> UnregisterDataset i \<noteq> x \<Longrightarrow> active_id i (rpc_step L db x)"
proof -
  have "active_id i (run catalog_step db ys)" if "active_id i db" "DeactivateDataset i \<notin> set ys" for ys db
    using that by (induction ys arbitrary: db) (simp_all add: active_id_step)
  moreover have "DeactivateDataset i \<notin> set (rpc_ops x)" if "UnregisterDataset i \<noteq> x" using that by (cases x) auto
  ultimately show "active_id i db \<Longrightarrow> UnregisterDataset i \<noteq> x \<Longrightarrow> active_id i (rpc_step L db x)" by (simp add: rpc_step_run)
qed

lemma bad_identifier_no_listing:
  assumes "all_alive db" "foreign_keys db" "active_id i db" "uuid_parse L i = None"
  shows "\<exists>e. list_datasets L None db = Err e"
proof -
  obtain d where d: "d \<in> set (datasets db)" "d_id d = i" "d_is_active d" using assms(3) by (auto simp: active_id_def)
  then have "d \<in> set (sort_key dataset_key (filter (in_namespace None) (live_rows db)))"
    by (simp add: all_alive_live_rows [OF assms(1,2)] in_namespace_def)
  moreover have "row_to_dataset L d \<noteq> Ok x" for x using assms(4) d(2) by (simp add: row_to_dataset_def and_then_Ok)
  ultimately have "\<not> (\<exists>ds. list_datasets L None db = Ok ds)" unfolding list_datasets_sorted traverse_ex_Ok by blast
  then show ?thesis by (cases "list_datasets L None db") auto
qed

text \<open>
  C33. One message can make the listing fail from then on: in any state that the calls of the coordinator service reach, \<open>RegisterDataset\<close>
  under a registered coordinator, for a new dataset with a new identifier that is no UUID, is accepted; and after
  whatever calls follow, one after another, as long as none of them unregisters that identifier, the listing of all datasets
  and every search fail.
\<close>

theorem unparsed_identifier_blocks_listing:
  assumes "db = run (rpc_step L) (empty_catalog True) earlier" "has_coordinator (dg_coordinator_id req) db"
    and "\<not> has_dataset (dg_namespace req, dg_name req) db" "\<not> has_dataset_id (dg_dataset_id req) db"
    and "uuid_parse L (dg_dataset_id req) = None" "UnregisterDataset (dg_dataset_id req) \<notin> set later"
    and "db' = run (rpc_step L) db (RegisterDataset now req # later)"
  shows "fst (register_dataset L now req db) = Ok True \<and> (\<exists>e. svc_list_datasets L db' [] = Err e) \<and> (\<exists>e. svc_search_datasets L db' q = Err e)"
proof -
  let ?row = "new_row now (dg_coordinator_id req) (dg_dataset_id req) (dg_name req) (dg_namespace req) (dg_source_type req)
      (dg_arrow_schema_ipc req) (if dg_metadata_json req = [] then None else Some (dg_metadata_json req)) db"
  let ?db = "snd (register_dataset L now req db)"
  have up: "upsert_dataset now (dg_coordinator_id req) (dg_dataset_id req) (dg_name req) (dg_namespace req) (dg_source_type req)
      (dg_coordinator_id req) (dg_arrow_schema_ipc req) (if dg_metadata_json req = [] then None else Some (dg_metadata_json req)) db =
    (Ok (), db\<lparr>datasets := datasets db @ [?row]\<rparr>)"
    using assms(2-4) by (simp add: upsert_dataset_outcome)
  then have "active_id (dg_dataset_id req) ?db" by (auto simp: register_dataset_db active_id_def new_row_def)
  then have active: "active_id (dg_dataset_id req) db'"
  proof -
    have "active_id i (run (rpc_step L) d later)" if "active_id i d" "UnregisterDataset i \<notin> set later" for i d
      using that by (induction later arbitrary: d) (simp_all add: active_id_rpc)
    then show ?thesis using \<open>active_id (dg_dataset_id req) ?db\<close> assms(6,7) by simp
  qed
  have reached: "db' = run (rpc_step L) (empty_catalog True) (earlier @ RegisterDataset now req # later)"
    by (simp add: assms(1,7))
  have "all_alive db'" unfolding reached by (rule rpc.run_keeps) simp
  moreover have "foreign_keys db' = foreign_keys (empty_catalog True)"
    unfolding reached by (rule rpc.run_measure [where L = L]) (simp_all add: rpc_foreign_keys)
  then have "foreign_keys db'" by (simp add: empty_catalog_def)
  ultimately obtain e where "list_datasets L None db' = Err e" using bad_identifier_no_listing [OF _ _ active assms(5)] by blast
  then show ?thesis
    using up by (simp add: register_dataset_Ok svc_list_datasets_def svc_search_datasets_def internal_error_def)
qed

definition demo_bad_id :: dataset_registration where
  "demo_bad_id =
     \<lparr>dg_coordinator_id = ''c1'', dg_dataset_id = ''x'', dg_name = ''broken'', dg_namespace = ''tmp'',
      dg_source_type = ''csv'', dg_arrow_schema_ipc = [], dg_metadata_json = []\<rparr>"

definition demo_enrol :: catalog_rpc where
  "demo_enrol = Register ''t0'' \<lparr>rg_coordinator_id = ''c1'', rg_environment = ''eu'', rg_hostname = ''h'', rg_executor_endpoint = ''lb:50055''\<rparr>"

theorem unparsed_identifier_blocks_listing_witness:
  "\<exists>e. svc_list_datasets demo_libs
     (run (rpc_step demo_libs) (empty_catalog True) [demo_enrol, RegisterDataset ''t1'' demo_bad_id, UnregisterDataset ''7'']) [] = Err e"
proof -
  let ?db = "run (rpc_step demo_libs) (empty_catalog True) [demo_enrol]"
  let ?db' = "run (rpc_step demo_libs) ?db [RegisterDataset ''t1'' demo_bad_id, UnregisterDataset ''7'']"
  have db: "datasets ?db = []" "map c_id (coordinators ?db) = [''c1'']"
    by (simp_all add: demo_enrol_def register_def upsert_coordinator_def empty_catalog_def)
  have "''c1'' \<in> set (map c_id (coordinators ?db))" unfolding db(2) by simp
  then have "has_coordinator (dg_coordinator_id demo_bad_id) ?db" by (auto simp: has_coordinator_def demo_bad_id_def)
  moreover have "\<not> has_dataset k ?db" "\<not> has_dataset_id i ?db" for k i by (simp_all only: has_dataset_def has_dataset_id_def db) simp_all
  moreover have "uuid_parse demo_libs (dg_dataset_id demo_bad_id) = None" by (simp add: demo_bad_id_def demo_libs_def char_digit_def)
  moreover have "UnregisterDataset (dg_dataset_id demo_bad_id) \<notin> set [UnregisterDataset ''7'']" by (simp add: demo_bad_id_def)
  ultimately have "\<exists>e. svc_list_datasets demo_libs ?db' [] = Err e"
    using unparsed_identifier_blocks_listing [OF refl _ _ _ _ _ refl, of demo_bad_id demo_libs "[demo_enrol]" "[UnregisterDataset ''7'']"] by blast
  then show ?thesis by simp
qed

text \<open>
  Heartbeats of coordinators that never registered are all answered alive, and change nothing.
\<close>

theorem unknown_heartbeats_alive:
  assumes "set ids \<inter> c_id ` set (coordinators db) = {}"
  shows "heartbeat_task (map (\<lambda>i. (now, Ok i)) ids) db = (replicate (length ids) True, db)"
  using assms
proof (induction ids)
  case (Cons i ids)
  then have "sql_update (\<lambda>c. c_id c = i) (\<lambda>c. c\<lparr>c_last_heartbeat_at := now, c_is_alive := True\<rparr>) (coordinators db) = coordinators db"
    by (intro sql_update_id) auto
  with Cons show ?case by (simp add: store_heartbeat_def)
qed simp

theorem unknown_heartbeats_alive_witness:
  "heartbeat_task [(''t'', Ok ''ghost''), (''t'', Ok ''ghost'')] demo_catalog = ([True, True], demo_catalog)"
  using unknown_heartbeats_alive [of "[''ghost'', ''ghost'']" demo_catalog "''t''"]
  by (simp add: demo_catalog_rows)

end
