(* ===== verification/Catalog_Race.thy ===== *)
theory Catalog_Race
  imports Central_Catalog
begin

text \<open>
  The registration of a dataset under concurrency (\<open>db/catalog_store.rs\<close>): \<open>upsert_dataset\<close> reads the
  coordinator's endpoint with one statement and writes the row with another, so other calls can come between.
  The state has the registrations that have read and not yet written and, as a ghost, the databases so far.
\<close>

section \<open>The two statements\<close>

text \<open>The second statement, with the endpoint that the first one returned.\<close>

definition write_dataset ::
  "string \<Rightarrow> string \<Rightarrow> string \<Rightarrow> string \<Rightarrow> string \<Rightarrow> string \<Rightarrow> string \<Rightarrow> u8 list \<Rightarrow> string option \<Rightarrow>
   catalog_db \<Rightarrow> unit store_result \<times> catalog_db" where
  "write_dataset now coordinator_id dataset_id name ns source_type executor_endpoint arrow_schema_ipc metadata_json db =
     (let target = (\<lambda>d. d_namespace d = ns \<and> d_name d = name)
      in if \<not> sql_exists target (datasets db) \<and> sql_exists (\<lambda>d. d_id d = dataset_id) (datasets db)
         then (Err (SqlError (UniqueViolation ''datasets.id'')), db)
         else if foreign_keys db \<and> \<not> sql_exists (\<lambda>c. c_id c = coordinator_id) (coordinators db)
         then (Err (SqlError ForeignKeyViolation), db)
         else if sql_exists target (datasets db)
         then (Ok (), db\<lparr>datasets := sql_update target
                 (\<lambda>d. d\<lparr>d_source_type := source_type, d_coordinator_id := coordinator_id,
                         d_executor_endpoint := executor_endpoint, d_arrow_schema_ipc := arrow_schema_ipc,
                         d_metadata_json := metadata_json, d_last_seen_at := now, d_is_active := True\<rparr>)
                 (datasets db)\<rparr>)
         else (Ok (), db\<lparr>datasets := datasets db @
                 [\<lparr>d_id = dataset_id, d_name = name, d_namespace = ns, d_source_type = source_type,
                   d_coordinator_id = coordinator_id, d_executor_endpoint = executor_endpoint,
                   d_arrow_schema_ipc = arrow_schema_ipc, d_metadata_json = metadata_json,
                   d_registered_at = now, d_last_seen_at = now, d_is_active = True\<rparr>]\<rparr>))"

text \<open>Without anything in between, the two are the operation of the sequential model.\<close>

lemma write_dataset_uninterrupted:
  "write_dataset now ci di n ns st (endpoint_of ci db) ipc md db = upsert_dataset now ci di n ns st ig ipc md db"
  by (simp only: write_dataset_def upsert_dataset_def endpoint_of_def Let_def)

record registration =
  rn_now :: string
  rn_request :: dataset_registration
  rn_endpoint :: string

definition write_registration :: "registration \<Rightarrow> catalog_db \<Rightarrow> unit store_result \<times> catalog_db" where
  "write_registration r db =
     (let req = rn_request r
      in write_dataset (rn_now r) (dg_coordinator_id req) (dg_dataset_id req) (dg_name req) (dg_namespace req)
           (dg_source_type req) (rn_endpoint r) (dg_arrow_schema_ipc req)
           (if dg_metadata_json req = [] then None else Some (dg_metadata_json req)) db)"

section \<open>The steps\<close>

record catalog_system =
  cy_db :: catalog_db
  cy_pending :: "registration list"
  cy_past :: "catalog_db list"

definition catalog_start :: "bool \<Rightarrow> catalog_system" where
  "catalog_start fk = \<lparr>cy_db = empty_catalog fk, cy_pending = [], cy_past = [empty_catalog fk]\<rparr>"

definition cy_wrote :: "catalog_db \<Rightarrow> catalog_system \<Rightarrow> catalog_system" where
  "cy_wrote db s = s\<lparr>cy_db := db, cy_past := cy_past s @ [db]\<rparr>"

text \<open>A stream of heartbeats is one call for each of its items.\<close>

inductive catalog_move :: "libs \<Rightarrow> catalog_system \<Rightarrow> catalog_system \<Rightarrow> bool" for L where
  registers: "catalog_move L s (cy_wrote (rpc_step L (cy_db s) (Register now req)) s)"
| beats: "catalog_move L s (cy_wrote (rpc_step L (cy_db s) (Heartbeats [item])) s)"
| unregisters: "catalog_move L s (cy_wrote (rpc_step L (cy_db s) (UnregisterDataset i)) s)"
| reads: "r = \<lparr>rn_now = now, rn_request = req, rn_endpoint = endpoint_of (dg_coordinator_id req) (cy_db s)\<rparr> \<Longrightarrow>
    catalog_move L s (s\<lparr>cy_pending := cy_pending s @ [r]\<rparr>)"
| writes: "cy_pending s = xs @ r # ys \<Longrightarrow> write_registration r (cy_db s) = (q, db) \<Longrightarrow>
    catalog_move L s (cy_wrote db (s\<lparr>cy_pending := xs @ ys\<rparr>))"

section \<open>The invariant\<close>

text \<open>An endpoint that a coordinator had in one of the databases; none, when it was not there.\<close>

definition past_endpoint :: "catalog_db list \<Rightarrow> string \<Rightarrow> string \<Rightarrow> bool" where
  "past_endpoint past i ep \<longleftrightarrow> (\<exists>db \<in> set past. endpoint_of i db = ep)"

definition cy_inv :: "catalog_system \<Rightarrow> bool" where
  "cy_inv s \<longleftrightarrow>
     catalog_inv (cy_db s) \<and> cy_db s \<in> set (cy_past s) \<and>
     (\<forall>d \<in> set (datasets (cy_db s)). past_endpoint (cy_past s) (d_coordinator_id d) (d_executor_endpoint d)) \<and>
     (\<forall>r \<in> set (cy_pending s). past_endpoint (cy_past s) (dg_coordinator_id (rn_request r)) (rn_endpoint r))"

lemma past_endpoint_mono: "past_endpoint past i ep \<Longrightarrow> past_endpoint (past @ extra) i ep"
  by (auto simp: past_endpoint_def)

text \<open>The rows that the second statement writes, and its outcomes.\<close>

definition late_renewed where
  "late_renewed now ci st ep ipc md d =
     d\<lparr>d_source_type := st, d_coordinator_id := ci, d_executor_endpoint := ep, d_arrow_schema_ipc := ipc,
       d_metadata_json := md, d_last_seen_at := now, d_is_active := True\<rparr>"

definition late_new where
  "late_new now ci di n ns st ep ipc md =
     \<lparr>d_id = di, d_name = n, d_namespace = ns, d_source_type = st, d_coordinator_id = ci, d_executor_endpoint = ep,
      d_arrow_schema_ipc = ipc, d_metadata_json = md, d_registered_at = now, d_last_seen_at = now, d_is_active = True\<rparr>"

lemma late_row_sel [simp]:
  "d_id (late_renewed now ci st ep ipc md d) = d_id d" "dataset_key (late_renewed now ci st ep ipc md d) = dataset_key d"
  "d_coordinator_id (late_renewed now ci st ep ipc md d) = ci" "d_executor_endpoint (late_renewed now ci st ep ipc md d) = ep"
  "d_id (late_new now ci di n ns st ep ipc md) = di" "dataset_key (late_new now ci di n ns st ep ipc md) = (ns, n)"
  "d_coordinator_id (late_new now ci di n ns st ep ipc md) = ci" "d_executor_endpoint (late_new now ci di n ns st ep ipc md) = ep"
  by (simp_all add: late_renewed_def late_new_def dataset_key_def)

lemma write_dataset_outcome:
  "write_dataset now ci di n ns st ep ipc md db =
     (if \<not> has_dataset (ns, n) db \<and> has_dataset_id di db
      then (Err (SqlError (UniqueViolation ''datasets.id'')), db)
      else if foreign_keys db \<and> \<not> has_coordinator ci db then (Err (SqlError ForeignKeyViolation), db)
      else if has_dataset (ns, n) db
      then (Ok (), db\<lparr>datasets := sql_update (\<lambda>d. dataset_key d = (ns, n)) (late_renewed now ci st ep ipc md) (datasets db)\<rparr>)
      else (Ok (), db\<lparr>datasets := datasets db @ [late_new now ci di n ns st ep ipc md]\<rparr>))"
proof -
  have "has_dataset (ns, n) db \<longleftrightarrow> sql_exists (\<lambda>d. d_namespace d = ns \<and> d_name d = n) (datasets db)"
    "has_dataset_id di db \<longleftrightarrow> sql_exists (\<lambda>d. d_id d = di) (datasets db)"
    "has_coordinator ci db \<longleftrightarrow> sql_exists (\<lambda>c. c_id c = ci) (coordinators db)"
    by (auto simp: has_dataset_def has_dataset_id_def has_coordinator_def dataset_key_def image_iff)
  moreover have "(\<lambda>d. dataset_key d = (ns, n)) = (\<lambda>d. d_namespace d = ns \<and> d_name d = n)"
    by (simp add: dataset_key_def)
  ultimately show ?thesis
    by (simp only: write_dataset_def Let_def late_new_def late_renewed_def [abs_def])
qed

lemma write_dataset_inv:
  assumes "catalog_inv db"
  shows "catalog_inv (snd (write_dataset now ci di n ns st ep ipc md db))"
proof -
  have "catalog_inv (db\<lparr>datasets := sql_update (\<lambda>d. dataset_key d = (ns, n)) (late_renewed now ci st ep ipc md) (datasets db)\<rparr>)"
    if "foreign_keys db \<Longrightarrow> has_coordinator ci db"
    using assms that by (intro dataset_update_inv) (auto simp: has_coordinator_def)
  moreover have "catalog_inv (db\<lparr>datasets := datasets db @ [late_new now ci di n ns st ep ipc md]\<rparr>)"
    if "foreign_keys db \<Longrightarrow> has_coordinator ci db" "\<not> has_dataset_id di db" "\<not> has_dataset (ns, n) db"
    using assms that by (auto simp: catalog_inv_def has_coordinator_def has_dataset_def has_dataset_id_def)
  ultimately show ?thesis using assms by (auto simp: write_dataset_outcome)
qed

lemma write_dataset_rows:
  assumes "d \<in> set (datasets (snd (write_dataset now ci di n ns st ep ipc md db)))"
  shows "d \<in> set (datasets db) \<or> (d_coordinator_id d = ci \<and> d_executor_endpoint d = ep)"
  using assms by (auto simp: write_dataset_outcome in_sql_update split: if_splits)

definition is_upsert :: "catalog_op \<Rightarrow> bool" where
  "is_upsert y = (case y of UpsertDataset _ _ _ _ _ _ _ _ \<Rightarrow> True | _ \<Rightarrow> False)"

text \<open>The other calls keep the coordinator and the endpoint of every dataset.\<close>

lemma rpc_step_rows:
  assumes "d \<in> set (datasets (rpc_step L db x))" "\<And>now req. x \<noteq> RegisterDataset now req"
  shows "\<exists>d0 \<in> set (datasets db). d_coordinator_id d = d_coordinator_id d0 \<and> d_executor_endpoint d = d_executor_endpoint d0"
proof -
  have step: "\<exists>d0 \<in> set (datasets db). d_coordinator_id d = d_coordinator_id d0 \<and> d_executor_endpoint d = d_executor_endpoint d0"
    if "d \<in> set (datasets (catalog_step db y))" "\<not> is_upsert y" for db y d
  proof (cases y)
    case (DeactivateDataset i)
    with that(1) obtain d0 where "d0 \<in> set (datasets db)" "d = (if d_id d0 = i then d0\<lparr>d_is_active := False\<rparr> else d0)"
      by (auto simp: catalog_step_def deactivate_dataset_def in_sql_update)
    then show ?thesis by (intro bexI [of _ d0]) simp_all
  next
    case (UpsertDataset now ci di n ns st ipc md)
    with that(2) show ?thesis by (simp add: is_upsert_def)
  qed (use that(1) in \<open>auto simp: catalog_step_def catalog_op_defs split: if_splits\<close>)
  have "\<exists>d0 \<in> set (datasets db). d_coordinator_id d = d_coordinator_id d0 \<and> d_executor_endpoint d = d_executor_endpoint d0"
    if "d \<in> set (datasets (run catalog_step db ys))"
      "\<forall>y \<in> set ys. \<not> is_upsert y" for ys db d
    using that
  proof (induction ys arbitrary: db)
    case (Cons y ys)
    have "d \<in> set (datasets (run catalog_step (catalog_step db y) ys))" using Cons.prems(1) by simp
    moreover have "\<forall>y \<in> set ys. \<not> is_upsert y" using Cons.prems(2) by simp
    ultimately obtain d1 where d1: "d1 \<in> set (datasets (catalog_step db y))"
      "d_coordinator_id d = d_coordinator_id d1" "d_executor_endpoint d = d_executor_endpoint d1"
      using Cons.IH by blast
    have "\<not> is_upsert y"
      using Cons.prems(2) by simp
    from step [OF d1(1) this] show ?case unfolding d1(2,3) .
  qed auto
  moreover have "\<forall>y \<in> set (rpc_ops x). \<not> is_upsert y"
    using assms(2) by (cases x) (auto simp: is_upsert_def)
  ultimately show ?thesis using assms(1) unfolding rpc_step_run by blast
qed

lemma cy_wrote_inv:
  assumes "cy_inv s" "catalog_inv db" "set (cy_pending s') \<subseteq> set (cy_pending s)" "cy_past s' = cy_past s"
    and "\<And>d. d \<in> set (datasets db) \<Longrightarrow> past_endpoint (cy_past s) (d_coordinator_id d) (d_executor_endpoint d)"
  shows "cy_inv (cy_wrote db s')"
  using assms by (auto simp: cy_inv_def cy_wrote_def past_endpoint_mono)

lemma rpc_cy_inv:
  assumes "cy_inv s" "\<And>now req. x \<noteq> RegisterDataset now req"
  shows "cy_inv (cy_wrote (rpc_step L (cy_db s) x) s)"
proof (rule cy_wrote_inv [OF assms(1)])
  show "catalog_inv (rpc_step L (cy_db s) x)" using assms(1) rpc_step_inv by (simp add: cy_inv_def)
  show "past_endpoint (cy_past s) (d_coordinator_id d) (d_executor_endpoint d)" if "d \<in> set (datasets (rpc_step L (cy_db s) x))" for d
    using rpc_step_rows [OF that assms(2)] assms(1) by (auto simp: cy_inv_def)
qed simp_all

lemma catalog_move_inv: "catalog_move L s s' \<Longrightarrow> cy_inv s \<Longrightarrow> cy_inv s'"
proof (induction rule: catalog_move.induct)
  case (reads r now req s)
  then have "past_endpoint (cy_past s) (dg_coordinator_id req) (rn_endpoint r)"
    by (auto simp: cy_inv_def past_endpoint_def)
  with reads show ?case by (auto simp: cy_inv_def)
next
  case (writes s xs r ys q db)
  have inv: "catalog_inv (cy_db s)" "past_endpoint (cy_past s) (dg_coordinator_id (rn_request r)) (rn_endpoint r)"
    using writes by (auto simp: cy_inv_def)
  have db: "db = snd (write_registration r (cy_db s))" using writes by simp
  show ?case
  proof (rule cy_wrote_inv [OF writes.prems])
    show "catalog_inv db" unfolding db using write_dataset_inv [OF inv(1)] by (simp add: write_registration_def Let_def)
    show "past_endpoint (cy_past s) (d_coordinator_id d) (d_executor_endpoint d)" if "d \<in> set (datasets db)" for d
      using that write_dataset_rows [of d] inv(2) writes.prems unfolding db write_registration_def Let_def
      by (fastforce simp: cy_inv_def)
  qed (use writes in auto)
qed (rule rpc_cy_inv; simp)+

lemma catalog_moves_inv: "(catalog_move L)\<^sup>*\<^sup>* (catalog_start fk) s \<Longrightarrow> cy_inv s"
proof (induction rule: rtranclp_induct)
  case base
  show ?case by (simp add: cy_inv_def catalog_start_def) (simp add: empty_catalog_def)
qed (rule catalog_move_inv)

section \<open>Properties under interleaving\<close>

text \<open>
  C28. However registrations, heartbeats and removals interleave, the tables keep the constraints of the schema, and the
  executor endpoint of every dataset is one that its coordinator had in some database since the start (or
  none, in one where it was not registered).
\<close>

theorem interleaved_catalog_sound:
  assumes "(catalog_move L)\<^sup>*\<^sup>* (catalog_start fk) s"
  shows "catalog_inv (cy_db s) \<and>
    (\<forall>d \<in> set (datasets (cy_db s)). \<exists>db \<in> set (cy_past s). endpoint_of (d_coordinator_id d) db = d_executor_endpoint d)"
  using catalog_moves_inv [OF assms] by (auto simp: cy_inv_def past_endpoint_def)

text \<open>
  A registration of a dataset that overtakes its coordinator's: it reads the endpoint before the coordinator is there
  and writes the row after. The foreign key holds, and the dataset is live with an empty endpoint, which
  no query can reach.
\<close>

definition demo_register :: register_request where
  "demo_register = \<lparr>rg_coordinator_id = ''c1'', rg_environment = ''eu'', rg_hostname = ''h'', rg_executor_endpoint = ''lb:50055''\<rparr>"

definition demo_registered :: catalog_db where
  "demo_registered = snd (upsert_coordinator ''t0'' ''c1'' ''eu'' ''h'' ''lb:50055'' (empty_catalog True))"

definition demo_late :: registration where
  "demo_late = \<lparr>rn_now = ''t1'', rn_request = demo_again, rn_endpoint = []\<rparr>"

definition demo_endless :: catalog_db where
  "demo_endless = snd (write_registration demo_late demo_registered)"

lemma demo_overtaken:
  "(catalog_move L)\<^sup>*\<^sup>* (catalog_start True)
     \<lparr>cy_db = demo_endless, cy_pending = [], cy_past = [empty_catalog True, demo_registered, demo_endless]\<rparr>"
proof -
  let ?s0 = "catalog_start True"
  let ?s1 = "?s0\<lparr>cy_pending := [demo_late]\<rparr>"
  let ?s2 = "cy_wrote demo_registered ?s1"
  have "catalog_move L ?s0 ?s1"
    using reads [of demo_late "''t1''" demo_again ?s0 L]
    by (simp add: demo_late_def catalog_start_def endpoint_of_def empty_catalog_def)
  moreover have "catalog_move L ?s1 ?s2"
    using registers [of L ?s1 "''t0''" demo_register]
    by (simp add: register_def demo_register_def demo_registered_def catalog_start_def split: prod.splits)
  moreover have "catalog_move L ?s2 (cy_wrote demo_endless (?s2\<lparr>cy_pending := []\<rparr>))"
    using writes [of ?s2 "[]" demo_late "[]" "fst (write_registration demo_late demo_registered)" demo_endless L]
    by (simp add: demo_endless_def cy_wrote_def)
  ultimately have "(catalog_move L)\<^sup>*\<^sup>* ?s0 (cy_wrote demo_endless (?s2\<lparr>cy_pending := []\<rparr>))"
    by (meson rtranclp.rtrancl_refl rtranclp.rtrancl_into_rtrancl)
  then show ?thesis by (simp add: cy_wrote_def catalog_start_def)
qed

lemma demo_endless_rows:
  "live_rows demo_endless = [late_new ''t1'' ''c1'' ''77'' ''orders'' ''crm'' ''csv'' [] [] None]"
  by (simp add: demo_endless_def demo_late_def write_registration_def demo_again_def write_dataset_def demo_registered_def
      upsert_coordinator_def empty_catalog_def live_rows_def sql_join_def late_new_def)

theorem registration_overtakes:
  "\<exists>s. (catalog_move L)\<^sup>*\<^sup>* (catalog_start True) s \<and> cy_pending s = [] \<and> catalog_inv (cy_db s) \<and>
     (\<exists>d \<in> set (live_rows (cy_db s)). d_coordinator_id d = ''c1'' \<and> d_executor_endpoint d = [] \<and>
        endpoint_of ''c1'' (cy_db s) = ''lb:50055'')"
proof -
  have "endpoint_of ''c1'' demo_endless = ''lb:50055''"
    by (simp add: demo_endless_def demo_late_def write_registration_def demo_again_def write_dataset_def demo_registered_def
        upsert_coordinator_def empty_catalog_def endpoint_of_def)
  moreover have "catalog_inv demo_endless" using catalog_moves_inv [OF demo_overtaken] by (simp add: cy_inv_def)
  ultimately show ?thesis
    using demo_overtaken [of L] demo_endless_rows
    by (intro exI [of _ "\<lparr>cy_db = demo_endless, cy_pending = [], cy_past = [empty_catalog True, demo_registered, demo_endless]\<rparr>"])
      simp
qed

theorem interleaved_catalog_sound_witness:
  "catalog_inv demo_endless \<and> (\<exists>db \<in> {empty_catalog True, demo_registered, demo_endless}. endpoint_of ''c1'' db = [])"
proof -
  have "late_new ''t1'' ''c1'' ''77'' ''orders'' ''crm'' ''csv'' [] [] None \<in> set (datasets demo_endless)"
    by (simp add: demo_endless_def demo_late_def write_registration_def demo_again_def write_dataset_def demo_registered_def
        upsert_coordinator_def empty_catalog_def late_new_def)
  then show ?thesis using interleaved_catalog_sound [OF demo_overtaken] by fastforce
qed

end
