(* ===== verification/Physical_Plan.thy ===== *)
theory Physical_Plan
  imports Common_Types
begin

text \<open>
  Arrow schemas, DataFusion expressions and physical plans as far as elan looks at them.

  A plan is a tree with two kinds of nodes: elan's own leaf \<open>RemoteTableScanExec\<close> (modelled in
  full), and every operator of DataFusion, whose data is the type parameter and whose methods are
  the fields of \<open>df_ops\<close>. \<open>df_laws\<close> states the documented behaviour of those methods that the
  optimizer rule relies on.
\<close>

section \<open>Schemas\<close>

datatype data_type = Utf8 | OtherType string

record field =
  f_name :: string
  f_data_type :: data_type
  f_nullable :: bool

type_synonym schema = "field list"

datatype df_error =
    PlanError string
  | ArrowError string
  | ExternalError string

definition df_error_text :: "df_error \<Rightarrow> string" where
  "df_error_text e =
     (case e of
        PlanError m \<Rightarrow> ''Error during planning: '' @ m
      | ArrowError m \<Rightarrow> ''Arrow error: '' @ m
      | ExternalError m \<Rightarrow> ''External error: '' @ m)"

text \<open>\<open>Schema::project\<close>: the fields at the given indices, an error for an index out of range.\<close>

definition schema_project :: "schema \<Rightarrow> nat list \<Rightarrow> (df_error, schema) result" where
  "schema_project s proj =
     traverse (\<lambda>i. if i < length s then Ok (s ! i) else Err (ArrowError ''project index out of bounds'')) proj"

lemma schema_project_Ok:
  "schema_project s proj = Ok t \<longleftrightarrow> (\<forall>i \<in> set proj. i < length s) \<and> t = map ((!) s) proj"
  unfolding schema_project_def traverse_Ok_iff
proof (induction proj arbitrary: t)
  case (Cons i proj)
  then show ?case by (cases t) auto
qed auto

section \<open>Expressions\<close>

datatype scalar = ScalarUtf8 string | ScalarInt int | ScalarBool bool | ScalarNull | ScalarOther string

datatype operator = Eq | NotEq | Lt | LtEq | Gt | GtEq | And | Or | OtherOperator string

datatype expr =
    BinaryExpr expr operator expr
  | Column "string option" string
  | Literal scalar
  | Not expr
  | OtherExpr string

section \<open>Plans\<close>

record remote_scan =
  rs_dataset :: dataset_info
  rs_schema :: schema
  rs_pushed_filters :: "expr list"
  rs_limit :: "64 word option"

datatype 'n plan =
    RemoteTableScanExec remote_scan
  | PlanNode 'n "'n plan list"

record 'n df_ops =
  node_name :: "'n \<Rightarrow> string"
  node_schema :: "'n \<Rightarrow> schema"
  empty_exec :: "schema \<Rightarrow> 'n"
  rebuild :: "'n plan \<Rightarrow> 'n plan list \<Rightarrow> (df_error, 'n plan) result"

definition plan_name :: "'n df_ops \<Rightarrow> 'n plan \<Rightarrow> string" where
  "plan_name D p = (case p of RemoteTableScanExec _ \<Rightarrow> ''RemoteTableScanExec'' | PlanNode n _ \<Rightarrow> node_name D n)"

definition plan_schema :: "'n df_ops \<Rightarrow> 'n plan \<Rightarrow> schema" where
  "plan_schema D p = (case p of RemoteTableScanExec sc \<Rightarrow> rs_schema sc | PlanNode n _ \<Rightarrow> node_schema D n)"

definition plan_children :: "'n plan \<Rightarrow> 'n plan list" where
  "plan_children p = (case p of RemoteTableScanExec _ \<Rightarrow> [] | PlanNode _ cs \<Rightarrow> cs)"

definition with_new_children ::
  "'n df_ops \<Rightarrow> 'n plan \<Rightarrow> 'n plan list \<Rightarrow> (df_error, 'n plan) result" where
  "with_new_children D p cs =
     (case p of RemoteTableScanExec _ \<Rightarrow> Ok p | PlanNode _ _ \<Rightarrow> rebuild D p cs)"

lemma plan_scan_methods [simp]:
  "plan_name D (RemoteTableScanExec sc) = ''RemoteTableScanExec''"
  "plan_schema D (RemoteTableScanExec sc) = rs_schema sc"
  "plan_children (RemoteTableScanExec sc) = []"
  "with_new_children D (RemoteTableScanExec sc) cs = Ok (RemoteTableScanExec sc)"
  by (simp_all add: plan_name_def plan_schema_def plan_children_def with_new_children_def)

lemma plan_node_methods [simp]:
  "plan_name D (PlanNode n cs) = node_name D n"
  "plan_schema D (PlanNode n cs) = node_schema D n"
  "plan_children (PlanNode n cs) = cs"
  "with_new_children D (PlanNode n cs) = rebuild D (PlanNode n cs)"
  by (auto simp: plan_name_def plan_schema_def plan_children_def with_new_children_def)

lemma plan_children_size: "c \<in> set (plan_children p) \<Longrightarrow> size c < size p"
  by (cases p) (auto dest: size_list_estimation' [where y = "size c"] simp: less_Suc_eq_le)

text \<open>
  What DataFusion documents of its operators: an \<open>EmptyExec\<close> has the schema it was made with, and
  \<open>with_new_children\<close> gives an operator over exactly the new children, whose schema is unchanged
  when the new children have the schemas of the old ones.
\<close>

definition df_laws :: "'n df_ops \<Rightarrow> bool" where
  "df_laws D \<longleftrightarrow>
     (\<forall>s. node_schema D (empty_exec D s) = s) \<and>
     (\<forall>n cs cs' p. rebuild D (PlanNode n cs) cs' = Ok p \<longrightarrow>
        (\<exists>n'. p = PlanNode n' cs' \<and>
              (map (plan_schema D) cs' = map (plan_schema D) cs \<longrightarrow> node_schema D n' = node_schema D n)))"

lemma df_laws_empty: "df_laws D \<Longrightarrow> node_schema D (empty_exec D s) = s"
  by (simp add: df_laws_def)

lemma df_laws_rebuild:
  assumes "df_laws D" "rebuild D (PlanNode n cs) cs' = Ok p"
  obtains n' where "p = PlanNode n' cs'"
    "map (plan_schema D) cs' = map (plan_schema D) cs \<Longrightarrow> node_schema D n' = node_schema D n"
  using assms unfolding df_laws_def by blast

text \<open>The remote scans of a plan, left to right.\<close>

fun plan_scans :: "'n plan \<Rightarrow> remote_scan list" where
  "plan_scans (RemoteTableScanExec sc) = [sc]"
| "plan_scans (PlanNode n cs) = concat (map plan_scans cs)"

text \<open>Operators for the witnesses: a name and a schema, with children replaced as they are.\<close>

definition demo_ops :: "(string \<times> schema) df_ops" where
  "demo_ops =
     \<lparr>node_name = fst, node_schema = snd, empty_exec = (\<lambda>s. (''EmptyExec'', s)),
      rebuild = (\<lambda>p cs. case p of RemoteTableScanExec _ \<Rightarrow> Ok p | PlanNode n _ \<Rightarrow> Ok (PlanNode n cs))\<rparr>"

lemma demo_df_laws [simp]: "df_laws demo_ops"
  by (simp add: df_laws_def demo_ops_def)

end
