(* ===== verification/Remote_Scan.thy ===== *)
theory Remote_Scan
  imports Physical_Plan
begin

text \<open>
  elan-query's remote scan (\<open>planner/remote_scan.rs\<close>) and the table provider that makes it
  (\<open>catalog/table.rs\<close>). The text of a scalar value, the HTTP client and the Arrow IPC reader are
  fields of the record \<open>scan_env\<close>. The result of \<open>execute\<close> is \<open>None\<close> when the code panics.
\<close>

section \<open>The SQL of a scan\<close>

abbreviation dquote :: string where
  "dquote \<equiv> [CHR 0x22]"

definition operator_sql :: "operator \<Rightarrow> string option" where
  "operator_sql op =
     (case op of
        Eq \<Rightarrow> Some ''=''
      | NotEq \<Rightarrow> Some ''!=''
      | Lt \<Rightarrow> Some ''<''
      | LtEq \<Rightarrow> Some ''<=''
      | Gt \<Rightarrow> Some ''>''
      | GtEq \<Rightarrow> Some ''>=''
      | And \<Rightarrow> Some ''AND''
      | Or \<Rightarrow> Some ''OR''
      | OtherOperator _ \<Rightarrow> None)"

fun expr_to_sql :: "(scalar \<Rightarrow> string) \<Rightarrow> expr \<Rightarrow> string option" where
  "expr_to_sql text (BinaryExpr l op r) =
     Option.bind (expr_to_sql text l) (\<lambda>left.
     Option.bind (expr_to_sql text r) (\<lambda>right.
     Option.bind (operator_sql op) (\<lambda>o'.
     Some (''('' @ left @ '' '' @ o' @ '' '' @ right @ '')''))))"
| "expr_to_sql text (Column _ name) = Some (dquote @ name @ dquote)"
| "expr_to_sql text (Literal v) = Some (text v)"
| "expr_to_sql text (Not e) = Option.bind (expr_to_sql text e) (\<lambda>inner. Some (''NOT ('' @ inner @ '')''))"
| "expr_to_sql text (OtherExpr _) = None"

definition build_sql :: "(scalar \<Rightarrow> string) \<Rightarrow> remote_scan \<Rightarrow> string" where
  "build_sql text sc =
     (let table = ds_name (rs_dataset sc);
          sql = ''SELECT * FROM '' @ dquote @ table @ dquote;
          filter_strs = List.map_filter (expr_to_sql text) (rs_pushed_filters sc);
          sql = (if rs_pushed_filters sc \<noteq> [] \<and> filter_strs \<noteq> []
                 then sql @ '' WHERE '' @ str_join '' AND '' filter_strs else sql)
      in case rs_limit sc of
           Some lim \<Rightarrow> sql @ '' LIMIT '' @ nat_str (unat lim)
         | None \<Rightarrow> sql)"

section \<open>The endpoint\<close>

definition int_error_text :: "int_error_kind \<Rightarrow> string" where
  "int_error_text k =
     (case k of
        IntEmpty \<Rightarrow> ''cannot parse integer from empty string''
      | IntInvalidDigit \<Rightarrow> ''invalid digit found in string''
      | IntPosOverflow \<Rightarrow> ''number too large to fit in target type'')"

definition parse_endpoint :: "string \<Rightarrow> (df_error, string \<times> u16) result" where
  "parse_endpoint endpoint =
     (case rsplit2 (CHR '':'') endpoint of
        [p, host] \<Rightarrow>
          and_then (map_err (\<lambda>k. PlanError (''invalid port in endpoint: '' @ int_error_text k)) (parse_u16 p)) (\<lambda>port.
          Ok (host, port))
      | _ \<Rightarrow> Err (PlanError (''invalid executor endpoint: '' @ endpoint)))"

text \<open>The address the scan is sent to: the HTTP service listens one port above Ballista's.\<close>

definition scan_url :: "string \<Rightarrow> u16 \<Rightarrow> string" where
  "scan_url host http_port = ''http://'' @ host @ '':'' @ nat_str (unat http_port) @ ''/sql''"

section \<open>Execution\<close>

record 'c batch =
  b_schema :: schema
  b_columns :: "'c list"
  b_num_rows :: nat

record http_response =
  hr_status :: nat
  hr_status_text :: string
  hr_text :: "(string, string) result"
  hr_bytes :: "(string, u8 list) result"

record 'c scan_env =
  scalar_text :: "scalar \<Rightarrow> string"
  http_post :: "string \<Rightarrow> string \<Rightarrow> (string, http_response) result"
  ipc_read :: "u8 list \<Rightarrow> (string, (string, 'c batch) result list) result"

text \<open>The reply of the executor, up to the batches of the Arrow stream.\<close>

definition fetch_batches :: "'c scan_env \<Rightarrow> string \<Rightarrow> string \<Rightarrow> (df_error, 'c batch list) result" where
  "fetch_batches E url sql =
     and_then (map_err ExternalError (http_post E url sql)) (\<lambda>resp.
     if \<not> (200 \<le> hr_status resp \<and> hr_status resp < 300)
     then (let body = (case hr_text resp of Inl _ \<Rightarrow> [] | Inr t \<Rightarrow> t)
           in Err (ExternalError (''executor SQL service error ('' @ hr_status_text resp @ ''): '' @ body)))
     else
       and_then (map_err ExternalError (hr_bytes resp)) (\<lambda>bytes.
       and_then (map_err ExternalError (ipc_read E bytes)) (\<lambda>reader.
       traverse (map_err ExternalError) reader)))"

definition scan_execute :: "bool \<Rightarrow> 'c scan_env \<Rightarrow> remote_scan \<Rightarrow> (df_error, 'c batch list \<times> schema) result option" where
  "scan_execute checks E sc =
     (let sql = build_sql (scalar_text E) sc;
          endpoint = ds_executor_endpoint (rs_dataset sc);
          schema = rs_schema sc
      in case parse_endpoint endpoint of
           Inl e \<Rightarrow> Some (Err e)
         | Inr (host, ballista_port) \<Rightarrow>
             (case add_checked checks ballista_port 1 of
                None \<Rightarrow> None
              | Some http_port \<Rightarrow>
                  Some (and_then (fetch_batches E (scan_url host http_port) sql) (\<lambda>batches.
                    let actual_schema = (case batches of [] \<Rightarrow> schema | b # _ \<Rightarrow> b_schema b)
                    in Ok (batches, actual_schema)))))"

section \<open>The table provider\<close>

record elan_table =
  et_dataset :: dataset_info
  et_schema :: schema

datatype filter_pushdown = Unsupported | Inexact | Exact

definition table_scan ::
  "elan_table \<Rightarrow> nat list option \<Rightarrow> expr list \<Rightarrow> 64 word option \<Rightarrow> (df_error, 'n plan) result" where
  "table_scan t projection filters limit =
     and_then (case projection of Some proj \<Rightarrow> schema_project (et_schema t) proj | None \<Rightarrow> Ok (et_schema t)) (\<lambda>projected_schema.
     Ok (RemoteTableScanExec
       \<lparr>rs_dataset = et_dataset t, rs_schema = projected_schema, rs_pushed_filters = filters, rs_limit = limit\<rparr>))"

definition supports_filters_pushdown :: "expr list \<Rightarrow> filter_pushdown list" where
  "supports_filters_pushdown filters = replicate (length filters) Inexact"

section \<open>Parsing an endpoint\<close>

lemma parse_endpoint_Ok:
  "parse_endpoint e = Ok (h, p) \<longleftrightarrow> (\<exists>t. e = h @ '':'' @ t \<and> CHR '':'' \<notin> set t \<and> parse_u16 t = Ok p)"
proof
  assume "parse_endpoint e = Ok (h, p)"
  with rsplit2_cases [of "CHR '':''" e] show "\<exists>t. e = h @ '':'' @ t \<and> CHR '':'' \<notin> set t \<and> parse_u16 t = Ok p"
    by (auto simp: parse_endpoint_def and_then_Ok)
next
  assume "\<exists>t. e = h @ '':'' @ t \<and> CHR '':'' \<notin> set t \<and> parse_u16 t = Ok p"
  then obtain t where "e = h @ '':'' @ t" "CHR '':'' \<notin> set t" "parse_u16 t = Ok p" by blast
  moreover then have "rsplit2 (CHR '':'') e = [t, h]" by (simp add: rsplit2_last)
  ultimately show "parse_endpoint e = Ok (h, p)" by (simp add: parse_endpoint_def)
qed

lemma parse_endpoint_addr: "parse_endpoint (h @ '':'' @ nat_str (unat (p :: u16))) = Ok (h, p)"
  unfolding parse_endpoint_Ok by (rule exI [of _ "nat_str (unat p)"]) (simp add: parse_u16_nat_str)

lemma add_checked_port:
  "add_checked checks (p :: u16) 1 = (if p = - 1 then (if checks then None else Some 0) else Some (p + 1))"
proof -
  have "unat p + 1 \<ge> 2 ^ 16 \<longleftrightarrow> p = - 1"
  proof
    assume "unat p + 1 \<ge> 2 ^ 16"
    moreover have "unat p < 2 ^ 16" using unsigned_less [of p] by simp
    ultimately have "unat p = 65535" by simp
    then have "unat p = unat (65535 :: u16)" by simp
    then have "p = 65535" by (rule unsigned_word_eqI)
    then show "p = - 1" by simp
  next
    assume "p = - 1"
    then have "p = 65535" by simp
    then show "unat p + 1 \<ge> 2 ^ 16" by simp
  qed
  then show ?thesis by (auto simp: add_checked_def)
qed

text \<open>
  An endpoint is the text before its last colon and the port after it: the address of any
  host, an IPv6 one included, is parsed back, and nothing else is accepted.
\<close>

theorem parse_endpoint_round_trip:
  "parse_endpoint (host @ '':'' @ nat_str (unat (port :: u16))) = Ok (host, port) \<and>
   (parse_endpoint e = Ok (h, p) \<longleftrightarrow> (\<exists>t. e = h @ '':'' @ t \<and> CHR '':'' \<notin> set t \<and> parse_u16 t = Ok p))"
  by (simp only: parse_endpoint_addr parse_endpoint_Ok simp_thms)

text \<open>
  C38. For a well-formed endpoint below the last port, \<open>execute\<close> never panics and sends the scan's SQL
  to the next port of the same host; for port 65535 it panics, or without overflow checks sends it
  to port 0.
\<close>

theorem scan_execute_target:
  assumes "ds_executor_endpoint (rs_dataset sc) = host @ '':'' @ nat_str (unat (port :: u16))"
  shows "scan_execute checks E sc =
    (if port = - 1 \<and> checks then None
     else Some (and_then (fetch_batches E (scan_url host (if port = - 1 then 0 else port + 1)) (build_sql (scalar_text E) sc))
       (\<lambda>bs. Ok (bs, case bs of [] \<Rightarrow> rs_schema sc | b # _ \<Rightarrow> b_schema b))))"
  using assms parse_endpoint_addr [of host port]
  by (simp add: scan_execute_def add_checked_port Let_def)

text \<open>A world for the witnesses: every request is answered with one batch over two columns.\<close>

definition demo_schema :: schema where
  "demo_schema =
     [\<lparr>f_name = ''id'', f_data_type = Utf8, f_nullable = True\<rparr>, \<lparr>f_name = ''name'', f_data_type = Utf8, f_nullable = True\<rparr>]"

definition demo_env :: "nat scan_env" where
  "demo_env =
     \<lparr>scalar_text = (\<lambda>v. case v of ScalarUtf8 s \<Rightarrow> s | _ \<Rightarrow> ''NULL''),
      http_post = (\<lambda>url sql. Ok \<lparr>hr_status = 200, hr_status_text = ''200 OK'', hr_text = Ok [], hr_bytes = Ok []\<rparr>),
      ipc_read = (\<lambda>bytes. Ok [Ok \<lparr>b_schema = demo_schema, b_columns = [0, 1], b_num_rows = 1\<rparr>])\<rparr>"

definition demo_table :: elan_table where
  "demo_table =
     \<lparr>et_dataset = \<lparr>ds_id = 7, ds_name = ''customers'', ds_namespace = ''crm'', ds_source_type = Csv, ds_coordinator_id = ''c1'',
        ds_executor_endpoint = ''lb:50055'', ds_schema_ipc = [], ds_metadata = JNull\<rparr>,
      et_schema = demo_schema\<rparr>"

definition demo_table_scan :: remote_scan where
  "demo_table_scan =
     \<lparr>rs_dataset = et_dataset demo_table, rs_schema = [demo_schema ! 1], rs_pushed_filters = [], rs_limit = None\<rparr>"

lemma demo_port: "nat_str 50055 = ''50055''"
  by (simp add: nat_str.simps digit_char_def char_of_conv)

theorem scan_execute_target_witness:
  "scan_execute True demo_env demo_table_scan =
     Some (Ok ([\<lparr>b_schema = demo_schema, b_columns = [0, 1], b_num_rows = 1\<rparr>], demo_schema))"
  using scan_execute_target [of demo_table_scan "''lb''" 50055 True demo_env]
  by (simp add: demo_port demo_table_scan_def demo_table_def demo_env_def fetch_batches_def)

text \<open>
  A pushed-down projection is declared and not performed: the scan of a table announces the
  projected schema, but what it streams has the schema of the executor's batches, and when that is
  the table's own schema and the projection drops or repeats a column the two differ.
\<close>

theorem projection_not_applied:
  assumes "table_scan t (Some proj) filters limit = Ok (RemoteTableScanExec sc)"
    and "length proj \<noteq> length (et_schema t)"
    and "scan_execute checks E sc = Some (Ok (b # bs, s))" and "b_schema b = et_schema t"
  shows "s = et_schema t \<and> rs_schema sc \<noteq> s"
proof -
  have "length (rs_schema sc) = length proj"
    using assms(1) by (auto simp: table_scan_def and_then_Ok schema_project_Ok)
  moreover have "s = b_schema b"
    using assms(3)
    by (auto simp: scan_execute_def Let_def and_then_Ok split: sum.splits prod.splits option.splits)
  ultimately show ?thesis using assms(2,4) by auto
qed

theorem projection_not_applied_witness:
  "\<exists>s. scan_execute True demo_env demo_table_scan =
     Some (Ok ([\<lparr>b_schema = demo_schema, b_columns = [0, 1], b_num_rows = 1\<rparr>], s)) \<and> s \<noteq> rs_schema demo_table_scan"
proof -
  have ex: "scan_execute True demo_env demo_table_scan =
      Some (Ok ([\<lparr>b_schema = demo_schema, b_columns = [0, 1], b_num_rows = 1\<rparr>], demo_schema))"
    using parse_endpoint_addr [of "''lb''" 50055]
    by (simp add: demo_port scan_execute_def add_checked_port demo_table_scan_def demo_table_def demo_env_def fetch_batches_def)
  have "table_scan demo_table (Some [1]) [] None = Ok (RemoteTableScanExec demo_table_scan)"
    by (simp add: table_scan_def demo_table_def demo_table_scan_def schema_project_def demo_schema_def)
  from projection_not_applied [OF this _ ex] show ?thesis
    using ex by (simp add: demo_table_def demo_schema_def)
qed

end
