(* ===== verification/Iam_Optimizer.thy ===== *)
theory Iam_Optimizer
  imports Iam_Engine Physical_Plan
begin

text \<open>
  The physical optimizer rule of elan-iam (\<open>optimizer.rs\<close>), which enforces the policies when a
  query is planned. The engine is the decision function it is given; the extractor is the callback
  that reads the dataset's identity from a scan node. The log lines the rule emits are left out.
\<close>

type_synonym check_fn = "subject \<Rightarrow> resource_id \<Rightarrow> string \<Rightarrow> access_decision"
type_synonym 'n extractor = "'n plan \<Rightarrow> (string \<times> string) option"

record 'n iam_filter_rule =
  rule_engine :: check_fn
  rule_subject :: subject
  rule_node_name :: string
  rule_extract :: "'n extractor"

definition iam_filter_rule_new :: "check_fn \<Rightarrow> subject \<Rightarrow> 'n iam_filter_rule" where
  "iam_filter_rule_new engine subject =
     \<lparr>rule_engine = engine, rule_subject = subject, rule_node_name = ''RemoteTableScanExec'',
      rule_extract = (\<lambda>_. None)\<rparr>"

definition with_extractor :: "'n iam_filter_rule \<Rightarrow> 'n extractor \<Rightarrow> 'n iam_filter_rule" where
  "with_extractor rule extractor = rule\<lparr>rule_extract := extractor\<rparr>"

text \<open>
  \<open>apply_iam\<close>: a scan node whose dataset the engine denies becomes an \<open>EmptyExec\<close> with its schema;
  every other node is rebuilt over its rewritten children.
\<close>

function apply_iam ::
  "'n df_ops \<Rightarrow> check_fn \<Rightarrow> subject \<Rightarrow> string \<Rightarrow> 'n extractor \<Rightarrow> 'n plan \<Rightarrow> (df_error, 'n plan) result"
where
  "apply_iam D check subject nm extr plan =
     (let denied =
        (if plan_name D plan = nm then
           (case extr plan of
              Some (ns, dataset_name) \<Rightarrow>
                (case check subject \<lparr>res_namespace = ns, res_name = dataset_name\<rparr> ''SELECT'' of
                   Deny reason \<Rightarrow> True
                 | Allow row_filter column_mask \<Rightarrow> False)
            | None \<Rightarrow> False)
         else False)
      in if denied then Ok (PlanNode (empty_exec D (plan_schema D plan)) [])
         else and_then (traverse (apply_iam D check subject nm extr) (plan_children plan))
                (with_new_children D plan))"
  by pat_completeness auto
termination
  by (relation "measure (\<lambda>(D, check, subject, nm, extr, plan). size plan)")
    (simp_all add: plan_children_size)

declare apply_iam.simps [simp del]

definition iam_optimize ::
  "'n df_ops \<Rightarrow> 'n iam_filter_rule \<Rightarrow> 'n plan \<Rightarrow> (df_error, 'n plan) result" where
  "iam_optimize D rule plan =
     apply_iam D (rule_engine rule) (rule_subject rule) (rule_node_name rule) (rule_extract rule) plan"

text \<open>The extractor that elan-query installs (\<open>session.rs\<close>): a downcast to the scan node.\<close>

fun elan_extract :: "'n extractor" where
  "elan_extract (RemoteTableScanExec sc) = Some (ds_namespace (rs_dataset sc), ds_name (rs_dataset sc))"
| "elan_extract (PlanNode _ _) = None"

section \<open>What the rule does to the scans of a plan\<close>

lemma apply_iam_scan:
  "apply_iam D check subject nm extr (RemoteTableScanExec sc) =
     (if nm = ''RemoteTableScanExec'' \<and>
         (case extr (RemoteTableScanExec sc) of
            None \<Rightarrow> False
          | Some (ns, n) \<Rightarrow> \<not> is_visible check subject ns n)
      then Ok (PlanNode (empty_exec D (rs_schema sc)) [])
      else Ok (RemoteTableScanExec sc))"
  by (subst apply_iam.simps)
    (auto simp: is_visible_def split: option.splits prod.splits access_decision.splits)

lemma apply_iam_node:
  assumes "extr (PlanNode n cs) = None"
  shows "apply_iam D check subject nm extr (PlanNode n cs) =
     and_then (traverse (apply_iam D check subject nm extr) cs) (rebuild D (PlanNode n cs))"
  using assms by (subst apply_iam.simps) simp

lemma concat_map_all2:
  "list_all2 (\<lambda>x y. f y = g x) xs ys \<Longrightarrow> concat (map f ys) = concat (map g xs)"
  by (induction rule: list_all2_induct) auto

lemma map_all2: "list_all2 (\<lambda>x y. f y = g x) xs ys \<Longrightarrow> map f ys = map g xs"
  by (induction rule: list_all2_induct) auto

lemma apply_iam_scans:
  assumes laws: "df_laws D"
    and ext: "\<And>n cs. extr (PlanNode n cs) = None"
    and scan: "\<And>sc. extr (RemoteTableScanExec sc) = ex sc"
    and res: "apply_iam D check subject ''RemoteTableScanExec'' extr p = Ok q"
  shows "plan_scans q = filter (\<lambda>sc. case ex sc of None \<Rightarrow> True | Some (ns, n) \<Rightarrow> is_visible check subject ns n) (plan_scans p)
    \<and> plan_schema D q = plan_schema D p"
  using res
proof (induction p arbitrary: q)
  case (RemoteTableScanExec sc)
  then show ?case
    by (auto simp: apply_iam_scan scan df_laws_empty [OF laws] split: if_splits option.splits)
next
  case (PlanNode n cs)
  let ?ap = "apply_iam D check subject ''RemoteTableScanExec'' extr"
  let ?keep = "\<lambda>sc. case ex sc of None \<Rightarrow> True | Some (ns, n) \<Rightarrow> is_visible check subject ns n"
  from PlanNode.prems obtain cs' where tr: "traverse ?ap cs = Ok cs'"
      and rb: "rebuild D (PlanNode n cs) cs' = Ok q"
    by (auto simp: apply_iam_node ext and_then_Ok)
  have "list_all2 (\<lambda>c c'. ?ap c = Ok c') cs cs'" using tr by (simp add: traverse_Ok_iff)
  then have "list_all2 (\<lambda>c c'. plan_scans c' = filter ?keep (plan_scans c) \<and> plan_schema D c' = plan_schema D c) cs cs'"
    using PlanNode.IH by (auto simp: list_all2_conv_all_nth)
  then have "list_all2 (\<lambda>c c'. plan_scans c' = filter ?keep (plan_scans c)) cs cs'"
    and "list_all2 (\<lambda>c c'. plan_schema D c' = plan_schema D c) cs cs'"
    by (auto elim: list_all2_mono)
  then have sc: "concat (map plan_scans cs') = concat (map (\<lambda>c. filter ?keep (plan_scans c)) cs)"
    and sch: "map (plan_schema D) cs' = map (plan_schema D) cs"
    by (auto intro: concat_map_all2 simp: map_all2)
  obtain n' where q: "q = PlanNode n' cs'" "node_schema D n' = node_schema D n"
    using df_laws_rebuild [OF laws rb] sch by metis
  show ?case using sc by (simp add: q filter_concat o_def)
qed

section \<open>Properties of the rule\<close>

definition elan_iam_rule :: "check_fn \<Rightarrow> subject \<Rightarrow> 'n iam_filter_rule" where
  "elan_iam_rule check subject = with_extractor (iam_filter_rule_new check subject) elan_extract"

lemma elan_iam_rule_optimize:
  "iam_optimize D (elan_iam_rule check subject) p =
     apply_iam D check subject ''RemoteTableScanExec'' elan_extract p"
  by (simp add: iam_optimize_def elan_iam_rule_def with_extractor_def iam_filter_rule_new_def)

lemma iam_rule_scans:
  assumes "df_laws D" and "iam_optimize D (elan_iam_rule check subject) p = Ok q"
  shows "plan_scans q =
      filter (\<lambda>sc. is_visible check subject (ds_namespace (rs_dataset sc)) (ds_name (rs_dataset sc))) (plan_scans p)"
    "plan_schema D q = plan_schema D p"
  using apply_iam_scans [OF assms(1), where extr = elan_extract and check = check and subject = subject
      and ex = "\<lambda>sc. Some (ds_namespace (rs_dataset sc), ds_name (rs_dataset sc))" and p = p and q = q] assms(2)
  by (simp_all add: elan_iam_rule_optimize)

lemma iam_rule_returns:
  assumes "\<And>p cs. \<exists>q. rebuild D p cs = Ok q"
  shows "\<exists>q. iam_optimize D (elan_iam_rule check subject) p = Ok q"
  unfolding elan_iam_rule_optimize
proof (induction p)
  case (RemoteTableScanExec sc)
  show ?case by (auto simp: apply_iam_scan)
next
  case (PlanNode n cs)
  then have "\<exists>cs'. traverse (apply_iam D check subject ''RemoteTableScanExec'' elan_extract) cs = Ok cs'"
    by (simp add: traverse_ex_Ok)
  then obtain cs' where "traverse (apply_iam D check subject ''RemoteTableScanExec'' elan_extract) cs = Ok cs'" ..
  with assms show ?case by (simp add: apply_iam_node)
qed

text \<open>
  C7. The rule as elan-query installs it leaves exactly the scans of the datasets the subject may
  SELECT from, in their order, and keeps the schema of the plan.
\<close>

theorem iam_rule_enforces:
  assumes "df_laws D" and "iam_optimize D (elan_iam_rule check subject) p = Ok q"
  shows "plan_scans q =
           filter (\<lambda>sc. is_visible check subject (ds_namespace (rs_dataset sc)) (ds_name (rs_dataset sc))) (plan_scans p)
         \<and> plan_schema D q = plan_schema D p"
  using iam_rule_scans [OF assms] by blast

definition demo_scan :: "string \<Rightarrow> string \<Rightarrow> remote_scan" where
  "demo_scan ns n =
     \<lparr>rs_dataset = \<lparr>ds_id = 7, ds_name = n, ds_namespace = ns, ds_source_type = Csv, ds_coordinator_id = ''c1'',
        ds_executor_endpoint = ''lb:50055'', ds_schema_ipc = [], ds_metadata = JNull\<rparr>,
      rs_schema = [\<lparr>f_name = ''id'', f_data_type = Utf8, f_nullable = True\<rparr>],
      rs_pushed_filters = [], rs_limit = None\<rparr>"

definition demo_join :: "(string \<times> schema) plan" where
  "demo_join = PlanNode (''HashJoinExec'', [])
     [RemoteTableScanExec (demo_scan ''crm'' ''customers''), RemoteTableScanExec (demo_scan ''finance'' ''transactions'')]"

abbreviation demo_check :: check_fn where
  "demo_check \<equiv> snapshot_check demo_libs [demo_deny, demo_allow]"

lemma demo_visible [simp]:
  "is_visible demo_check (demo_subject ''bob'') ''crm'' ''customers''"
  "\<not> is_visible demo_check (demo_subject ''bob'') ''finance'' ''transactions''"
  by (simp_all add: is_visible_def snapshot_allowed_iff demo_policy_defs matching_defs)

lemma demo_optimize:
  "iam_optimize demo_ops (elan_iam_rule demo_check (demo_subject ''bob'')) demo_join =
     Ok (PlanNode (''HashJoinExec'', [])
       [RemoteTableScanExec (demo_scan ''crm'' ''customers''),
        PlanNode (''EmptyExec'', rs_schema (demo_scan ''finance'' ''transactions'')) []])"
  by (simp add: elan_iam_rule_optimize demo_join_def apply_iam_node apply_iam_scan demo_ops_def)
    (simp add: demo_scan_def)

theorem iam_rule_enforces_witness:
  "\<exists>q. iam_optimize demo_ops (elan_iam_rule demo_check (demo_subject ''bob'')) demo_join = Ok q \<and>
       plan_scans q = [demo_scan ''crm'' ''customers''] \<and> plan_schema demo_ops q = plan_schema demo_ops demo_join"
  using iam_rule_enforces [OF demo_df_laws demo_optimize] demo_optimize by simp

text \<open>The operators and scans of a plan, from the top.\<close>

fun subplans :: "'n plan \<Rightarrow> 'n plan list" where
  "subplans (RemoteTableScanExec sc) = [RemoteTableScanExec sc]"
| "subplans (PlanNode n cs) = PlanNode n cs # concat (map subplans cs)"

lemma iam_rule_fails_at:
  assumes "df_laws D" "iam_optimize D (elan_iam_rule check subject) p = Err e"
  shows "\<exists>n cs cs'. PlanNode n cs \<in> set (subplans p) \<and>
    list_all2 (\<lambda>c c'. iam_optimize D (elan_iam_rule check subject) c = Ok c') cs cs' \<and>
    map (plan_schema D) cs' = map (plan_schema D) cs \<and> rebuild D (PlanNode n cs) cs' = Err e"
  using assms(2)
proof (induction p)
  case (RemoteTableScanExec sc)
  then show ?case by (auto simp: elan_iam_rule_optimize apply_iam_scan split: if_splits)
next
  case (PlanNode n cs)
  let ?opt = "iam_optimize D (elan_iam_rule check subject)"
  have step: "?opt (PlanNode n cs) = and_then (traverse ?opt cs) (rebuild D (PlanNode n cs))"
    using apply_iam_node [of elan_extract n cs D check subject "''RemoteTableScanExec''"]
    by (simp add: elan_iam_rule_optimize [abs_def])
  show ?case
  proof (cases "traverse ?opt cs")
    case (Inl e')
    then obtain c where c: "c \<in> set cs" "?opt c = Err e" using PlanNode.prems step traverse_Err [of ?opt cs e'] by auto
    from PlanNode.IH [OF this] obtain n' ds ds' where *: "PlanNode n' ds \<in> set (subplans c)"
      "list_all2 (\<lambda>c c'. ?opt c = Ok c') ds ds'" "map (plan_schema D) ds' = map (plan_schema D) ds" "rebuild D (PlanNode n' ds) ds' = Err e"
      by blast
    then have "PlanNode n' ds \<in> set (subplans (PlanNode n cs))" using c(1) by auto
    with * show ?thesis by blast
  next
    case (Inr cs')
    then have all2: "list_all2 (\<lambda>c c'. ?opt c = Ok c') cs cs'" by (simp add: traverse_Ok_iff)
    then have "list_all2 (\<lambda>c c'. plan_schema D c' = plan_schema D c) cs cs'"
      by (rule list_all2_mono) (rule iam_rule_scans(2) [OF assms(1)])
    then have "map (plan_schema D) cs' = map (plan_schema D) cs" by (rule map_all2)
    moreover have "rebuild D (PlanNode n cs) cs' = Err e" using PlanNode.prems step Inr by simp
    moreover have "PlanNode n cs \<in> set (subplans (PlanNode n cs))" by simp
    ultimately show ?thesis using all2 by blast
  qed
qed

text \<open>
  C30. There is no way past the rule: it either returns a plan with exactly the scans that the subject may SELECT from and the
  schema of the original, or an error with which DataFusion refused to put an operator of the plan over its children after the
  rule, as many as before, each with its schema and with its permitted scans only. The rule itself has no error of its own.
\<close>

theorem iam_rule_outcome:
  assumes "df_laws D"
  shows "case iam_optimize D (elan_iam_rule check subject) p of
      Inr q \<Rightarrow> plan_scans q =
           filter (\<lambda>sc. is_visible check subject (ds_namespace (rs_dataset sc)) (ds_name (rs_dataset sc))) (plan_scans p)
         \<and> plan_schema D q = plan_schema D p
    | Inl e \<Rightarrow> \<exists>n cs cs'. PlanNode n cs \<in> set (subplans p) \<and> rebuild D (PlanNode n cs) cs' = Err e \<and>
         map (plan_schema D) cs' = map (plan_schema D) cs \<and>
         map plan_scans cs' = map (\<lambda>c. filter (\<lambda>sc. is_visible check subject (ds_namespace (rs_dataset sc)) (ds_name (rs_dataset sc)))
           (plan_scans c)) cs"
proof (cases "iam_optimize D (elan_iam_rule check subject) p")
  case (Inl e)
  from iam_rule_fails_at [OF assms this] obtain n cs cs' where fail: "PlanNode n cs \<in> set (subplans p)"
    "list_all2 (\<lambda>c c'. iam_optimize D (elan_iam_rule check subject) c = Ok c') cs cs'"
    "map (plan_schema D) cs' = map (plan_schema D) cs" "rebuild D (PlanNode n cs) cs' = Err e"
    by blast
  have "map plan_scans cs' = map (\<lambda>c. filter (\<lambda>sc. is_visible check subject (ds_namespace (rs_dataset sc)) (ds_name (rs_dataset sc)))
      (plan_scans c)) cs"
    by (rule map_all2, rule list_all2_mono [OF fail(2)]) (rule iam_rule_scans(1) [OF assms])
  then show ?thesis using Inl fail by auto
qed (use iam_rule_scans [OF assms] in simp)

text \<open>Operators of which none can be rebuilt.\<close>

definition demo_stuck :: "(string \<times> schema) df_ops" where
  "demo_stuck = demo_ops\<lparr>rebuild := (\<lambda>p cs. Err (PlanError ''wrong children''))\<rparr>"

theorem iam_rule_outcome_witness:
  "\<exists>n cs cs'. PlanNode n cs \<in> set (subplans demo_join) \<and> rebuild demo_stuck (PlanNode n cs) cs' = Err (PlanError ''wrong children'') \<and>
     map plan_scans cs' = map (\<lambda>c. filter (\<lambda>sc. is_visible demo_check (demo_subject ''bob'') (ds_namespace (rs_dataset sc)) (ds_name (rs_dataset sc)))
       (plan_scans c)) cs"
proof -
  have "df_laws demo_stuck" by (simp add: df_laws_def demo_stuck_def demo_ops_def)
  moreover have "iam_optimize demo_stuck (elan_iam_rule demo_check (demo_subject ''bob'')) demo_join = Err (PlanError ''wrong children'')"
    by (simp add: elan_iam_rule_optimize demo_join_def apply_iam_node apply_iam_scan demo_stuck_def)
  ultimately show ?thesis using iam_rule_outcome [where D = demo_stuck and check = demo_check and p = demo_join and subject = "demo_subject ''bob''"] by auto
qed

text \<open>
  C31. The rule looks at nothing of a decision but whether it is a grant: two engines that grant the
  same accesses give the same plans, whatever row filters and column masks they attach. A policy's
  row filter is therefore never applied to a scan.
\<close>

theorem iam_rule_ignores_filters:
  assumes "\<And>s r a. is_allowed (check s r a) = is_allowed (check' s r a)"
  shows "iam_optimize D (elan_iam_rule check subject) p = iam_optimize D (elan_iam_rule check' subject) p"
  unfolding elan_iam_rule_optimize
proof (induction p)
  case (RemoteTableScanExec sc)
  show ?case by (simp add: apply_iam_scan is_visible_def assms)
next
  case (PlanNode n cs)
  then have "traverse (apply_iam D check subject ''RemoteTableScanExec'' elan_extract) cs =
      traverse (apply_iam D check' subject ''RemoteTableScanExec'' elan_extract) cs"
    by (intro traverse_cong) auto
  then show ?case by (simp add: apply_iam_node)
qed

theorem iam_rule_ignores_filters_witness:
  "iam_optimize demo_ops (elan_iam_rule (\<lambda>s r a. Allow (Some ''amount = 0'') None) (demo_subject ''bob'')) demo_join =
   iam_optimize demo_ops (elan_iam_rule (allow_all_check ()) (demo_subject ''bob'')) demo_join"
  by (rule iam_rule_ignores_filters) (simp add: allow_all_check_def)

text \<open>Without an extractor the rule changes no scan, so installing it is what enforces the policies.\<close>

lemma iam_rule_default_extractor:
  assumes "df_laws D" and "iam_optimize D (iam_filter_rule_new check subject) p = Ok q"
  shows "plan_scans q = plan_scans p"
  using apply_iam_scans [OF assms(1), where extr = "\<lambda>_. None" and ex = "\<lambda>_. None" and check = check
      and subject = subject and p = p and q = q] assms(2)
  by (simp add: iam_optimize_def iam_filter_rule_new_def)

end
