(* ===== verification/Query_Catalog.thy ===== *)
theory Query_Catalog
  imports Remote_Scan Iam_Optimizer Central_Catalog
begin

text \<open>
  elan-query's catalog (\<open>catalog/provider.rs\<close>): the schema provider of one namespace, a cache of
  tables in front of elan-central's catalog service, and the catalog provider over the namespaces.
  A \<open>HashMap\<close> is a map, and the keys it enumerates are a set. The engine's \<open>check\<close>, the subject and
  the service's \<open>get\<close> are arguments; \<open>ipc_schema\<close> is Arrow's reader of a schema message.
\<close>

section \<open>Decoding a dataset\<close>

definition dataset_of_proto :: "libs \<Rightarrow> dataset_proto \<Rightarrow> dataset_info store_result" where
  "dataset_of_proto L p =
     and_then (ok_or (BadUuid (dp_dataset_id p)) (uuid_parse L (dp_dataset_id p))) (\<lambda>i.
     and_then (map_err BadSourceType (source_type_try_from (dp_source_type p))) (\<lambda>st.
     Ok \<lparr>ds_id = i, ds_name = dp_name p, ds_namespace = dp_namespace p, ds_source_type = st,
         ds_coordinator_id = dp_coordinator_id p, ds_executor_endpoint = dp_executor_endpoint p,
         ds_schema_ipc = dp_arrow_schema_ipc p,
         ds_metadata = (case json_parse L (dp_metadata_json p) of None \<Rightarrow> JNull | Some v \<Rightarrow> v)\<rparr>))"

definition decode_schema :: "(u8 list \<Rightarrow> (string, schema) result) \<Rightarrow> u8 list \<Rightarrow> (string, schema) result" where
  "decode_schema ipc_schema ipc_bytes =
     (if ipc_bytes = [] \<or> ipc_bytes = [0, 0, 0, 0] \<or> length ipc_bytes < 8 then Ok [] else ipc_schema ipc_bytes)"

definition elan_table_of :: "(u8 list \<Rightarrow> (string, schema) result) \<Rightarrow> dataset_info \<Rightarrow> elan_table" where
  "elan_table_of ipc_schema ds =
     \<lparr>et_dataset = ds,
      et_schema = (case decode_schema ipc_schema (ds_schema_ipc ds) of Inl _ \<Rightarrow> [] | Inr s \<Rightarrow> s)\<rparr>"

section \<open>The schema provider\<close>

record schema_provider =
  sv_namespace :: string
  sv_datasets :: "string \<rightharpoonup> elan_table"

definition schema_provider_new ::
  "(u8 list \<Rightarrow> (string, schema) result) \<Rightarrow> string \<Rightarrow> dataset_info list \<Rightarrow> schema_provider" where
  "schema_provider_new ipc_schema ns ds_list =
     \<lparr>sv_namespace = ns,
      sv_datasets = foldl (\<lambda>m ds. m(ds_name ds \<mapsto> elan_table_of ipc_schema ds)) Map.empty ds_list\<rparr>"

definition table_names :: "check_fn \<Rightarrow> subject \<Rightarrow> schema_provider \<Rightarrow> string set" where
  "table_names check subject sp = {name \<in> dom (sv_datasets sp). is_visible check subject (sv_namespace sp) name}"

definition sp_table ::
  "libs \<Rightarrow> (u8 list \<Rightarrow> (string, schema) result) \<Rightarrow> (string \<Rightarrow> string \<Rightarrow> (status, dataset_proto) result) \<Rightarrow>
   check_fn \<Rightarrow> subject \<Rightarrow> string \<Rightarrow> schema_provider \<Rightarrow> (df_error, elan_table option) result \<times> schema_provider" where
  "sp_table L ipc_schema remote_get check subject name sp =
     (if \<not> is_visible check subject (sv_namespace sp) name then (Ok None, sp)
      else case sv_datasets sp name of
             Some provider \<Rightarrow> (Ok (Some provider), sp)
           | None \<Rightarrow>
               (case remote_get (sv_namespace sp) name of
                  Inr proto \<Rightarrow>
                    (case dataset_of_proto L proto of
                       Inl e \<Rightarrow> (Err (ExternalError (store_error_text L e)), sp)
                     | Inr ds \<Rightarrow>
                         (let provider = elan_table_of ipc_schema ds
                          in (Ok (Some provider), sp\<lparr>sv_datasets := (sv_datasets sp)(name \<mapsto> provider)\<rparr>)))
                | Inl st \<Rightarrow>
                    if status_code st = CodeNotFound then (Ok None, sp)
                    else (Err (ExternalError (status_text L st)), sp)))"

definition table_exist :: "string \<Rightarrow> schema_provider \<Rightarrow> bool" where
  "table_exist name sp = (sv_datasets sp name \<noteq> None)"

section \<open>The catalog provider\<close>

type_synonym catalog_provider = "string \<rightharpoonup> schema_provider"

definition schema_names :: "catalog_provider \<Rightarrow> string set" where
  "schema_names cat = dom cat"

definition catalog_schema :: "catalog_provider \<Rightarrow> string \<Rightarrow> schema_provider option" where
  "catalog_schema cat name = cat name"

text \<open>A provider of another type than elan's (\<open>None\<close> here) is refused.\<close>

definition register_schema ::
  "string \<Rightarrow> schema_provider option \<Rightarrow> catalog_provider \<Rightarrow> (df_error, schema_provider option) result \<times> catalog_provider" where
  "register_schema name sp cat =
     (case sp of
        None \<Rightarrow> (Err (PlanError ''expected ElanSchemaProvider''), cat)
      | Some provider \<Rightarrow> (Ok (cat name), cat(name \<mapsto> provider)))"

section \<open>The invariant of the cache\<close>

text \<open>Every cached table is that of the dataset its key and its provider's namespace name.\<close>

definition provider_inv :: "schema_provider \<Rightarrow> bool" where
  "provider_inv sp \<longleftrightarrow>
     (\<forall>name t. sv_datasets sp name = Some t \<longrightarrow>
        ds_name (et_dataset t) = name \<and> ds_namespace (et_dataset t) = sv_namespace sp)"

lemma elan_table_of_dataset [simp]: "et_dataset (elan_table_of ipc_schema ds) = ds"
  by (simp add: elan_table_of_def)

lemma schema_provider_new_inv:
  assumes "\<forall>ds \<in> set ds_list. ds_namespace ds = ns"
  shows "provider_inv (schema_provider_new ipc_schema ns ds_list)"
proof -
  have "provider_inv \<lparr>sv_namespace = ns, sv_datasets = foldl (\<lambda>m ds. m(ds_name ds \<mapsto> elan_table_of ipc_schema ds)) m ds_list\<rparr>"
    if "provider_inv \<lparr>sv_namespace = ns, sv_datasets = m\<rparr>" for m
    using assms that
  proof (induction ds_list arbitrary: m)
    case (Cons d ds_list)
    have d: "ds_namespace d = ns" and ds: "\<forall>ds \<in> set ds_list. ds_namespace ds = ns" using Cons.prems(1) by simp_all
    have "provider_inv \<lparr>sv_namespace = ns, sv_datasets = m(ds_name d \<mapsto> elan_table_of ipc_schema d)\<rparr>"
      using d Cons.prems(2) unfolding provider_inv_def by simp
    from Cons.IH [OF ds this] show ?case by (simp only: foldl.simps)
  qed simp
  from this [of Map.empty] show ?thesis by (simp add: schema_provider_new_def provider_inv_def)
qed

lemma dataset_of_proto_sel:
  assumes "dataset_of_proto L p = Ok d"
  shows "ds_namespace d = dp_namespace p" "ds_name d = dp_name p" "ds_executor_endpoint d = dp_executor_endpoint p"
  using assms by (auto simp: dataset_of_proto_def and_then_Ok)

text \<open>The lemmas of the provider over any catalog service.\<close>

context catalog_service
begin

lemma sp_table_inv:
  assumes "provider_inv sp"
  shows "provider_inv (snd (sp_table L ipc_schema get check subject name sp))"
  using assms get_key [of "sv_namespace sp" name]
  by (auto simp: sp_table_def provider_inv_def Let_def dataset_of_proto_sel split: sum.splits option.splits)

lemma sp_table_namespace [simp]:
  "sv_namespace (snd (sp_table L ipc_schema get check subject name sp)) = sv_namespace sp"
  by (auto simp: sp_table_def Let_def split: sum.splits option.splits)

lemma sp_table_Some:
  assumes "provider_inv sp" and "fst (sp_table L ipc_schema get check subject name sp) = Ok (Some t)"
  shows "is_visible check subject (sv_namespace sp) name"
    "ds_namespace (et_dataset t) = sv_namespace sp" "ds_name (et_dataset t) = name"
  using assms get_key [of "sv_namespace sp" name]
  by (auto simp: sp_table_def provider_inv_def Let_def dataset_of_proto_sel split: sum.splits option.splits if_splits)

lemma sp_table_repeat:
  assumes "fst (sp_table L ipc_schema get check subject name sp) = Ok (Some t)"
  shows "sp_table L ipc_schema get' check subject name (snd (sp_table L ipc_schema get check subject name sp)) =
    (Ok (Some t), snd (sp_table L ipc_schema get check subject name sp))"
  using assms by (auto simp: sp_table_def Let_def split: sum.splits option.splits if_splits)

lemma scan_survives:
  assumes "provider_inv sp" and "fst (sp_table L ipc_schema get check subject name sp) = Ok (Some t)"
    and "table_scan t projection filters limit = Ok p"
  shows "iam_optimize D (elan_iam_rule check subject) p = Ok p"
proof -
  obtain sc where "p = RemoteTableScanExec sc" "rs_dataset sc = et_dataset t"
    using assms(3) by (auto simp: table_scan_def and_then_Ok)
  with sp_table_Some [OF assms(1,2)] show ?thesis
    by (simp add: elan_iam_rule_optimize apply_iam_scan)
qed

end

section \<open>Properties of the catalog\<close>

lemma dataset_proto_round_trip:
  "uuid_codec L \<Longrightarrow> json_codec L \<Longrightarrow> dataset_of_proto L (dataset_to_proto L d) = Ok d"
  by (simp add: dataset_of_proto_def dataset_to_proto_def uuid_codecD json_codecD)

text \<open>
  C35. Whatever elan-central's catalog has gone through, a table that the schema provider resolves
  is one the subject may SELECT from, it is the dataset that was named, and the scan planned from it
  passes the IAM rule unchanged.
\<close>

theorem resolved_tables_allowed:
  assumes "provider_inv sp"
    and "fst (sp_table L ipc_schema (svc_get_dataset L (run catalog_step (empty_catalog fk) ops)) check subject name sp) = Ok (Some t)"
    and "table_scan t projection filters limit = Ok p"
  shows "is_visible check subject (sv_namespace sp) name
    \<and> (ds_namespace (et_dataset t), ds_name (et_dataset t)) = (sv_namespace sp, name)
    \<and> iam_optimize D (elan_iam_rule check subject) p = Ok p"
  using central_catalog.sp_table_Some [OF assms(1,2)] central_catalog.scan_survives [OF assms] by simp

definition demo_provider :: schema_provider where
  "demo_provider = schema_provider_new (\<lambda>_. Ok []) ''crm'' [et_dataset demo_table]"

lemma demo_provider_inv: "provider_inv demo_provider"
  unfolding demo_provider_def by (rule schema_provider_new_inv) (simp add: demo_table_def)

lemma demo_provider_sel:
  "sv_namespace demo_provider = ''crm''"
  "sv_datasets demo_provider = [''customers'' \<mapsto> elan_table_of (\<lambda>_. Ok []) (et_dataset demo_table)]"
  by (simp_all add: demo_provider_def schema_provider_new_def demo_table_def)

theorem resolved_tables_allowed_witness:
  "\<exists>t p. fst (sp_table demo_libs (\<lambda>_. Ok []) (svc_get_dataset demo_libs demo_catalog) demo_check (demo_subject ''bob'') ''customers'' demo_provider)
      = Ok (Some t) \<and> table_scan t None [] None = Ok p \<and>
     iam_optimize demo_ops (elan_iam_rule demo_check (demo_subject ''bob'')) p = Ok p"
proof -
  let ?t = "elan_table_of (\<lambda>_. Ok []) (et_dataset demo_table)"
  have t: "fst (sp_table demo_libs (\<lambda>_. Ok []) (svc_get_dataset demo_libs (run catalog_step (empty_catalog True) demo_catalog_ops))
      demo_check (demo_subject ''bob'') ''customers'' demo_provider) = Ok (Some ?t)"
    by (simp add: sp_table_def demo_provider_sel)
  obtain p where p: "table_scan ?t None [] None = Ok (p :: (string \<times> schema) plan)"
    by (simp add: table_scan_def)
  from resolved_tables_allowed [OF demo_provider_inv t p, of demo_ops] t p show ?thesis
    unfolding demo_catalog_def by blast
qed

text \<open>
  On a cache miss the provider's answer is elan-central's record, bit for bit: the dataset the
  store holds, no table when it has none, an error when the store's row does not decode.
\<close>

theorem fetched_table_is_stored:
  assumes "uuid_codec L" "json_codec L"
    and "is_visible check subject (sv_namespace sp) name" and "\<not> table_exist name sp"
  shows "fst (sp_table L ipc_schema (svc_get_dataset L db) check subject name sp) =
    (case get_dataset L (sv_namespace sp) name db of
       Inl e \<Rightarrow> Err (ExternalError (status_text L (status_internal (store_error_text L e))))
     | Inr None \<Rightarrow> Ok None
     | Inr (Some d) \<Rightarrow> Ok (Some (elan_table_of ipc_schema d)))"
  using assms dataset_proto_round_trip [OF assms(1,2)]
  by (auto simp: sp_table_def table_exist_def svc_get_dataset_def internal_error_def map_err_def and_then_def ok_or_def
      status_internal_def status_not_found_def Let_def split: sum.splits option.splits)

theorem fetched_table_is_stored_witness:
  "fst (sp_table demo_libs (\<lambda>_. Ok []) (svc_get_dataset demo_libs demo_catalog) (allow_all_check ()) (demo_subject ''bob'') ''orders''
     demo_provider) = Ok (Some (elan_table_of (\<lambda>_. Ok []) (demo_dataset 8 ''crm'' ''orders'' Parquet)))"
proof -
  have "get_dataset demo_libs ''crm'' ''orders'' demo_catalog = Ok (Some (demo_dataset 8 ''crm'' ''orders'' Parquet))"
    by (simp add: live_rows_filter live_row_def demo_catalog_rows new_row_def endpoint_of_def
      row_to_dataset_def demo_libs_def char_digit_def demo_dataset_def source_type_try_from_def get_dataset_def)
  then show ?thesis
    using fetched_table_is_stored [OF demo_uuid_codec demo_json_codec, of "allow_all_check ()" "demo_subject ''bob''" demo_provider "''orders''"
        "\<lambda>_. Ok []" demo_catalog]
    by (simp add: demo_provider_sel table_exist_def is_visible_def allow_all_check_def)
qed

text \<open>
  A denied dataset is hidden from the resolution of tables and from their listing, and still
  reported by \<open>table_exist\<close> as soon as it is in the cache, for every subject.
\<close>

theorem denied_table_still_exists:
  assumes "ds \<in> set ds_list" and "\<not> is_visible check subject ns (ds_name ds)"
  shows "let sp = schema_provider_new ipc_schema ns ds_list
    in sp_table L ipc_schema remote_get check subject (ds_name ds) sp = (Ok None, sp)
     \<and> ds_name ds \<notin> table_names check subject sp \<and> table_exist (ds_name ds) sp"
proof -
  have "dom (foldl (\<lambda>m ds. m(ds_name ds \<mapsto> elan_table_of ipc_schema ds)) m xs) = dom m \<union> ds_name ` set xs" for m xs
    by (induction xs arbitrary: m) auto
  then have "ds_name ds \<in> dom (sv_datasets (schema_provider_new ipc_schema ns ds_list))"
    using assms(1) by (simp add: schema_provider_new_def)
  then show ?thesis
    using assms(2) by (auto simp: Let_def sp_table_def table_names_def table_exist_def schema_provider_new_def)
qed

theorem denied_table_still_exists_witness:
  "table_exist ''transactions'' (schema_provider_new (\<lambda>_. Ok []) ''finance'' [rs_dataset (demo_scan ''finance'' ''transactions'')])"
  using denied_table_still_exists [of "rs_dataset (demo_scan ''finance'' ''transactions'')"
      "[rs_dataset (demo_scan ''finance'' ''transactions'')]" demo_check "demo_subject ''bob''" "''finance''" "\<lambda>_. Ok []"]
  by (simp add: demo_scan_def Let_def)

end
