(* ===== verification/Query_Session.thy ===== *)
theory Query_Session
  imports Query_Catalog Central_Iam
begin

text \<open>
  elan-query's session factory (\<open>session.rs\<close>): loading the policies and the datasets from
  elan-central, the background refresh, and the session it builds for a user. An answer of a
  streaming call is an error or the list of its items, each of which may itself be an error. Fresh
  identifiers are an argument.
\<close>

section \<open>Loading\<close>

type_synonym 'a stream_answer = "(status, (status, 'a) result list) result"

definition policy_of_proto :: "libs \<Rightarrow> uuid \<Rightarrow> policy_proto \<Rightarrow> policy" where
  "policy_of_proto L fresh p =
     \<lparr>pol_id = (case uuid_parse L (pp_policy_id p) of Some i \<Rightarrow> i | None \<Rightarrow> fresh),
      pol_subject_name = pp_subject_name p,
      pol_subject_type = (if pp_subject_type p = ''group'' then SubjectGroup else SubjectUser),
      pol_resource_pattern = pp_resource_pattern p, pol_action = pp_action p,
      pol_effect = (if pp_effect p = 1 then EffectDeny else EffectAllow),
      pol_row_filter = (if pp_row_filter p = [] then None else Some (pp_row_filter p)),
      pol_column_mask_json = (if pp_column_mask_json p = [] then None else Some (pp_column_mask_json p)),
      pol_priority = pp_priority p\<rparr>"

definition load_iam_policies :: "libs \<Rightarrow> (nat \<Rightarrow> uuid) \<Rightarrow> policy_proto stream_answer \<Rightarrow> (status, policy list) result" where
  "load_iam_policies L fresh answer =
     and_then answer (\<lambda>items.
     traverse (\<lambda>(i, item). and_then item (\<lambda>proto. Ok (policy_of_proto L (fresh i) proto))) (List.enumerate 0 items))"

datatype load_error = LoadStatus status | LoadDecode store_error

definition push_dataset :: "(string \<rightharpoonup> dataset_info list) \<Rightarrow> dataset_info \<Rightarrow> (string \<rightharpoonup> dataset_info list)" where
  "push_dataset by_ns ds =
     by_ns(ds_namespace ds \<mapsto> (case by_ns (ds_namespace ds) of None \<Rightarrow> [] | Some l \<Rightarrow> l) @ [ds])"

definition load_datasets ::
  "libs \<Rightarrow> dataset_proto stream_answer \<Rightarrow> (load_error, string \<rightharpoonup> dataset_info list) result" where
  "load_datasets L answer =
     and_then (map_err LoadStatus answer) (\<lambda>items.
     and_then
       (traverse (\<lambda>item. and_then (map_err LoadStatus item) (\<lambda>proto. map_err LoadDecode (dataset_of_proto L proto))) items)
       (\<lambda>ds. Ok (foldl push_dataset Map.empty ds)))"

section \<open>The factory\<close>

record session_factory =
  sf_engine :: snapshot_engine
  sf_datasets :: "string \<rightharpoonup> dataset_info list"

text \<open>A failure to load the policies leaves an engine without policies; one to load the datasets is fatal.\<close>

definition session_factory_new ::
  "libs \<Rightarrow> (nat \<Rightarrow> uuid) \<Rightarrow> dataset_proto stream_answer \<Rightarrow> policy_proto stream_answer \<Rightarrow>
   (load_error, session_factory) result" where
  "session_factory_new L fresh datasets_answer policies_answer =
     and_then (load_datasets L datasets_answer) (\<lambda>by_ns.
     let policies = (case load_iam_policies L fresh policies_answer of Inl _ \<Rightarrow> [] | Inr ps \<Rightarrow> ps)
     in Ok \<lparr>sf_engine = policies, sf_datasets = by_ns\<rparr>)"

text \<open>One tick of the background task, with elan-central's answer.\<close>

definition refresh_tick :: "libs \<Rightarrow> session_factory \<Rightarrow> dataset_proto stream_answer \<Rightarrow> session_factory" where
  "refresh_tick L sf answer =
     (case load_datasets L answer of
        Inl _ \<Rightarrow> sf
      | Inr fresh \<Rightarrow> sf\<lparr>sf_datasets := fresh\<rparr>)"

section \<open>The session of a user\<close>

record 'n session_context =
  sx_default_catalog :: string
  sx_default_schema :: string
  sx_catalogs :: "string \<rightharpoonup> catalog_provider"
  sx_rule :: "'n iam_filter_rule"

definition build_for_user ::
  "libs \<Rightarrow> (u8 list \<Rightarrow> (string, schema) result) \<Rightarrow> session_factory \<Rightarrow> subject \<Rightarrow> 'n session_context" where
  "build_for_user L ipc_schema sf subject =
     (let schemas = (\<lambda>ns. map_option (schema_provider_new ipc_schema ns) (sf_datasets sf ns));
          rule = with_extractor (iam_filter_rule_new (snapshot_check L (sf_engine sf)) subject) elan_extract
      in \<lparr>sx_default_catalog = ''elan'', sx_default_schema = ''public'',
          sx_catalogs = [''elan'' \<mapsto> schemas], sx_rule = rule\<rparr>)"

section \<open>Lemmas\<close>

lemma build_for_user_rule [simp]:
  "sx_rule (build_for_user L ipc_schema sf subject) = elan_iam_rule (snapshot_check L (sf_engine sf)) subject"
  by (simp add: build_for_user_def elan_iam_rule_def Let_def)

lemma traverse_map: "traverse f (map g xs) = traverse (f \<circ> g) xs"
  by (induction xs) (auto split: sum.split)

lemma load_policies_all:
  assumes "\<And>u p. p \<in> set ps \<Longrightarrow> policy_of_proto L u p = g p"
  shows "load_iam_policies L fresh (Ok (map Ok ps)) = Ok (map g ps)"
proof -
  have "traverse (\<lambda>(i, item). and_then item (\<lambda>proto. Ok (policy_of_proto L (fresh i) proto)))
      (List.enumerate n (map Ok ps)) = Ok (map g ps)" for n
    using assms by (induction ps arbitrary: n) simp_all
  then show ?thesis by (simp add: load_iam_policies_def)
qed

lemma push_datasets:
  "foldl push_dataset m ds ns =
     (case m ns of
        None \<Rightarrow> if filter (\<lambda>d. ds_namespace d = ns) ds = [] then None else Some (filter (\<lambda>d. ds_namespace d = ns) ds)
      | Some l \<Rightarrow> Some (l @ filter (\<lambda>d. ds_namespace d = ns) ds))"
  by (induction ds arbitrary: m) (auto simp: push_dataset_def split: option.splits)

lemma load_datasets_Ok:
  "load_datasets L (Ok (map Ok protos)) = Ok by_ns \<longleftrightarrow>
     (\<exists>ds. traverse (dataset_of_proto L) protos = Ok ds \<and> by_ns = foldl push_dataset Map.empty ds)"
proof -
  have "traverse (\<lambda>proto. map_err LoadDecode (dataset_of_proto L proto)) ps = Ok ds \<longleftrightarrow>
      traverse (dataset_of_proto L) ps = Ok ds" for ps and ds :: "dataset_info list"
    by (simp add: traverse_Ok_iff)
  then show ?thesis by (auto simp: load_datasets_def and_then_Ok traverse_map o_def)
qed

text \<open>The stream that elan-central's handler sends.\<close>

definition answer_of :: "(status, 'a list) result \<Rightarrow> 'a stream_answer" where
  "answer_of r = and_then r (\<lambda>xs. Ok (map Ok xs))"

lemma load_datasets_central:
  assumes "uuid_codec L" "json_codec L"
  shows "load_datasets L (answer_of (svc_list_datasets L db [])) =
    (case list_datasets L None db of
       Inl e \<Rightarrow> Err (LoadStatus (status_internal (store_error_text L e)))
     | Inr ds \<Rightarrow> Ok (foldl push_dataset Map.empty ds))"
proof (cases "list_datasets L None db")
  case (Inl e)
  then show ?thesis by (simp add: load_datasets_def answer_of_def svc_list_datasets_def internal_error_def)
next
  case (Inr ds)
  have "traverse (dataset_of_proto L) (map (dataset_to_proto L) ds) = Ok ds"
    using traverse_total [of ds "dataset_of_proto L \<circ> dataset_to_proto L" id] assms
    by (simp add: traverse_map dataset_proto_round_trip)
  then have "load_datasets L (Ok (map Ok (map (dataset_to_proto L) ds))) = Ok (foldl push_dataset Map.empty ds)"
    unfolding load_datasets_Ok by blast
  with Inr show ?thesis by (simp add: answer_of_def svc_list_datasets_def internal_error_def)
qed

text \<open>The policies the database holds have no empty filters, because the service stores those as NULL.\<close>

definition no_empty_filters :: "iam_db \<Rightarrow> bool" where
  "no_empty_filters db \<longleftrightarrow>
     (\<forall>p \<in> set (iam_policies db). pr_row_filter p \<noteq> Some [] \<and> pr_column_mask_json p \<noteq> Some [])"

lemma no_empty_filters_rows:
  "no_empty_filters db \<Longrightarrow> (p, s) \<in> set (policy_rows db) \<Longrightarrow> pr_row_filter p \<noteq> Some [] \<and> pr_column_mask_json p \<noteq> Some []"
  by (simp add: no_empty_filters_def in_policy_rows)

lemma get_or_create_policies: "iam_policies (snd (get_or_create_subject L f t n db)) = iam_policies db"
  by (cases "get_or_create_subject L f t n db") (simp add: get_or_create_grows(2))

lemma no_empty_filters_cong: "iam_policies db = iam_policies db' \<Longrightarrow> no_empty_filters db = no_empty_filters db'"
  by (simp add: no_empty_filters_def)

lemma create_policy_no_empty:
  assumes "no_empty_filters db"
  shows "no_empty_filters (snd (create_policy L f1 f2 sn st pat act e (nonempty rf) (nonempty cm) pr db))"
proof -
  obtain r db1 where g: "get_or_create_subject L f1 st sn db = (r, db1)" by fastforce
  have "no_empty_filters db1" using assms get_or_create_grows(2) [OF g] no_empty_filters_cong by metis
  then show ?thesis
    by (auto simp: create_policy_def g Let_def no_empty_filters_def nonempty_def split: sum.split)
qed

lemma reload_engine_db [simp]: "ic_db (snd (reload_engine L scan st)) = ic_db st"
  by (simp add: reload_engine_def split: sum.split)

lemma svc_create_policy_db:
  "ic_db (snd (svc_create_policy L scan f1 f2 p st)) =
     snd (create_policy L f1 f2 (pp_subject_name p) (pp_subject_type p) (pp_resource_pattern p) (pp_action p)
       (if pp_effect p = 1 then ''Deny'' else ''Allow'') (nonempty (pp_row_filter p)) (nonempty (pp_column_mask_json p))
       (pp_priority p) (ic_db st))"
  (is "_ = snd ?cp")
proof -
  obtain r db where cp: "?cp = (r, db)" by fastforce
  obtain x st2 where rl: "reload_engine L scan (st\<lparr>ic_db := db\<rparr>) = (x, st2)" by fastforce
  then have "ic_db st2 = db" using reload_engine_db [of L scan "st\<lparr>ic_db := db\<rparr>"] by simp
  then show ?thesis unfolding cp by (simp add: svc_create_policy_def cp rl Let_def split: sum.split)
qed

lemma iam_step_no_empty:
  assumes "no_empty_filters (ic_db st)"
  shows "no_empty_filters (ic_db (iam_step L scan st x))"
proof (cases x)
  case (CreatePolicy f1 f2 p)
  then show ?thesis using create_policy_no_empty [OF assms] by (simp add: svc_create_policy_db)
next
  case (DeletePolicy i)
  with assms show ?thesis
    by (auto simp: svc_delete_policy_def delete_policy_def no_empty_filters_def)
next
  case (CreateSubject f t n)
  have "iam_policies (ic_db (iam_step L scan st x)) = iam_policies (ic_db st)"
    using get_or_create_policies [of L f t n "ic_db st"]
    by (simp add: CreateSubject svc_create_subject_def split: prod.split) (metis snd_conv)
  with assms show ?thesis using no_empty_filters_cong by metis
next
  case (AddGroupMember f1 f2 g u)
  have "iam_policies (snd (add_group_member L f1 f2 g u (ic_db st))) = iam_policies (ic_db st)"
  proof -
    obtain r1 db1 where 1: "get_or_create_subject L f1 ''group'' g (ic_db st) = (r1, db1)" by fastforce
    obtain r2 db2 where 2: "get_or_create_subject L f2 ''user'' u db1 = (r2, db2)" by fastforce
    show ?thesis
      using get_or_create_grows(2) [OF 1] get_or_create_grows(2) [OF 2]
      by (simp add: add_group_member_def 1 2 split: sum.split)
  qed
  then have "iam_policies (ic_db (iam_step L scan st x)) = iam_policies (ic_db st)"
    by (cases "add_group_member L f1 f2 g u (ic_db st)") (simp add: AddGroupMember svc_add_group_member_def)
  with assms show ?thesis using no_empty_filters_cong by metis
next
  case (StoreAudit i t oa ss u se pl)
  with assms show ?thesis by (simp add: store_audit_event_def no_empty_filters_def)
qed

interpretation iam_filters: invariant_step "iam_step L scan" "\<lambda>st. no_empty_filters (ic_db st)" for L scan
  by unfold_locales (rule iam_step_no_empty)

lemma seeded_no_empty [simp]: "no_empty_filters seeded_iam_db"
  by (simp add: no_empty_filters_def seeded_iam_db_def)

lemma policy_proto_round_trip:
  assumes "uuid_codec L" "pol_row_filter p \<noteq> Some []" "pol_column_mask_json p \<noteq> Some []"
  shows "policy_of_proto L u (policy_to_proto L p) = p"
  using assms
  by (cases p) (auto simp: policy_of_proto_def policy_to_proto_def uuid_codecD unwrap_or_default_def
      split: subject_type.split policy_effect.split option.split)

lemma load_policies_central:
  assumes "iam_env L scan" "iam_sync L scan st" "no_empty_filters (ic_db st)"
  shows "load_iam_policies L fresh (answer_of (svc_list_policies L scan (ic_db st) [])) = Ok (ic_engine st)"
proof -
  have "policy_of_proto L u (policy_to_proto L p) = p" if "p \<in> set (ic_engine st)" for p u
  proof -
    have "p \<in> policy_of L ` set (policy_rows (ic_db st))" using that sync_engine_set [OF assms(1,2)] by simp
    then obtain q s where qs: "(q, s) \<in> set (policy_rows (ic_db st))" "p = policy_of L (q, s)" by auto
    with no_empty_filters_rows [OF assms(3) qs(1)] assms(1) show ?thesis
      by (intro policy_proto_round_trip) (auto simp: iam_env_def policy_of_def)
  qed
  then have "load_iam_policies L fresh (Ok (map Ok (map (policy_to_proto L) (ic_engine st)))) =
      Ok (map (\<lambda>p. policy_of_proto L 0 p) (map (policy_to_proto L) (ic_engine st)))"
    by (intro load_policies_all) auto
  also have "map (\<lambda>p. policy_of_proto L 0 p) (map (policy_to_proto L) (ic_engine st)) = ic_engine st"
    using \<open>\<And>u p. p \<in> set (ic_engine st) \<Longrightarrow> policy_of_proto L u (policy_to_proto L p) = p\<close> by (simp add: map_idI o_def)
  moreover have "svc_list_policies L scan (ic_db st) [] = Ok (map (policy_to_proto L) (ic_engine st))"
    using assms(2) by (simp add: svc_list_policies_def nonempty_def iam_sync_def)
  ultimately show ?thesis by (simp add: answer_of_def)
qed

section \<open>Properties of the session\<close>

text \<open>
  Loading is exact: elan-query, whenever it asks elan-central, gets the policies of
  elan-central's own engine, in the same order and with no field changed.
\<close>

theorem loaded_policies_exact:
  assumes "iam_env L scan" "uuid_parse L seed_policy_id \<noteq> None" "central_start L scan seeded_iam_db = Ok st0"
  shows "let st = run (iam_step L scan) st0 calls
    in load_iam_policies L fresh (answer_of (svc_list_policies L scan (ic_db st) [])) = Ok (ic_engine st)"
proof -
  have st0: "ic_db st0 = seeded_iam_db" using assms(3) by (auto simp: central_start_def and_then_Ok)
  have "iam_sync L scan st0" using central_start_sync [OF seeded_iam_inv assms(3)] assms(2) by simp
  then have "iam_env L scan \<and> iam_sync L scan (run (iam_step L scan) st0 calls)"
    using assms(1) iam.run_keeps [of L scan st0 calls] by simp
  moreover have "no_empty_filters (ic_db (run (iam_step L scan) st0 calls))"
    using iam_filters.run_keeps [of st0 L scan calls] st0 by simp
  ultimately show ?thesis unfolding Let_def using load_policies_central by blast
qed

theorem loaded_policies_exact_witness:
  "load_iam_policies demo_libs (\<lambda>_. 0) (answer_of (svc_list_policies demo_libs id (ic_db demo_central) [])) = Ok (ic_engine demo_central)"
  using loaded_policies_exact [OF demo_iam_env demo_seed(2) demo_central_start, of "[]"] by (simp add: Let_def)

lemma session_visible:
  assumes "iam_env L scan" "uuid_parse L seed_policy_id \<noteq> None" "central_start L scan seeded_iam_db = Ok st0"
    and "st = run (iam_step L scan) st0 calls"
    and "session_factory_new L fresh ds_answer (answer_of (svc_list_policies L scan (ic_db st) [])) = Ok sf"
  shows "is_visible (snapshot_check L (sf_engine sf)) \<lparr>user_id = u, groups = gs\<rparr> ns n \<longleftrightarrow>
    rows_allow L \<lparr>aq_user_id = u, aq_groups = gs, aq_namespace = ns, aq_dataset = n, aq_action = ''SELECT''\<rparr>
      (set (policy_rows (ic_db st)))"
proof -
  have st0: "ic_db st0 = seeded_iam_db" using assms(3) by (auto simp: central_start_def and_then_Ok)
  have "iam_sync L scan st0" using central_start_sync [OF seeded_iam_inv assms(3)] assms(2) by simp
  then have sync: "iam_sync L scan st"
    using assms(1,4) iam.run_keeps [of L scan st0 calls] by simp
  have "no_empty_filters (ic_db st)"
    using iam_filters.run_keeps [of st0 L scan calls] st0 assms(4) by simp
  then have "sf_engine sf = ic_engine st"
    using assms(5) load_policies_central [OF assms(1) sync] by (auto simp: session_factory_new_def and_then_Ok Let_def)
  then show ?thesis
    using check_access_rows [OF assms(1) sync, of "\<lparr>aq_user_id = u, aq_groups = gs, aq_namespace = ns, aq_dataset = n, aq_action = ''SELECT''\<rparr>"]
    by (simp add: svc_check_access_def is_visible_def)
qed

lemma session_scans:
  assumes "iam_env L scan" "uuid_parse L seed_policy_id \<noteq> None" "central_start L scan seeded_iam_db = Ok st0"
    and "st = run (iam_step L scan) st0 calls"
    and "session_factory_new L fresh ds_answer (answer_of (svc_list_policies L scan (ic_db st) [])) = Ok sf"
    and "df_laws D"
    and "iam_optimize D (sx_rule (build_for_user L ipc_schema sf \<lparr>user_id = u, groups = gs\<rparr>)) p = Ok q"
  shows "plan_scans q = filter
    (\<lambda>sc. rows_allow L \<lparr>aq_user_id = u, aq_groups = gs, aq_namespace = ds_namespace (rs_dataset sc),
                       aq_dataset = ds_name (rs_dataset sc), aq_action = ''SELECT''\<rparr>
            (set (policy_rows (ic_db st)))) (plan_scans p)"
  using iam_rule_scans(1) [OF assms(6), of "snapshot_check L (sf_engine sf)" "\<lparr>user_id = u, groups = gs\<rparr>" p q] assms(7)
  by (simp add: session_visible [OF assms(1-5)])

text \<open>
  C1. Enforcement end to end: in a session that elan-query builds for a user after loading from
  elan-central, the optimized plan of every query keeps exactly the scans of the datasets on which
  elan-central's stored policies grant that user SELECT.
\<close>

theorem end_to_end_enforcement:
  assumes "iam_env L scan" "uuid_parse L seed_policy_id \<noteq> None" "central_start L scan seeded_iam_db = Ok st0"
    and "st = run (iam_step L scan) st0 calls"
    and "session_factory_new L fresh ds_answer (answer_of (svc_list_policies L scan (ic_db st) [])) = Ok sf"
    and "df_laws D"
    and "iam_optimize D (sx_rule (build_for_user L ipc_schema sf \<lparr>user_id = u, groups = gs\<rparr>)) p = Ok q"
  shows "plan_scans q = filter
    (\<lambda>sc. rows_allow L \<lparr>aq_user_id = u, aq_groups = gs, aq_namespace = ds_namespace (rs_dataset sc),
                       aq_dataset = ds_name (rs_dataset sc), aq_action = ''SELECT''\<rparr>
            (set (policy_rows (ic_db st)))) (plan_scans p)"
  using assms by (rule session_scans)

definition demo_factory :: session_factory where
  "demo_factory = \<lparr>sf_engine = ic_engine demo_central, sf_datasets = Map.empty\<rparr>"

lemma demo_factory_new:
  "session_factory_new demo_libs (\<lambda>_. 0) (Ok []) (answer_of (svc_list_policies demo_libs id (ic_db (run (iam_step demo_libs id) demo_central [])) [])) =
     Ok demo_factory"
proof -
  have "no_empty_filters (ic_db demo_central)" by (simp add: demo_central_def)
  from load_policies_central [OF demo_iam_env demo_central_sync this] show ?thesis
    by (simp add: session_factory_new_def load_datasets_def demo_factory_def)
qed

lemma demo_rule_returns: "\<exists>q. iam_optimize demo_ops (elan_iam_rule check subject) p = Ok q"
  by (rule iam_rule_returns) (auto simp: demo_ops_def split: plan.split)

lemma demo_central_allows:
  "rows_allow demo_libs \<lparr>aq_user_id = ''bob'', aq_groups = [], aq_namespace = ns, aq_dataset = n, aq_action = ''SELECT''\<rparr>
     (set (policy_rows (ic_db demo_central)))"
  by (simp add: demo_central_def demo_seed_rows rows_allow_def row_applies_def)
    (simp add: policy_of_def seeded_iam_db_def matching_defs)

theorem end_to_end_enforcement_witness:
  "\<exists>q. iam_optimize demo_ops (sx_rule (build_for_user demo_libs (\<lambda>_. Ok []) demo_factory \<lparr>user_id = ''bob'', groups = []\<rparr>)) demo_join = Ok q
     \<and> plan_scans q = plan_scans demo_join"
proof -
  obtain q where q: "iam_optimize demo_ops (sx_rule (build_for_user demo_libs (\<lambda>_. Ok []) demo_factory \<lparr>user_id = ''bob'', groups = []\<rparr>)) demo_join = Ok q"
    unfolding build_for_user_rule using demo_rule_returns by blast
  from end_to_end_enforcement [OF demo_iam_env demo_seed(2) demo_central_start refl demo_factory_new demo_df_laws q]
  have "plan_scans q = plan_scans demo_join" by (simp add: demo_central_allows)
  with q show ?thesis by blast
qed

text \<open>
  A session factory that could not load its policies fails closed: no optimized plan of any of
  its sessions scans anything.
\<close>

theorem policy_load_failure_denies_all:
  assumes "load_iam_policies L fresh answer = Err e" "session_factory_new L fresh ds_answer answer = Ok sf"
    and "df_laws D" "iam_optimize D (sx_rule (build_for_user L ipc_schema sf subj)) p = Ok q"
  shows "plan_scans q = []"
proof -
  have "sf_engine sf = []" using assms(1,2) by (auto simp: session_factory_new_def and_then_Ok Let_def)
  then have "\<not> is_visible (snapshot_check L (sf_engine sf)) subj ns n" for ns n
    using snapshot.default_deny [of L "[]" subj] by (simp add: is_visible_def snapshot_reload_def)
  then show ?thesis
    using iam_rule_scans [OF assms(3), of "snapshot_check L (sf_engine sf)" subj p q] assms(4) by simp
qed

theorem policy_load_failure_denies_all_witness:
  "\<exists>q. iam_optimize demo_ops (sx_rule (build_for_user demo_libs (\<lambda>_. Ok []) \<lparr>sf_engine = [], sf_datasets = Map.empty\<rparr> (demo_subject ''bob''))) demo_join = Ok q
     \<and> plan_scans q = []"
proof -
  obtain q where q: "iam_optimize demo_ops (sx_rule (build_for_user demo_libs (\<lambda>_. Ok []) \<lparr>sf_engine = [], sf_datasets = Map.empty\<rparr> (demo_subject ''bob''))) demo_join = Ok q"
    unfolding build_for_user_rule using demo_rule_returns by blast
  have "plan_scans q = []"
    by (rule policy_load_failure_denies_all [OF _ _ demo_df_laws q, of "\<lambda>_. 0" "Err (status_internal [])" "status_internal []" "Ok []"])
      (simp_all add: load_iam_policies_def session_factory_new_def load_datasets_def)
  with q show ?thesis by blast
qed

text \<open>
  The datasets of a refreshed session are those of elan-central's catalog: a dataset is in the
  list of its namespace exactly when a lookup in the store finds it, and a failed refresh keeps what
  was there.
\<close>

theorem refreshed_datasets_exact:
  assumes "uuid_codec L" "json_codec L" "catalog_inv db"
  shows "case list_datasets L None db of
      Inl e \<Rightarrow> refresh_tick L sf (answer_of (svc_list_datasets L db [])) = sf
    | Inr ds \<Rightarrow>
        (d \<in> set (case sf_datasets (refresh_tick L sf (answer_of (svc_list_datasets L db []))) ns of None \<Rightarrow> [] | Some l \<Rightarrow> l) \<longleftrightarrow>
           ds_namespace d = ns \<and> get_dataset L ns (ds_name d) db = Ok (Some d))"
proof (cases "list_datasets L None db")
  case (Inl e)
  then show ?thesis using load_datasets_central [OF assms(1,2), of db] by (simp add: refresh_tick_def)
next
  case (Inr ds)
  have "sf_datasets (refresh_tick L sf (answer_of (svc_list_datasets L db []))) = foldl push_dataset Map.empty ds"
    using load_datasets_central [OF assms(1,2), of db] Inr by (simp add: refresh_tick_def)
  then have "(case sf_datasets (refresh_tick L sf (answer_of (svc_list_datasets L db []))) ns of None \<Rightarrow> [] | Some l \<Rightarrow> l) =
      filter (\<lambda>d. ds_namespace d = ns) ds"
    by (simp add: push_datasets)
  then show ?thesis
    using list_datasets_members [OF assms(3) Inr, of d] by (auto simp: Inr)
qed

theorem refreshed_datasets_exact_witness:
  "demo_dataset 9 ''acct'' ''ledger'' Delta \<in>
     set (case sf_datasets (refresh_tick demo_libs demo_factory (answer_of (svc_list_datasets demo_libs demo_catalog []))) ''acct'' of
            None \<Rightarrow> [] | Some l \<Rightarrow> l)"
  using refreshed_datasets_exact [OF demo_uuid_codec demo_json_codec demo_catalog_inv, of demo_factory "demo_dataset 9 ''acct'' ''ledger'' Delta" "''acct''"]
    list_datasets_members [OF demo_catalog_inv demo_list, of "demo_dataset 9 ''acct'' ''ledger'' Delta"]
  by (simp add: demo_list demo_dataset_def)

text \<open>
  Policies are loaded once: no number of refreshes changes a decision of any session, so a policy
  created or deleted on elan-central reaches elan-query only at a restart.
\<close>

theorem policies_never_refreshed:
  "sx_rule (build_for_user L ipc_schema (run (refresh_tick L) sf answers) subj) =
   (sx_rule (build_for_user L ipc_schema sf subj) :: 'n iam_filter_rule)"
proof -
  have "sf_engine (run (refresh_tick L) sf answers) = sf_engine sf"
    by (induction answers arbitrary: sf) (simp_all add: refresh_tick_def split: sum.split)
  then show ?thesis by simp
qed

end
