(* ===== verification/Query_Run.thy ===== *)
theory Query_Run
  imports Query_Session
begin

text \<open>
  What leaves elan-query when a query runs: the requests of the scans that the optimizer rule has left in the
  plan (\<open>execute\<close> of \<open>planner/remote_scan.rs\<close>), under the policies stored at elan-central. DataFusion runs every
  scan of a plan at most once and combines their results; the results of the scans are what it works on.
\<close>

section \<open>Requests\<close>

text \<open>The POST that executing a scan makes: URL and body. None where the endpoint cannot be used.\<close>

definition scan_request :: "bool \<Rightarrow> (scalar \<Rightarrow> string) \<Rightarrow> remote_scan \<Rightarrow> (string \<times> string) option" where
  "scan_request checks text sc =
     (case parse_endpoint (ds_executor_endpoint (rs_dataset sc)) of
        Inl e \<Rightarrow> None
      | Inr (host, ballista_port) \<Rightarrow>
          map_option (\<lambda>http_port. (scan_url host http_port, build_sql text sc)) (add_checked checks ballista_port 1))"

definition plan_results :: "bool \<Rightarrow> 'c scan_env \<Rightarrow> 'n plan \<Rightarrow> (df_error, 'c batch list \<times> schema) result option list" where
  "plan_results checks E p = map (scan_execute checks E) (plan_scans p)"

definition plan_requests :: "bool \<Rightarrow> (scalar \<Rightarrow> string) \<Rightarrow> 'n plan \<Rightarrow> (string \<times> string) option list" where
  "plan_requests checks text p = map (scan_request checks text) (plan_scans p)"

lemma scan_execute_request:
  "scan_execute checks E sc =
     (case scan_request checks (scalar_text E) sc of
        Some (url, sql) \<Rightarrow>
          Some (and_then (fetch_batches E url sql) (\<lambda>bs. Ok (bs, case bs of [] \<Rightarrow> rs_schema sc | b # _ \<Rightarrow> b_schema b)))
      | None \<Rightarrow>
          (case parse_endpoint (ds_executor_endpoint (rs_dataset sc)) of Inl e \<Rightarrow> Some (Err e) | Inr _ \<Rightarrow> None))"
  by (simp add: scan_execute_def scan_request_def Let_def split: sum.split prod.split option.split)

text \<open>A scan sees nothing of the network but the answer to its own request.\<close>

lemma scan_execute_cong:
  assumes "scalar_text E' = scalar_text E" "ipc_read E' = ipc_read E"
    and "\<And>url sql. scan_request checks (scalar_text E) sc = Some (url, sql) \<Longrightarrow> http_post E' url sql = http_post E url sql"
  shows "scan_execute checks E' sc = scan_execute checks E sc"
proof (cases "scan_request checks (scalar_text E) sc")
  case (Some r)
  obtain url sql where r: "r = (url, sql)" by fastforce
  have "fetch_batches E' url sql = fetch_batches E url sql"
    using assms(2) assms(3) [of url sql] Some by (simp add: fetch_batches_def r cong: if_cong)
  then show ?thesis using Some by (simp add: scan_execute_request r assms(1))
qed (simp add: scan_execute_request assms(1))

section \<open>Properties of a run\<close>

text \<open>
  C5. Nothing but the permitted requests bears on the results of a query: in a session built from elan-central's policies, the
  requests that executing the optimized plan makes are those of the plan's scans on which a stored Allow and no stored
  Deny gives the user SELECT, in their order, and the results of all its scans depend only on the executors' answers to
  these requests. Whatever the executors would answer to any other request, the results are the same. (What an
  executor answers to a permitted request may still be the data of another dataset: C22 and C23.)
\<close>

theorem query_noninterference:
  assumes "iam_env L scan" "uuid_parse L seed_policy_id \<noteq> None" "central_start L scan seeded_iam_db = Ok st0"
    and "st = run (iam_step L scan) st0 calls"
    and "session_factory_new L fresh ds_answer (answer_of (svc_list_policies L scan (ic_db st) [])) = Ok sf"
    and "df_laws D"
    and "iam_optimize D (sx_rule (build_for_user L ipc_schema sf \<lparr>user_id = u, groups = gs\<rparr>)) p = Ok q"
    and "scalar_text E' = scalar_text E" "ipc_read E' = ipc_read E"
    and "\<And>sc url sql. sc \<in> set (plan_scans p) \<Longrightarrow>
      rows_allow L \<lparr>aq_user_id = u, aq_groups = gs, aq_namespace = ds_namespace (rs_dataset sc),
                    aq_dataset = ds_name (rs_dataset sc), aq_action = ''SELECT''\<rparr> (set (policy_rows (ic_db st))) \<Longrightarrow>
      scan_request checks (scalar_text E) sc = Some (url, sql) \<Longrightarrow> http_post E' url sql = http_post E url sql"
  shows "plan_requests checks (scalar_text E) q =
      map (scan_request checks (scalar_text E))
        (filter (\<lambda>sc. rows_allow L \<lparr>aq_user_id = u, aq_groups = gs, aq_namespace = ds_namespace (rs_dataset sc),
           aq_dataset = ds_name (rs_dataset sc), aq_action = ''SELECT''\<rparr> (set (policy_rows (ic_db st)))) (plan_scans p)) \<and>
    plan_results checks E' q = plan_results checks E q"
proof -
  have "scan_execute checks E' sc = scan_execute checks E sc" if "sc \<in> set (plan_scans q)" for sc
    using that unfolding session_scans [OF assms(1-7)]
    by (intro scan_execute_cong assms(8,9)) (use assms(10) in auto)
  then show ?thesis by (simp add: plan_results_def plan_requests_def session_scans [OF assms(1-7)])
qed

text \<open>Two worlds whose executors answer differently to everything, and a user who is denied the namespace of the scan.\<close>

definition demo_answering :: "bool \<Rightarrow> nat scan_env" where
  "demo_answering b =
     \<lparr>scalar_text = (\<lambda>v. ''NULL''), http_post = (\<lambda>url sql. Err (if b then ''up'' else ''down'')), ipc_read = (\<lambda>bytes. Ok [])\<rparr>"

definition demo_denied_scan :: "(string \<times> schema) plan" where
  "demo_denied_scan = RemoteTableScanExec (demo_scan ''crm'' ''customers'')"

lemma demo_factory_loads:
  assumes "st = run (iam_step demo_libs id) demo_central calls"
  shows "\<exists>sf. session_factory_new demo_libs (\<lambda>_. 0) (Ok []) (answer_of (svc_list_policies demo_libs id (ic_db st) [])) = Ok sf"
  by (simp add: session_factory_new_def load_datasets_def)

lemma demo_bob_denied:
  "\<not> rows_allow demo_libs \<lparr>aq_user_id = ''bob'', aq_groups = [], aq_namespace = ''crm'', aq_dataset = n, aq_action = ''SELECT''\<rparr>
     (set (policy_rows (ic_db (run (iam_step demo_libs id) demo_central [CreatePolicy 10 11 (demo_deny_proto ''user'' ''bob'')]))))"
proof -
  let ?req = "\<lparr>aq_user_id = ''bob'', aq_groups = [], aq_namespace = ''crm'', aq_dataset = n, aq_action = ''SELECT''\<rparr>"
  obtain st where c: "svc_create_policy demo_libs id 10 11 (demo_deny_proto ''user'' ''bob'') demo_central = (Ok ''11'', st)"
    using demo_create by blast
  have "\<not> apd_allowed (svc_check_access demo_libs st ?req)"
    by (rule created_deny_refuses [OF demo_iam_env demo_central_sync c])
      (simp_all add: demo_deny_proto_def demo_central_def seeded_iam_db_def stated_policy_def matching_defs)
  moreover have "iam_sync demo_libs id st"
    using create_policy_sync [OF demo_iam_env demo_central_sync, of 10 11 "demo_deny_proto ''user'' ''bob''"] by (simp add: c)
  ultimately show ?thesis using check_access_rows [OF demo_iam_env] by (simp add: c)
qed

theorem query_noninterference_witness:
  "\<exists>sf q. iam_optimize demo_ops (sx_rule (build_for_user demo_libs (\<lambda>_. Ok []) sf \<lparr>user_id = ''bob'', groups = []\<rparr>)) demo_denied_scan = Ok q \<and>
     plan_requests True (\<lambda>v. ''NULL'') q = [] \<and>
     plan_results True (demo_answering True) q = plan_results True (demo_answering False) q"
proof -
  let ?calls = "[CreatePolicy 10 11 (demo_deny_proto ''user'' ''bob'')]"
  let ?st = "run (iam_step demo_libs id) demo_central ?calls"
  obtain sf where sf: "session_factory_new demo_libs (\<lambda>_. 0) (Ok []) (answer_of (svc_list_policies demo_libs id (ic_db ?st) [])) = Ok sf"
    using demo_factory_loads by blast
  obtain q where q: "iam_optimize demo_ops (sx_rule (build_for_user demo_libs (\<lambda>_. Ok []) sf \<lparr>user_id = ''bob'', groups = []\<rparr>)) demo_denied_scan = Ok q"
    unfolding build_for_user_rule using demo_rule_returns by blast
  have "plan_requests True (scalar_text (demo_answering False)) q =
      map (scan_request True (scalar_text (demo_answering False)))
        (filter (\<lambda>sc. rows_allow demo_libs \<lparr>aq_user_id = ''bob'', aq_groups = [], aq_namespace = ds_namespace (rs_dataset sc),
           aq_dataset = ds_name (rs_dataset sc), aq_action = ''SELECT''\<rparr> (set (policy_rows (ic_db ?st)))) (plan_scans demo_denied_scan)) \<and>
      plan_results True (demo_answering True) q = plan_results True (demo_answering False) q"
    by (rule query_noninterference [OF demo_iam_env demo_seed(2) demo_central_start refl sf demo_df_laws q])
      (use demo_bob_denied in \<open>simp_all add: demo_answering_def demo_denied_scan_def demo_scan_def\<close>)
  moreover have "scalar_text (demo_answering False) = (\<lambda>v. ''NULL'')" by (simp add: demo_answering_def)
  ultimately have "plan_requests True (\<lambda>v. ''NULL'') q = [] \<and> plan_results True (demo_answering True) q = plan_results True (demo_answering False) q"
    using demo_bob_denied by (simp add: demo_denied_scan_def demo_scan_def)
  with q show ?thesis by blast
qed

text \<open>
  C22. Datasets are not isolated by their namespaces: of two datasets with one name at one executor in two namespaces, a user
  who may read one and not the other gets, by scanning the permitted one, exactly what a scan of the denied
  one would return, although a scan of that one is removed from every plan.
\<close>

theorem denied_data_readable:
  assumes "ds_name (rs_dataset sc2) = ds_name (rs_dataset sc1)"
    and "ds_executor_endpoint (rs_dataset sc2) = ds_executor_endpoint (rs_dataset sc1)"
    and "rs_schema sc2 = rs_schema sc1" "rs_pushed_filters sc2 = rs_pushed_filters sc1" "rs_limit sc2 = rs_limit sc1"
    and "is_visible check subj (ds_namespace (rs_dataset sc1)) (ds_name (rs_dataset sc1))"
    and "\<not> is_visible check subj (ds_namespace (rs_dataset sc2)) (ds_name (rs_dataset sc2))"
    and "df_laws D" "iam_optimize D (elan_iam_rule check subj) (RemoteTableScanExec sc1) = Ok q1"
    and "iam_optimize D (elan_iam_rule check subj) (RemoteTableScanExec sc2) = Ok q2"
  shows "plan_results checks E q1 = [scan_execute checks E sc2] \<and> plan_results checks E q2 = []"
proof -
  have "plan_scans q1 = [sc1]" "plan_scans q2 = []"
    using iam_rule_scans(1) [OF assms(8,9)] iam_rule_scans(1) [OF assms(8,10)] assms(6,7) by simp_all
  moreover have "scan_execute checks E sc1 = scan_execute checks E sc2"
    using assms(1-5) by (simp add: scan_execute_def build_sql_def Let_def)
  ultimately show ?thesis by (simp add: plan_results_def)
qed

lemma demo_same_name [simp]:
  "is_visible demo_check (demo_subject ''bob'') ''crm'' ''transactions''"
  by (simp add: is_visible_def snapshot_allowed_iff demo_policy_defs matching_defs)

theorem denied_data_readable_witness:
  "\<exists>q1 q2. iam_optimize demo_ops (elan_iam_rule demo_check (demo_subject ''bob'')) (RemoteTableScanExec (demo_scan ''crm'' ''transactions'')) = Ok q1 \<and>
     plan_results True (demo_answering True) q1 = [scan_execute True (demo_answering True) (demo_scan ''finance'' ''transactions'')] \<and>
     iam_optimize demo_ops (elan_iam_rule demo_check (demo_subject ''bob'')) (RemoteTableScanExec (demo_scan ''finance'' ''transactions'')) = Ok q2 \<and>
     plan_results True (demo_answering True) q2 = []"
proof -
  obtain q1 q2 where q: "iam_optimize demo_ops (elan_iam_rule demo_check (demo_subject ''bob'')) (RemoteTableScanExec (demo_scan ''crm'' ''transactions'')) = Ok q1"
    "iam_optimize demo_ops (elan_iam_rule demo_check (demo_subject ''bob'')) (RemoteTableScanExec (demo_scan ''finance'' ''transactions'')) = Ok q2"
    using demo_rule_returns by meson
  have "plan_results True (demo_answering True) q1 = [scan_execute True (demo_answering True) (demo_scan ''finance'' ''transactions'')] \<and>
     plan_results True (demo_answering True) q2 = []"
    by (rule denied_data_readable [OF _ _ _ _ _ _ _ demo_df_laws q]) (simp_all add: demo_scan_def)
  with q show ?thesis by blast
qed

end
