(* ===== verification/Service_Config.thy ===== *)
theory Service_Config
  imports Common_Types
begin

text \<open>
  Command lines and the layered configuration of elan-central and elan-query (\<open>config.rs\<close> of both). The
  crate \<open>config\<close> is a parameter: \<open>build\<close> takes the defaults and the sources in the order in which the code
  adds them and gives the merged table, or an error; \<open>layered\<close> states its documented rule, a later
  source overrides an earlier one. The conversions of a value to the type of a field are parameters.
\<close>

section \<open>Command lines\<close>

text \<open>
  \<open>args.windows(2).find(|w| w[0] == flag).map(|w| w[1])\<close>: the argument after the first occurrence of
  the flag that has one.
\<close>

fun arg_value :: "string \<Rightarrow> string list \<Rightarrow> string option" where
  "arg_value flag (a # b # rest) = (if a = flag then Some b else arg_value flag (b # rest))"
| "arg_value flag _ = None"

lemma arg_value_first: "flag \<notin> set pre \<Longrightarrow> arg_value flag (pre @ flag # v # rest) = Some v"
proof (induction pre)
  case (Cons a pre)
  then show ?case by (cases pre) auto
qed simp

lemma arg_value_absent: "flag \<notin> set args \<Longrightarrow> arg_value flag args = None"
  by (induction flag args rule: arg_value.induct) auto

section \<open>The configuration crate\<close>

datatype config_value = ConfigString string | ConfigInt int

datatype config_source = FileSource string | EnvSource string string

type_synonym config_table = "string \<rightharpoonup> config_value"

type_synonym config_build = "(string \<times> config_value) list \<Rightarrow> config_source list \<Rightarrow> (string, config_table) result"

record config_reader =
  cfg_string :: "config_value \<Rightarrow> (string, string) result"
  cfg_u64 :: "config_value \<Rightarrow> (string, 64 word) result"
  cfg_missing :: "string \<Rightarrow> string"

text \<open>What serde's derived \<open>Deserialize\<close> makes of a field: an absent \<open>Option\<close> is \<open>None\<close>, any other absent field an error.\<close>

definition required_field ::
  "config_reader \<Rightarrow> (config_value \<Rightarrow> (string, 'a) result) \<Rightarrow> config_table \<Rightarrow> string \<Rightarrow> (string, 'a) result" where
  "required_field R conv t key = and_then (ok_or (cfg_missing R key) (t key)) conv"

definition optional_field ::
  "(config_value \<Rightarrow> (string, 'a) result) \<Rightarrow> config_table \<Rightarrow> string \<Rightarrow> (string, 'a option) result" where
  "optional_field conv t key = (case t key of None \<Rightarrow> Ok None | Some v \<Rightarrow> and_then (conv v) (\<lambda>x. Ok (Some x)))"

definition config_sources :: "string option \<Rightarrow> string \<Rightarrow> config_source list" where
  "config_sources config_path env_prefix =
     (case config_path of None \<Rightarrow> [] | Some path \<Rightarrow> [FileSource path]) @ [EnvSource env_prefix ''__'']"

section \<open>elan-central\<close>

record central_config =
  ct_grpc_addr :: string
  ct_http_addr :: string
  ct_database_url :: string

definition central_config_default :: central_config where
  "central_config_default =
     \<lparr>ct_grpc_addr = ''0.0.0.0:50051'', ct_http_addr = ''0.0.0.0:8080'', ct_database_url = ''sqlite://elan_central.db''\<rparr>"

definition central_config_load ::
  "config_build \<Rightarrow> config_reader \<Rightarrow> string option \<Rightarrow> (string, central_config) result" where
  "central_config_load build R config_path =
     and_then
       (build
          [(''grpc_addr'', ConfigString ''0.0.0.0:50051''), (''http_addr'', ConfigString ''0.0.0.0:8080''),
           (''database_url'', ConfigString ''sqlite://elan_central.db'')]
          (config_sources config_path ''ELAN_CENTRAL'')) (\<lambda>t.
     and_then (required_field R (cfg_string R) t ''grpc_addr'') (\<lambda>grpc.
     and_then (required_field R (cfg_string R) t ''http_addr'') (\<lambda>http.
     and_then (required_field R (cfg_string R) t ''database_url'') (\<lambda>url.
     Ok \<lparr>ct_grpc_addr = grpc, ct_http_addr = http, ct_database_url = url\<rparr>))))"

section \<open>elan-query\<close>

record query_config =
  qc_http_addr :: string
  qc_central_endpoint :: string
  qc_kafka_brokers :: "string option"
  qc_instance_name :: string
  qc_iam_refresh_secs :: "64 word"

definition query_config_default :: query_config where
  "query_config_default =
     \<lparr>qc_http_addr = ''0.0.0.0:3000'', qc_central_endpoint = ''http://localhost:50051'', qc_kafka_brokers = None,
      qc_instance_name = ''query-node-1'', qc_iam_refresh_secs = 60\<rparr>"

definition query_config_load ::
  "config_build \<Rightarrow> config_reader \<Rightarrow> string option \<Rightarrow> (string, query_config) result" where
  "query_config_load build R config_path =
     and_then
       (build
          [(''http_addr'', ConfigString ''0.0.0.0:3000''), (''central_endpoint'', ConfigString ''http://localhost:50051''),
           (''instance_name'', ConfigString ''query-node-1''), (''iam_refresh_secs'', ConfigInt 60)]
          (config_sources config_path ''ELAN_QUERY'')) (\<lambda>t.
     and_then (required_field R (cfg_string R) t ''http_addr'') (\<lambda>http.
     and_then (required_field R (cfg_string R) t ''central_endpoint'') (\<lambda>central.
     and_then (optional_field (cfg_string R) t ''kafka_brokers'') (\<lambda>brokers.
     and_then (required_field R (cfg_string R) t ''instance_name'') (\<lambda>name.
     and_then (required_field R (cfg_u64 R) t ''iam_refresh_secs'') (\<lambda>secs.
     Ok \<lparr>qc_http_addr = http, qc_central_endpoint = central, qc_kafka_brokers = brokers,
         qc_instance_name = name, qc_iam_refresh_secs = secs\<rparr>))))))"

section \<open>Layers\<close>

text \<open>
  The documented rule of the crate: with a table for each source that can be read, the merged table takes
  a key from the last source that has it. A file that cannot be read is an error.
\<close>

definition layered :: "config_build \<Rightarrow> (config_source \<Rightarrow> (string, config_table) result) \<Rightarrow> bool" where
  "layered build read \<longleftrightarrow>
     (\<forall>defaults sources. build defaults sources =
        and_then (traverse read sources) (\<lambda>ts. Ok (foldl (++) (map_of defaults) ts)))"

lemma layeredD:
  "layered build read \<Longrightarrow>
   build defaults sources = and_then (traverse read sources) (\<lambda>ts. Ok (foldl (++) (map_of defaults) ts))"
  by (simp add: layered_def)

definition reads_plain :: "config_reader \<Rightarrow> bool" where
  "reads_plain R \<longleftrightarrow> (\<forall>s. cfg_string R (ConfigString s) = Ok s) \<and> (\<forall>n. cfg_u64 R (ConfigInt n) = Ok (word_of_int n))"

text \<open>The layers of a key: environment, then file, then default.\<close>

definition layer :: "config_table \<Rightarrow> config_table \<Rightarrow> (string \<times> config_value) list \<Rightarrow> string \<Rightarrow> config_value option" where
  "layer env from_file defaults key =
     (case env key of Some v \<Rightarrow> Some v | None \<Rightarrow> (case from_file key of Some v \<Rightarrow> Some v | None \<Rightarrow> map_of defaults key))"

lemma build_layers:
  assumes "layered build read" "read (EnvSource env_prefix ''__'') = Ok env"
    and "case config_path of None \<Rightarrow> from_file = Map.empty | Some path \<Rightarrow> read (FileSource path) = Ok from_file"
  shows "build defaults (config_sources config_path env_prefix) = Ok (layer env from_file defaults)"
proof -
  have "build defaults (config_sources config_path env_prefix) = Ok (map_of defaults ++ from_file ++ env)"
    using assms(2,3) by (cases config_path) (auto simp: layeredD [OF assms(1)] config_sources_def)
  moreover have "map_of defaults ++ from_file ++ env = layer env from_file defaults"
    by (rule ext) (auto simp: layer_def map_add_def split: option.split)
  ultimately show ?thesis by simp
qed

lemma central_config_layers:
  assumes "layered build read" "read (EnvSource ''ELAN_CENTRAL'' ''__'') = Ok env"
    and "case config_path of None \<Rightarrow> from_file = Map.empty | Some path \<Rightarrow> read (FileSource path) = Ok from_file"
    and "central_config_load build R config_path = Ok cfg"
  shows "\<exists>v. layer env from_file [(''database_url'', ConfigString (ct_database_url central_config_default))] ''database_url'' = Some v \<and>
    cfg_string R v = Ok (ct_database_url cfg)"
  using assms(4) unfolding central_config_load_def build_layers [OF assms(1-3)]
  by (auto simp: and_then_Ok required_field_def layer_def central_config_default_def split: option.splits)

text \<open>Without a file and with an empty environment, loading gives the values of \<open>Default\<close>, in both services.\<close>

lemma central_config_defaults:
  assumes "layered build read" "reads_plain R" "read (EnvSource ''ELAN_CENTRAL'' ''__'') = Ok Map.empty"
  shows "central_config_load build R None = Ok central_config_default"
proof -
  have "build ds (config_sources None ''ELAN_CENTRAL'') = Ok (layer Map.empty Map.empty ds)" for ds
    using build_layers [OF assms(1,3), where config_path = None and from_file = Map.empty] by simp
  then show ?thesis
    using assms(2) by (simp add: central_config_load_def required_field_def layer_def reads_plain_def central_config_default_def)
qed

lemma query_config_defaults:
  assumes "layered build read" "reads_plain R" "read (EnvSource ''ELAN_QUERY'' ''__'') = Ok Map.empty"
  shows "query_config_load build R None = Ok query_config_default"
proof -
  have "build ds (config_sources None ''ELAN_QUERY'') = Ok (layer Map.empty Map.empty ds)" for ds
    using build_layers [OF assms(1,3), where config_path = None and from_file = Map.empty] by simp
  then show ?thesis
    using assms(2)
    by (simp add: query_config_load_def required_field_def optional_field_def layer_def reads_plain_def query_config_default_def)
qed

text \<open>An instance for the witnesses: files hold nothing, the environment sets the database of elan-central.\<close>

definition demo_read :: "config_source \<Rightarrow> (string, config_table) result" where
  "demo_read src = (case src of
     FileSource p \<Rightarrow> Ok Map.empty
   | EnvSource env_prefix sep \<Rightarrow>
       Ok (if env_prefix = ''ELAN_CENTRAL'' then [''database_url'' \<mapsto> ConfigString ''sqlite://demo.db''] else Map.empty))"

definition demo_build :: config_build where
  "demo_build defaults sources = and_then (traverse demo_read sources) (\<lambda>ts. Ok (foldl (++) (map_of defaults) ts))"

definition demo_reader :: config_reader where
  "demo_reader =
     \<lparr>cfg_string = (\<lambda>v. case v of ConfigString s \<Rightarrow> Ok s | ConfigInt n \<Rightarrow> Err ''not a string''),
      cfg_u64 = (\<lambda>v. case v of ConfigString s \<Rightarrow> Err ''not a number'' | ConfigInt n \<Rightarrow> Ok (word_of_int n)),
      cfg_missing = (\<lambda>k. ''missing field '' @ k)\<rparr>"

lemma demo_layered [simp]: "layered demo_build demo_read"
  by (simp add: layered_def demo_build_def)

lemma demo_reads_plain [simp]: "reads_plain demo_reader"
  by (simp add: reads_plain_def demo_reader_def)

end
