(* ===== verification/Central_Start.thy ===== *)
theory Central_Start
  imports Service_Config Central_Iam Central_Catalog
begin

text \<open>
  The start of elan-central (\<open>main.rs\<close>): configuration, the connection to the database with its
  migrations (\<open>db/mod.rs\<close>, the directory \<open>migrations\<close>), the engine and the two listeners; then the calls
  it serves on that database, and its restart. The disk maps paths to SQLite files. sqlx is the two
  parameters \<open>st_open\<close>, which gives the path that a URL names, and \<open>st_migrate\<close>; \<open>migrator_ok\<close> states
  what sqlx documents of \<open>migrate!\<close>.
\<close>

section \<open>Database files and migrations\<close>

record sqlite_file =
  sf_applied :: "nat list"
  sf_tables :: "string list"
  sf_catalog :: catalog_db
  sf_iam :: iam_db

definition empty_file :: sqlite_file where
  "empty_file =
     \<lparr>sf_applied = [], sf_tables = [], sf_catalog = empty_catalog True,
      sf_iam = \<lparr>iam_subjects = [], iam_group_members = [], iam_policies = [], audit_events = []\<rparr>\<rparr>"

type_synonym migration = "sqlite_file \<Rightarrow> sqlite_file store_result"

text \<open>\<open>CREATE TABLE IF NOT EXISTS\<close>; a table that does not exist has no rows.\<close>

definition create_tables :: "string list \<Rightarrow> migration" where
  "create_tables names f = Ok (f\<lparr>sf_tables := sf_tables f @ filter (\<lambda>n. n \<notin> set (sf_tables f)) names\<rparr>)"

text \<open>
  \<open>INSERT OR IGNORE\<close> skips a row that violates a PRIMARY KEY or UNIQUE constraint, but not one that
  violates a foreign key.
\<close>

definition seed_defaults :: migration where
  "seed_defaults f =
     (let db = sf_iam f;
          db1 = (if sql_exists (\<lambda>s. su_id s = seed_subject_id \<or> su_name s = ''*'') (iam_subjects db) then db
                 else db\<lparr>iam_subjects := iam_subjects db @ [\<lparr>su_id = seed_subject_id, su_type = ''user'', su_name = ''*''\<rparr>]\<rparr>)
      in if sql_exists (\<lambda>p. pr_id p = seed_policy_id) (iam_policies db1) then Ok (f\<lparr>sf_iam := db1\<rparr>)
         else if \<not> sql_exists (\<lambda>s. su_id s = seed_subject_id) (iam_subjects db1) then Err (SqlError ForeignKeyViolation)
         else Ok (f\<lparr>sf_iam := db1\<lparr>iam_policies := iam_policies db1 @
                [\<lparr>pr_id = seed_policy_id, pr_subject_id = seed_subject_id, pr_resource_pattern = ''*'',
                  pr_action = ''SELECT'', pr_effect = ''Allow'', pr_row_filter = None,
                  pr_column_mask_json = None, pr_priority = 0\<rparr>]\<rparr>\<rparr>))"

definition migrations :: "(nat \<times> migration) list" where
  "migrations =
     [(1, create_tables [''coordinators'']), (2, create_tables [''datasets'']),
      (3, create_tables [''iam_subjects'', ''iam_group_members'', ''iam_policies'']),
      (4, create_tables [''audit_events'']), (5, seed_defaults)]"

text \<open>
  What sqlx documents of a run: each migration whose version the file does not record runs in a transaction
  that records it; one that fails ends the run, and those before it stay.
\<close>

fun run_pending :: "(nat \<times> migration) list \<Rightarrow> sqlite_file \<Rightarrow> unit store_result \<times> sqlite_file" where
  "run_pending [] f = (Ok (), f)"
| "run_pending ((v, sql) # ms) f =
     (if v \<in> set (sf_applied f) then run_pending ms f
      else case sql f of
        Inl e \<Rightarrow> (Err e, f)
      | Inr f' \<Rightarrow> run_pending ms (f'\<lparr>sf_applied := sf_applied f @ [v]\<rparr>))"

section \<open>The start\<close>

datatype start_error =
    BadConfig string | BadDatabase string | MigrationFailed store_error | StoreFailed store_error
  | BadAddress string | BindFailed string

type_synonym disk = "string \<rightharpoonup> sqlite_file"

record start_env =
  st_build :: config_build
  st_reader :: config_reader
  st_open :: "string \<Rightarrow> (string, string) result"
  st_migrate :: "(nat \<times> migration) list \<Rightarrow> sqlite_file \<Rightarrow> unit store_result \<times> sqlite_file"
  st_addr :: "string \<Rightarrow> (string, string) result"
  st_bind :: "string \<Rightarrow> (string, unit) result"

definition migrator_ok :: "start_env \<Rightarrow> bool" where
  "migrator_ok E \<longleftrightarrow>
     (\<forall>ms f. set (sf_applied f) \<subseteq> fst ` set ms \<longrightarrow> st_migrate E ms f = run_pending ms f)"

text \<open>\<open>create_if_missing\<close>: a path without a file gets an empty one.\<close>

definition db_connect :: "start_env \<Rightarrow> string \<Rightarrow> disk \<Rightarrow> (start_error, string \<times> sqlite_file) result \<times> disk" where
  "db_connect E database_url disk =
     (case st_open E database_url of
        Inl e \<Rightarrow> (Err (BadDatabase e), disk)
      | Inr path \<Rightarrow>
          (let f = (case disk path of None \<Rightarrow> empty_file | Some f \<Rightarrow> f);
               (r, f') = st_migrate E migrations f
           in (case r of Inl e \<Rightarrow> Err (MigrationFailed e) | Inr _ \<Rightarrow> Ok (path, f'), disk(path \<mapsto> f'))))"

record central_server =
  cs_path :: string
  cs_db :: sqlite_file
  cs_engine :: snapshot_engine
  cs_grpc_addr :: string
  cs_http_addr :: string

text \<open>
  The gRPC address is parsed before the HTTP listener is bound; the gRPC listener is bound last, when
  the two servers run.
\<close>

definition central_main :: "libs \<Rightarrow> scan \<Rightarrow> start_env \<Rightarrow> string list \<Rightarrow> disk \<Rightarrow> (start_error, central_server) result \<times> disk" where
  "central_main L scan E args disk =
     (case central_config_load (st_build E) (st_reader E) (arg_value ''--config'' args) of
        Inl e \<Rightarrow> (Err (BadConfig e), disk)
      | Inr cfg \<Rightarrow>
          (case db_connect E (ct_database_url cfg) disk of
             (Inl e, disk') \<Rightarrow> (Err e, disk')
           | (Inr (path, f), disk') \<Rightarrow>
               (and_then (map_err StoreFailed (central_start L scan (sf_iam f))) (\<lambda>iam.
                and_then (map_err BadAddress (st_addr E (ct_grpc_addr cfg))) (\<lambda>grpc_addr.
                and_then (map_err BindFailed (st_bind E (ct_http_addr cfg))) (\<lambda>_.
                and_then (map_err BindFailed (st_bind E grpc_addr)) (\<lambda>_.
                Ok \<lparr>cs_path = path, cs_db = f, cs_engine = ic_engine iam, cs_grpc_addr = grpc_addr,
                    cs_http_addr = ct_http_addr cfg\<rparr>)))), disk')))"

section \<open>The running server\<close>

datatype central_call = IamCall iam_rpc | CatalogCall catalog_rpc

abbreviation server_iam :: "central_server \<Rightarrow> iam_central" where
  "server_iam srv \<equiv> \<lparr>ic_db = sf_iam (cs_db srv), ic_engine = cs_engine srv\<rparr>"

fun server_step :: "libs \<Rightarrow> scan \<Rightarrow> central_server \<Rightarrow> central_call \<Rightarrow> central_server" where
  "server_step L scan srv (IamCall x) =
     (let st = iam_step L scan (server_iam srv) x
      in srv\<lparr>cs_db := (cs_db srv)\<lparr>sf_iam := ic_db st\<rparr>, cs_engine := ic_engine st\<rparr>)"
| "server_step L scan srv (CatalogCall x) =
     srv\<lparr>cs_db := (cs_db srv)\<lparr>sf_catalog := rpc_step L (sf_catalog (cs_db srv)) x\<rparr>\<rparr>"

text \<open>What a stopped server leaves on the disk.\<close>

definition server_stop :: "central_server \<Rightarrow> disk \<Rightarrow> disk" where
  "server_stop srv disk = disk(cs_path srv \<mapsto> cs_db srv)"

section \<open>Well-formed files\<close>

definition file_inv :: "libs \<Rightarrow> sqlite_file \<Rightarrow> bool" where
  "file_inv L f \<longleftrightarrow>
     set (sf_applied f) = fst ` set migrations \<and> iam_inv L (sf_iam f) \<and> catalog_inv (sf_catalog f)"

definition disk_inv :: "libs \<Rightarrow> disk \<Rightarrow> bool" where
  "disk_inv L disk \<longleftrightarrow> (\<forall>path f. disk path = Some f \<longrightarrow> file_inv L f)"

definition server_inv :: "libs \<Rightarrow> scan \<Rightarrow> central_server \<Rightarrow> bool" where
  "server_inv L scan srv \<longleftrightarrow> iam_env L scan \<and> file_inv L (cs_db srv) \<and> iam_sync L scan (server_iam srv)"

lemma migratorD:
  "migrator_ok E \<Longrightarrow> set (sf_applied f) \<subseteq> fst ` set ms \<Longrightarrow> st_migrate E ms f = run_pending ms f"
  by (simp add: migrator_ok_def)

lemma run_pending_applied: "fst ` set ms \<subseteq> set (sf_applied f) \<Longrightarrow> run_pending ms f = (Ok (), f)"
  by (induction ms) auto

text \<open>A new file gets the tables and the rows of migration 0005, a migrated one is left as it is.\<close>

lemma migrate_fresh:
  "run_pending migrations empty_file =
     (Ok (), \<lparr>sf_applied = [1, 2, 3, 4, 5],
              sf_tables = [''coordinators'', ''datasets'', ''iam_subjects'', ''iam_group_members'', ''iam_policies'', ''audit_events''],
              sf_catalog = empty_catalog True, sf_iam = seeded_iam_db\<rparr>)"
  by (simp add: migrations_def empty_file_def create_tables_def seed_defaults_def seeded_iam_db_def Let_def)

lemma migrate_file_inv: "file_inv L f \<Longrightarrow> run_pending migrations f = (Ok (), f)"
  by (simp add: file_inv_def run_pending_applied)

lemma migrate_current: "migrator_ok E \<Longrightarrow> file_inv L f \<Longrightarrow> st_migrate E migrations f = (Ok (), f)"
  using migratorD [of E f migrations] migrate_file_inv [of L f] by (simp add: file_inv_def)

lemma migrate_inv:
  assumes "uuid_parse L seed_policy_id \<noteq> None" "case disk path of None \<Rightarrow> f = empty_file | Some g \<Rightarrow> f = g" "disk_inv L disk"
  obtains f' where "run_pending migrations f = (Ok (), f')" "file_inv L f'"
proof (cases "disk path")
  case None
  with assms(2) have "f = empty_file" by simp
  with migrate_fresh assms(1) show thesis
    by (intro that) (auto simp: file_inv_def migrations_def seeded_iam_inv)
next
  case (Some g)
  with assms(2,3) have "file_inv L f" by (simp add: disk_inv_def)
  with migrate_file_inv show thesis by (intro that)
qed

lemma file_inv_applied: "file_inv L f \<or> f = empty_file \<Longrightarrow> set (sf_applied f) \<subseteq> fst ` set migrations"
  by (auto simp: file_inv_def empty_file_def)

lemma db_connect_inv:
  assumes "migrator_ok E" "uuid_parse L seed_policy_id \<noteq> None" "disk_inv L disk"
    and "db_connect E url disk = (Ok (path, f), disk')"
  shows "st_open E url = Ok path" "file_inv L f" "disk' = disk(path \<mapsto> f)"
proof -
  let ?f = "case disk path of None \<Rightarrow> empty_file | Some g \<Rightarrow> g"
  have url: "st_open E url = Ok path"
    using assms(4) by (auto simp: db_connect_def Let_def split: sum.splits prod.splits)
  have "case disk path of None \<Rightarrow> ?f = empty_file | Some g \<Rightarrow> ?f = g" by (simp split: option.split)
  from migrate_inv [OF assms(2) this assms(3)] obtain f' where
    f': "run_pending migrations ?f = (Ok (), f')" "file_inv L f'" .
  have "file_inv L ?f \<or> ?f = empty_file"
    using assms(3) by (simp add: disk_inv_def split: option.split)
  then have "st_migrate E migrations ?f = (Ok (), f')"
    using migratorD [OF assms(1) file_inv_applied] f'(1) by simp
  with assms(4) url f'(2) show "st_open E url = Ok path" "file_inv L f" "disk' = disk(path \<mapsto> f)"
    by (auto simp: db_connect_def)
qed

lemma server_step_inv [step_invs]:
  assumes "server_inv L scan srv"
  shows "server_inv L scan (server_step L scan srv x)"
proof (cases x)
  case (IamCall y)
  have "iam_sync L scan (iam_step L scan (server_iam srv) y)"
    using assms by (intro iam_step_sync) (simp_all add: server_inv_def)
  then show ?thesis
    using assms by (simp add: IamCall Let_def server_inv_def file_inv_def iam_sync_def)
next
  case (CatalogCall y)
  then show ?thesis
    using assms rpc_step_inv by (simp add: server_inv_def file_inv_def)
qed

interpretation server: invariant_step "server_step L scan" "server_inv L scan" for L scan
  by unfold_locales (rule server_step_inv)

lemma server_step_fixed:
  "cs_path (run (server_step L scan) srv calls) = cs_path srv"
  "cs_grpc_addr (run (server_step L scan) srv calls) = cs_grpc_addr srv"
  "cs_http_addr (run (server_step L scan) srv calls) = cs_http_addr srv"
proof -
  have "cs_path (server_step L scan srv x) = cs_path srv" "cs_grpc_addr (server_step L scan srv x) = cs_grpc_addr srv"
    "cs_http_addr (server_step L scan srv x) = cs_http_addr srv" for srv x
    by (cases x; simp add: Let_def)+
  then show "cs_path (run (server_step L scan) srv calls) = cs_path srv"
    "cs_grpc_addr (run (server_step L scan) srv calls) = cs_grpc_addr srv"
    "cs_http_addr (run (server_step L scan) srv calls) = cs_http_addr srv"
    by (induction calls arbitrary: srv) simp_all
qed

lemma central_main_Ok:
  assumes "central_main L scan E args disk = (Ok srv, disk')"
  obtains cfg where "central_config_load (st_build E) (st_reader E) (arg_value ''--config'' args) = Ok cfg"
    "db_connect E (ct_database_url cfg) disk = (Ok (cs_path srv, cs_db srv), disk')"
    "central_start L scan (sf_iam (cs_db srv)) = Ok (server_iam srv)"
    "st_addr E (ct_grpc_addr cfg) = Ok (cs_grpc_addr srv)" "st_bind E (ct_http_addr cfg) = Ok ()"
    "st_bind E (cs_grpc_addr srv) = Ok ()" "cs_http_addr srv = ct_http_addr cfg"
proof -
  from assms obtain cfg path f where
    cfg: "central_config_load (st_build E) (st_reader E) (arg_value ''--config'' args) = Ok cfg"
    and db: "db_connect E (ct_database_url cfg) disk = (Ok (path, f), disk')"
    and rest: "and_then (map_err StoreFailed (central_start L scan (sf_iam f))) (\<lambda>iam.
                and_then (map_err BadAddress (st_addr E (ct_grpc_addr cfg))) (\<lambda>grpc_addr.
                and_then (map_err BindFailed (st_bind E (ct_http_addr cfg))) (\<lambda>_.
                and_then (map_err BindFailed (st_bind E grpc_addr)) (\<lambda>_.
                Ok \<lparr>cs_path = path, cs_db = f, cs_engine = ic_engine iam, cs_grpc_addr = grpc_addr,
                    cs_http_addr = ct_http_addr cfg\<rparr>)))) = Ok srv"
    by (auto simp: central_main_def split: sum.splits prod.splits)
  from rest obtain iam grpc_addr where iam: "central_start L scan (sf_iam f) = Ok iam"
    and addr: "st_addr E (ct_grpc_addr cfg) = Ok grpc_addr" "st_bind E (ct_http_addr cfg) = Ok ()" "st_bind E grpc_addr = Ok ()"
    and "Ok \<lparr>cs_path = path, cs_db = f, cs_engine = ic_engine iam, cs_grpc_addr = grpc_addr,
            cs_http_addr = ct_http_addr cfg\<rparr> = (Ok srv :: (start_error, central_server) result)"
    unfolding and_then_Ok map_err_Ok by auto
  then have srv: "srv = \<lparr>cs_path = path, cs_db = f, cs_engine = ic_engine iam, cs_grpc_addr = grpc_addr,
      cs_http_addr = ct_http_addr cfg\<rparr>" by simp
  have "ic_db iam = sf_iam f" using iam by (auto simp: central_start_def and_then_Ok)
  then have "server_iam srv = iam" by (simp add: srv)
  then have "central_start L scan (sf_iam (cs_db srv)) = Ok (server_iam srv)" using iam by (simp add: srv)
  with cfg db addr show thesis by (intro that [of cfg]) (simp_all add: srv)
qed

lemma central_main_inv:
  assumes "iam_env L scan" "uuid_parse L seed_policy_id \<noteq> None" "migrator_ok E" "disk_inv L disk"
    and "central_main L scan E args disk = (Ok srv, disk')"
  shows "server_inv L scan srv" "disk' = disk(cs_path srv \<mapsto> cs_db srv)"
proof -
  obtain cfg :: central_config where
    db: "db_connect E (ct_database_url cfg) disk = (Ok (cs_path srv, cs_db srv), disk')"
    and start: "central_start L scan (sf_iam (cs_db srv)) = Ok (server_iam srv)"
    using central_main_Ok [OF assms(5)] by blast
  note opened = db_connect_inv [OF assms(3,2,4) db]
  have "iam_sync L scan (server_iam srv)"
    by (rule central_start_sync [OF _ start]) (use opened(2) in \<open>simp add: file_inv_def\<close>)
  with assms(1) opened(2) show "server_inv L scan srv" by (simp add: server_inv_def)
  show "disk' = disk(cs_path srv \<mapsto> cs_db srv)" using opened(3) .
qed

section \<open>The life of a database\<close>

text \<open>
  The disks that elan-central alone produces: from an empty disk, by starts that fail and by starts that
  succeed, followed by calls and a stop.
\<close>

inductive elan_disk :: "libs \<Rightarrow> scan \<Rightarrow> start_env \<Rightarrow> disk \<Rightarrow> bool" for L scan E where
  new_disk: "elan_disk L scan E Map.empty"
| failed_start: "elan_disk L scan E disk \<Longrightarrow> central_main L scan E args disk = (Err e, disk') \<Longrightarrow> elan_disk L scan E disk'"
| served: "elan_disk L scan E disk \<Longrightarrow> central_main L scan E args disk = (Ok srv, disk') \<Longrightarrow>
    elan_disk L scan E (server_stop (run (server_step L scan) srv calls) disk')"

lemma db_connect_disk_inv:
  assumes "migrator_ok E" "uuid_parse L seed_policy_id \<noteq> None" "disk_inv L disk"
  shows "disk_inv L (snd (db_connect E url disk))" "fst (db_connect E url disk) \<noteq> Err (MigrationFailed e)"
proof -
  have "disk_inv L (snd (db_connect E url disk)) \<and> fst (db_connect E url disk) \<noteq> Err (MigrationFailed e)"
  proof (cases "st_open E url")
    case (Inr path)
    let ?f = "case disk path of None \<Rightarrow> empty_file | Some g \<Rightarrow> g"
    have "case disk path of None \<Rightarrow> ?f = empty_file | Some g \<Rightarrow> ?f = g" by (simp split: option.split)
    from migrate_inv [OF assms(2) this assms(3)] obtain f' where
      f': "run_pending migrations ?f = (Ok (), f')" "file_inv L f'" .
    have "file_inv L ?f \<or> ?f = empty_file" using assms(3) by (simp add: disk_inv_def split: option.split)
    then have "st_migrate E migrations ?f = (Ok (), f')"
      using migratorD [OF assms(1) file_inv_applied] f'(1) by simp
    then have "db_connect E url disk = (Ok (path, f'), disk(path \<mapsto> f'))" by (simp add: db_connect_def Inr)
    then show ?thesis using f'(2) assms(3) by (simp add: disk_inv_def)
  qed (use assms(3) in \<open>simp add: db_connect_def\<close>)
  then show "disk_inv L (snd (db_connect E url disk))" "fst (db_connect E url disk) \<noteq> Err (MigrationFailed e)" by auto
qed

lemma central_main_disk: "snd (central_main L scan E args disk) =
    (case central_config_load (st_build E) (st_reader E) (arg_value ''--config'' args) of
       Inl _ \<Rightarrow> disk | Inr cfg \<Rightarrow> snd (db_connect E (ct_database_url cfg) disk))"
  by (simp add: central_main_def split: sum.split prod.split)

lemma central_main_disk_inv:
  assumes "migrator_ok E" "uuid_parse L seed_policy_id \<noteq> None" "disk_inv L disk"
  shows "disk_inv L (snd (central_main L scan E args disk))"
  unfolding central_main_disk using assms db_connect_disk_inv(1) by (simp split: sum.split)

lemma elan_disk_inv:
  assumes "iam_env L scan" "uuid_parse L seed_policy_id \<noteq> None" "migrator_ok E" "elan_disk L scan E disk"
  shows "disk_inv L disk"
  using assms(4)
proof induction
  case (failed_start disk args e disk')
  then show ?case using central_main_disk_inv [OF assms(3,2), of disk scan args] by simp
next
  case (served disk args srv disk' calls)
  have "disk_inv L disk'" using central_main_disk_inv [OF assms(3,2), of disk scan args] served by simp
  moreover have "server_inv L scan (run (server_step L scan) srv calls)"
    using central_main_inv(1) [OF assms(1,2,3) served(3,2)] by (rule server.run_keeps)
  ultimately show ?case by (simp add: server_stop_def disk_inv_def server_inv_def)
qed (simp add: disk_inv_def)

lemma central_start_total:
  assumes "iam_env L scan" "iam_inv L db"
  obtains st where "central_start L scan db = Ok st"
  using assms by (auto simp: central_start_def list_policies_total iam_env_def)

section \<open>Properties of the start\<close>

text \<open>
  C14. A database that only elan-central has written never keeps it from starting: whatever calls were served, one after
  another, and however often it was stopped and started, with or without success, all tables satisfy the constraints
  of the schema and the rows of the policies and their subjects decode, so neither the migrations nor the load of the policies
  can fail. (The rows of the datasets are not read at the start, and need not decode: C33.)
\<close>

theorem own_database_starts:
  assumes "iam_env L scan" "uuid_parse L seed_policy_id \<noteq> None" "migrator_ok E" "elan_disk L scan E disk"
  shows "disk_inv L disk \<and> fst (central_main L scan E args disk) \<noteq> Err (MigrationFailed e) \<and>
    fst (central_main L scan E args disk) \<noteq> Err (StoreFailed e)"
proof (cases "central_config_load (st_build E) (st_reader E) (arg_value ''--config'' args)")
  case (Inr cfg)
  have inv: "disk_inv L disk" using assms by (rule elan_disk_inv)
  obtain r disk' where db: "db_connect E (ct_database_url cfg) disk = (r, disk')" by fastforce
  show ?thesis
  proof (cases r)
    case (Inr pf)
    obtain path f where pf: "pf = (path, f)" by fastforce
    have "iam_inv L (sf_iam f)" using db_connect_inv(2) [OF assms(3,2) inv] db Inr pf by (simp add: file_inv_def)
    then obtain st where "central_start L scan (sf_iam f) = Ok st" using central_start_total [OF assms(1)] by blast
    then show ?thesis
      using inv \<open>central_config_load _ _ _ = Ok cfg\<close> db Inr pf
      by (auto simp: central_main_def and_then_def map_err_def split: sum.split)
  qed (use inv Inr db db_connect_disk_inv(2) [OF assms(3,2) inv, of "ct_database_url cfg" e] in
      \<open>auto simp: central_main_def db_connect_def Let_def split: sum.splits prod.splits\<close>)
qed (use elan_disk_inv [OF assms] in \<open>simp add: central_main_def\<close>)

definition demo_start_env :: start_env where
  "demo_start_env =
     \<lparr>st_build = demo_build, st_reader = demo_reader, st_open = Ok, st_migrate = run_pending, st_addr = Ok,
      st_bind = (\<lambda>addr. Ok ())\<rparr>"

lemma demo_migrator [simp]: "migrator_ok demo_start_env"
  by (simp add: migrator_ok_def demo_start_env_def)

definition demo_file :: sqlite_file where
  "demo_file = snd (run_pending migrations empty_file)"

definition demo_server :: central_server where
  "demo_server =
     \<lparr>cs_path = ''sqlite://demo.db'', cs_db = demo_file, cs_engine = ic_engine demo_central,
      cs_grpc_addr = ''0.0.0.0:50051'', cs_http_addr = ''0.0.0.0:8080''\<rparr>"

lemma demo_central_config:
  "central_config_load demo_build demo_reader None =
     Ok (central_config_default\<lparr>ct_database_url := ''sqlite://demo.db''\<rparr>)"
  by (simp add: central_config_load_def demo_build_def config_sources_def demo_read_def required_field_def demo_reader_def
      central_config_default_def)

lemma demo_central_main:
  "central_main demo_libs id demo_start_env [''elan-central''] Map.empty =
     (Ok demo_server, [''sqlite://demo.db'' \<mapsto> demo_file])"
proof -
  have iam: "sf_iam demo_file = seeded_iam_db" by (simp add: demo_file_def migrate_fresh)
  have "run_pending migrations empty_file = (Ok (), demo_file)" by (simp add: demo_file_def migrate_fresh)
  then have "db_connect demo_start_env ''sqlite://demo.db'' Map.empty =
      (Ok (''sqlite://demo.db'', demo_file), [''sqlite://demo.db'' \<mapsto> demo_file])"
    by (simp add: db_connect_def demo_start_env_def)
  moreover have "st_build demo_start_env = demo_build" "st_reader demo_start_env = demo_reader" "st_addr demo_start_env = Ok"
    "st_bind demo_start_env = (\<lambda>addr. Ok ())" by (simp_all add: demo_start_env_def)
  ultimately show ?thesis
    by (simp add: central_main_def demo_central_config demo_central_start iam demo_server_def central_config_default_def)
qed

text \<open>The default policy is deleted while the server runs; the disk it then leaves starts again.\<close>

definition demo_calls :: "central_call list" where
  "demo_calls = [IamCall (DeletePolicy seed_policy_id)]"

definition demo_disk :: disk where
  "demo_disk = server_stop (run (server_step demo_libs id) demo_server demo_calls) [''sqlite://demo.db'' \<mapsto> demo_file]"

theorem own_database_starts_witness:
  "disk_inv demo_libs demo_disk \<and> fst (central_main demo_libs id demo_start_env [''elan-central''] demo_disk) \<noteq> Err (StoreFailed (BadUuid []))"
proof -
  have "elan_disk demo_libs id demo_start_env demo_disk"
    unfolding demo_disk_def by (rule served [OF new_disk demo_central_main])
  from own_database_starts [OF demo_iam_env demo_seed(2) demo_migrator this] show ?thesis by blast
qed

text \<open>
  C13. Restarting elan-central loses nothing and brings nothing back: from the disk that a server leaves after any
  calls, handled one after another, a start with the same arguments gives a server in the same state, with the same tables, the same policies
  in the engine in the same order and the same addresses. A default policy that was deleted stays deleted.
\<close>

theorem restart_keeps_state:
  assumes "iam_env L scan" "uuid_parse L seed_policy_id \<noteq> None" "migrator_ok E" "disk_inv L disk"
    and "central_main L scan E args disk = (Ok srv, disk')"
  shows "\<exists>disk''. central_main L scan E args (server_stop (run (server_step L scan) srv calls) disk') =
    (Ok (run (server_step L scan) srv calls), disk'')"
proof -
  let ?srv = "run (server_step L scan) srv calls"
  have inv: "server_inv L scan ?srv" using central_main_inv(1) [OF assms] by (rule server.run_keeps)
  obtain cfg :: central_config where
    cfg: "central_config_load (st_build E) (st_reader E) (arg_value ''--config'' args) = Ok cfg"
    and db: "db_connect E (ct_database_url cfg) disk = (Ok (cs_path srv, cs_db srv), disk')"
    and rest: "st_addr E (ct_grpc_addr cfg) = Ok (cs_grpc_addr srv)" "st_bind E (ct_http_addr cfg) = Ok ()"
      "st_bind E (cs_grpc_addr srv) = Ok ()" "cs_http_addr srv = ct_http_addr cfg"
    using central_main_Ok [OF assms(5)] by blast
  have "file_inv L (cs_db ?srv)" using inv by (simp add: server_inv_def)
  then have "st_migrate E migrations (cs_db ?srv) = (Ok (), cs_db ?srv)" by (rule migrate_current [OF assms(3)])
  moreover have "st_open E (ct_database_url cfg) = Ok (cs_path srv)"
    using db_connect_inv(1) [OF assms(3,2,4) db] .
  ultimately have "\<exists>d. db_connect E (ct_database_url cfg) (server_stop ?srv disk') = (Ok (cs_path srv, cs_db ?srv), d)"
    by (simp add: db_connect_def server_stop_def server_step_fixed)
  then obtain d where db': "db_connect E (ct_database_url cfg) (server_stop ?srv disk') = (Ok (cs_path srv, cs_db ?srv), d)" ..
  have "central_start L scan (sf_iam (cs_db ?srv)) = Ok (server_iam ?srv)"
    using inv by (simp add: server_inv_def iam_sync_def central_start_def)
  moreover have "\<lparr>cs_path = cs_path srv, cs_db = cs_db ?srv, cs_engine = cs_engine ?srv,
      cs_grpc_addr = cs_grpc_addr srv, cs_http_addr = ct_http_addr cfg\<rparr> = ?srv"
    using rest(4) by (intro central_server.equality) (simp_all add: server_step_fixed)
  ultimately show ?thesis using cfg db' rest by (simp add: central_main_def)
qed

theorem restart_keeps_state_witness:
  "\<exists>disk''. central_main demo_libs id demo_start_env [''elan-central''] demo_disk =
     (Ok (run (server_step demo_libs id) demo_server demo_calls), disk'')"
  unfolding demo_disk_def
  by (rule restart_keeps_state [OF demo_iam_env demo_seed(2) demo_migrator _ demo_central_main]) (simp add: disk_inv_def)

text \<open>
  C19. Upgrading a database from before the default policy can be impossible: when it has a subject of the name
  \<open>*\<close>, which the engine reads as everyone, under an identifier of its own, migration 0005 skips its subject
  but not the policy that refers to it, the foreign key fails, and every start ends with that error and leaves the
  database as it was.
\<close>

theorem upgrade_conflict_fatal:
  assumes "migrator_ok E" "central_config_load (st_build E) (st_reader E) (arg_value ''--config'' args) = Ok cfg"
    and "st_open E (ct_database_url cfg) = Ok path" "disk path = Some f" "set (sf_applied f) = {1, 2, 3, 4}"
    and "''*'' \<in> su_name ` set (iam_subjects (sf_iam f))" "seed_subject_id \<notin> su_id ` set (iam_subjects (sf_iam f))"
    and "seed_policy_id \<notin> pr_id ` set (iam_policies (sf_iam f))"
  shows "central_main L scan E args disk = (Err (MigrationFailed (SqlError ForeignKeyViolation)), disk)"
proof -
  have "sql_exists (\<lambda>s. su_id s = seed_subject_id \<or> su_name s = ''*'') (iam_subjects (sf_iam f))"
    "\<not> sql_exists (\<lambda>p. pr_id p = seed_policy_id) (iam_policies (sf_iam f))"
    "\<not> sql_exists (\<lambda>s. su_id s = seed_subject_id) (iam_subjects (sf_iam f))"
    using assms(6-8) unfolding sql_exists_iff by (metis imageE, metis image_eqI, metis image_eqI)
  then have "seed_defaults f = Err (SqlError ForeignKeyViolation)"
    unfolding seed_defaults_def Let_def by (simp only: if_True if_False simp_thms)
  then have "run_pending migrations f = (Err (SqlError ForeignKeyViolation), f)"
    using assms(5) by (simp add: migrations_def)
  moreover have "st_migrate E migrations f = run_pending migrations f"
    using migratorD [OF assms(1)] assms(5) by (simp add: migrations_def)
  ultimately have "db_connect E (ct_database_url cfg) disk =
      (Err (MigrationFailed (SqlError ForeignKeyViolation)), disk(path \<mapsto> f))"
    using assms(3,4) by (simp add: db_connect_def)
  then show ?thesis using assms(2,4) by (simp add: central_main_def fun_upd_idem)
qed

definition demo_old_file :: sqlite_file where
  "demo_old_file = empty_file\<lparr>sf_applied := [1, 2, 3, 4], sf_iam := (sf_iam empty_file)\<lparr>iam_subjects :=
     [\<lparr>su_id = ''7'', su_type = ''user'', su_name = ''*''\<rparr>]\<rparr>\<rparr>"

theorem upgrade_conflict_fatal_witness:
  "central_main demo_libs id demo_start_env [''elan-central''] [''sqlite://demo.db'' \<mapsto> demo_old_file] =
     (Err (MigrationFailed (SqlError ForeignKeyViolation)), [''sqlite://demo.db'' \<mapsto> demo_old_file])"
  by (rule upgrade_conflict_fatal [OF demo_migrator, where path = "''sqlite://demo.db''"
        and cfg = "central_config_default\<lparr>ct_database_url := ''sqlite://demo.db''\<rparr>" and f = demo_old_file])
    (simp_all add: demo_start_env_def demo_central_config demo_old_file_def empty_file_def seed_subject_id_def)

end
