(* ===== verification/Executor.thy ===== *)
theory Executor
  imports Remote_Scan
begin

text \<open>
  elan-executor: its configuration (\<open>config.rs\<close>), the table providers it builds at startup
  (\<open>context.rs\<close>), the two ports (\<open>main.rs\<close>) and the HTTP SQL service that answers elan-query
  (\<open>sql_service.rs\<close>). DataFusion's session context and Arrow's stream writer are the fields of
  \<open>df_engine\<close>, over an abstract context and table type.
\<close>

section \<open>Configuration\<close>

record object_store_config =
  os_endpoint :: string
  os_access_key :: string
  os_secret_key :: string
  os_bucket :: string
  os_allow_http :: bool

datatype dataset_mount =
    MountParquet string string
  | MountCsv string string bool

definition mount_table_name :: "dataset_mount \<Rightarrow> string" where
  "mount_table_name m = (case m of MountParquet table_name _ \<Rightarrow> table_name | MountCsv table_name _ _ \<Rightarrow> table_name)"

record executor_config =
  xc_bind_host :: string
  xc_bind_port :: u16
  xc_coordinator_url :: string
  xc_object_store :: "object_store_config option"
  xc_datasets :: "dataset_mount list"

definition executor_config_default :: executor_config where
  "executor_config_default =
     \<lparr>xc_bind_host = ''0.0.0.0'', xc_bind_port = 50055, xc_coordinator_url = ''http://localhost:8081'',
      xc_object_store = None, xc_datasets = []\<rparr>"

text \<open>\<open>load\<close>: the file's text and the TOML parser are arguments; without a path the default is used.\<close>

definition executor_config_load ::
  "(string \<Rightarrow> (string, string) result) \<Rightarrow> (string \<Rightarrow> (string, executor_config) result) \<Rightarrow> string option \<Rightarrow>
   (string, executor_config) result" where
  "executor_config_load read_to_string from_toml config_path =
     (case config_path of
        Some path \<Rightarrow> and_then (read_to_string path) from_toml
      | None \<Rightarrow> Ok executor_config_default)"

section \<open>Table providers\<close>

record ('x, 't, 'c) df_engine =
  new_context :: 'x
  register_store :: "object_store_config \<Rightarrow> 'x \<Rightarrow> (string, 'x) result"
  register_parquet :: "string \<Rightarrow> string \<Rightarrow> 'x \<Rightarrow> (string, 'x) result"
  register_csv :: "string \<Rightarrow> string \<Rightarrow> bool \<Rightarrow> 'x \<Rightarrow> (string, 'x) result"
  deregister_table :: "string \<Rightarrow> 'x \<Rightarrow> (string, 't option \<times> 'x) result"
  register_table :: "string \<Rightarrow> 't \<Rightarrow> 'x \<Rightarrow> (string, 'x) result"
  run_statement :: "'x \<Rightarrow> string \<Rightarrow> (string, 'c batch list) result"
  ipc_start :: "schema \<Rightarrow> (string, u8 list) result"
  ipc_write :: "u8 list \<Rightarrow> 'c batch \<Rightarrow> (string, u8 list) result"
  ipc_finish :: "u8 list \<Rightarrow> (string, u8 list) result"

text \<open>A loop that stops at the first error.\<close>

fun try_fold :: "('s \<Rightarrow> 'a \<Rightarrow> ('e, 's) result) \<Rightarrow> 's \<Rightarrow> 'a list \<Rightarrow> ('e, 's) result" where
  "try_fold f s [] = Ok s"
| "try_fold f s (x # xs) = and_then (f s x) (\<lambda>s'. try_fold f s' xs)"

definition with_object_store :: "('x, 't, 'c) df_engine \<Rightarrow> object_store_config option \<Rightarrow> (string, 'x) result" where
  "with_object_store D object_store =
     (case object_store of None \<Rightarrow> Ok (new_context D) | Some s3_cfg \<Rightarrow> register_store D s3_cfg (new_context D))"

definition register_mount :: "('x, 't, 'c) df_engine \<Rightarrow> 'x \<Rightarrow> dataset_mount \<Rightarrow> (string, 'x) result" where
  "register_mount D ctx mount =
     (case mount of
        MountParquet table_name path \<Rightarrow> register_parquet D table_name path ctx
      | MountCsv table_name path has_header \<Rightarrow> register_csv D table_name path has_header ctx)"

definition take_provider ::
  "('x, 't, 'c) df_engine \<Rightarrow> (string \<times> 't) list \<times> 'x \<Rightarrow> dataset_mount \<Rightarrow> (string, (string \<times> 't) list \<times> 'x) result" where
  "take_provider D acc mount =
     (let (providers, ctx) = acc; name = mount_table_name mount
      in and_then (deregister_table D name ctx) (\<lambda>(found, ctx').
         Ok (case found of None \<Rightarrow> providers | Some provider \<Rightarrow> providers @ [(name, provider)], ctx')))"

definition build_providers :: "('x, 't, 'c) df_engine \<Rightarrow> executor_config \<Rightarrow> (string, (string \<times> 't) list) result" where
  "build_providers D cfg =
     and_then (with_object_store D (xc_object_store cfg)) (\<lambda>ctx0.
     and_then (try_fold (register_mount D) ctx0 (xc_datasets cfg)) (\<lambda>ctx1.
     and_then (try_fold (take_provider D) ([], ctx1) (xc_datasets cfg)) (\<lambda>(providers, ctx2).
     Ok providers)))"

section \<open>The SQL service\<close>

record 't sql_service_state =
  ss_providers :: "(string \<times> 't) list"
  ss_object_store :: "object_store_config option"

definition service_session :: "('x, 't, 'c) df_engine \<Rightarrow> 't sql_service_state \<Rightarrow> (string, 'x) result" where
  "service_session D st =
     and_then (with_object_store D (ss_object_store st)) (\<lambda>ctx.
     try_fold (\<lambda>ctx (name, provider). register_table D name provider ctx) ctx (ss_providers st))"

text \<open>\<open>str::from_utf8\<close>: the well-formed byte sequences of the Unicode standard.\<close>

definition cont_byte :: "nat \<Rightarrow> bool" where
  "cont_byte b \<longleftrightarrow> 128 \<le> b \<and> b \<le> 191"

fun utf8_valid :: "nat list \<Rightarrow> bool" where
  "utf8_valid [] = True"
| "utf8_valid (a # s) =
     (if a < 128 then utf8_valid s
      else case s of
        [] \<Rightarrow> False
      | b # s1 \<Rightarrow>
          if 194 \<le> a \<and> a \<le> 223 then cont_byte b \<and> utf8_valid s1
          else case s1 of
            [] \<Rightarrow> False
          | c # s2 \<Rightarrow>
              if 224 \<le> a \<and> a \<le> 239
              then (if a = 224 then 160 \<le> b \<and> b \<le> 191 else if a = 237 then 128 \<le> b \<and> b \<le> 159 else cont_byte b)
                   \<and> cont_byte c \<and> utf8_valid s2
              else case s2 of
                [] \<Rightarrow> False
              | d # s3 \<Rightarrow>
                  240 \<le> a \<and> a \<le> 244 \<and>
                  (if a = 240 then 144 \<le> b \<and> b \<le> 191 else if a = 244 then 128 \<le> b \<and> b \<le> 143 else cont_byte b)
                  \<and> cont_byte c \<and> cont_byte d \<and> utf8_valid s3)"

definition bytes_of :: "string \<Rightarrow> u8 list" where
  "bytes_of s = map (\<lambda>c. word_of_nat (of_char c)) s"

definition string_of :: "u8 list \<Rightarrow> string" where
  "string_of bs = map (\<lambda>b. char_of (unat b)) bs"

datatype sql_response = SqlError400 string | SqlError500 string | ArrowStream "u8 list"

definition write_stream :: "('x, 't, 'c) df_engine \<Rightarrow> schema \<Rightarrow> 'c batch list \<Rightarrow> (string, u8 list) result" where
  "write_stream D schema batches =
     and_then (ipc_start D schema) (\<lambda>buf.
     and_then (try_fold (ipc_write D) buf batches) (\<lambda>buf'.
     ipc_finish D buf'))"

text \<open>
  \<open>handle_sql\<close>. For an empty result the code ignores the writer's errors and sends the bytes written
  so far.
\<close>

definition handle_sql ::
  "('x, 't, 'c) df_engine \<Rightarrow> (u8 list \<Rightarrow> string) \<Rightarrow> 't sql_service_state \<Rightarrow> u8 list \<Rightarrow> sql_response" where
  "handle_sql D utf8_error st body =
     (if \<not> utf8_valid (map unat body) then SqlError400 (''invalid UTF-8: '' @ utf8_error body)
      else
        let sql = string_of body
        in case service_session D st of
             Inl e \<Rightarrow> SqlError500 e
           | Inr ctx \<Rightarrow>
               (case run_statement D ctx sql of
                  Inl e \<Rightarrow> SqlError400 e
                | Inr [] \<Rightarrow>
                    ArrowStream (case ipc_start D [] of
                                   Inl _ \<Rightarrow> []
                                 | Inr buf \<Rightarrow> (case ipc_finish D buf of Inl _ \<Rightarrow> buf | Inr buf' \<Rightarrow> buf'))
                | Inr (b # bs) \<Rightarrow>
                    (case write_stream D (b_schema b) (b # bs) of
                       Inl e \<Rightarrow> SqlError500 e
                     | Inr buf \<Rightarrow> ArrowStream buf)))"

section \<open>The ports\<close>

definition executor_http_port :: "bool \<Rightarrow> executor_config \<Rightarrow> u16 option" where
  "executor_http_port checks cfg = add_checked checks (xc_bind_port cfg) 1"

definition executor_http_addr :: "executor_config \<Rightarrow> u16 \<Rightarrow> string" where
  "executor_http_addr cfg http_port = xc_bind_host cfg @ '':'' @ nat_str (unat http_port)"

definition scheduler_addr :: "executor_config \<Rightarrow> string" where
  "scheduler_addr cfg = xc_bind_host cfg @ '':'' @ nat_str (unat (xc_bind_port cfg))"

section \<open>Properties of the executor\<close>

lemma unat_char_byte: "unat (word_of_nat (of_char c) :: u8) = (of_char c :: nat)"
proof -
  have "(of_char c :: nat) < 256" by (rule nat_of_char_less_256)
  then show ?thesis by (simp add: unsigned_of_nat take_bit_eq_mod)
qed

lemma string_of_bytes_of [simp]: "string_of (bytes_of s) = s"
  by (simp add: string_of_def bytes_of_def unat_char_byte map_idI)

lemma bytes_of_nat: "map unat (bytes_of s) = map of_char s"
  by (simp add: bytes_of_def unat_char_byte)

text \<open>The HTTP reply that axum makes of a response, as elan-query's client sees it.\<close>

definition reply_of :: "sql_response \<Rightarrow> http_response" where
  "reply_of r =
     (case r of
        SqlError400 m \<Rightarrow> \<lparr>hr_status = 400, hr_status_text = ''400 Bad Request'', hr_text = Ok m, hr_bytes = Ok (bytes_of m)\<rparr>
      | SqlError500 m \<Rightarrow> \<lparr>hr_status = 500, hr_status_text = ''500 Internal Server Error'', hr_text = Ok m, hr_bytes = Ok (bytes_of m)\<rparr>
      | ArrowStream bs \<Rightarrow> \<lparr>hr_status = 200, hr_status_text = ''200 OK'', hr_text = Ok [], hr_bytes = Ok bs\<rparr>)"

text \<open>What Arrow documents of its stream format: a stream that was written reads back as its batches.\<close>

definition ipc_round_trip :: "('x, 't, 'c) df_engine \<Rightarrow> 'c scan_env \<Rightarrow> bool" where
  "ipc_round_trip D E \<longleftrightarrow>
     (\<forall>s bs bytes. write_stream D s bs = Ok bytes \<longrightarrow> ipc_read E bytes = Ok (map Ok bs))"

lemma ipc_round_tripD: "ipc_round_trip D E \<Longrightarrow> write_stream D s bs = Ok bytes \<Longrightarrow> ipc_read E bytes = Ok (map Ok bs)"
  by (simp add: ipc_round_trip_def)

lemma traverse_Ok_map: "traverse (map_err ExternalError) (map Ok bs) = Ok bs"
  by (induction bs) simp_all

lemma write_empty_stream:
  "write_stream D [] [] = Ok bytes \<Longrightarrow>
   (case ipc_start D [] of Inl _ \<Rightarrow> [] | Inr buf \<Rightarrow> (case ipc_finish D buf of Inl _ \<Rightarrow> buf | Inr buf' \<Rightarrow> buf')) = bytes"
  by (auto simp: write_stream_def and_then_Ok)

lemma service_transparent:
  assumes "ipc_round_trip D E" and "utf8_valid (map of_char sql)"
    and "http_post E url sql = Ok (reply_of (handle_sql D utf8_error st (bytes_of sql)))"
    and "service_session D st = Ok ctx"
    and "\<And>bs. run_statement D ctx sql = Ok bs \<Longrightarrow>
           \<exists>bytes. write_stream D (case bs of [] \<Rightarrow> [] | b # _ \<Rightarrow> b_schema b) bs = Ok bytes"
  shows "fetch_batches E url sql =
    (case run_statement D ctx sql of
       Inl e \<Rightarrow> Err (ExternalError (''executor SQL service error (400 Bad Request): '' @ e))
     | Inr bs \<Rightarrow> Ok bs)"
proof (cases "run_statement D ctx sql")
  case (Inl e)
  with assms(2-4) show ?thesis by (simp add: fetch_batches_def handle_sql_def bytes_of_nat reply_of_def Let_def)
next
  case (Inr bs)
  obtain bytes where w: "write_stream D (case bs of [] \<Rightarrow> [] | b # _ \<Rightarrow> b_schema b) bs = Ok bytes"
    using assms(5) Inr by blast
  then have "handle_sql D utf8_error st (bytes_of sql) = ArrowStream bytes"
    using assms(2,4) Inr write_empty_stream [of D bytes]
    by (cases bs) (simp_all add: handle_sql_def bytes_of_nat Let_def)
  with assms(3) ipc_round_tripD [OF assms(1) w] Inr show ?thesis
    by (simp add: fetch_batches_def reply_of_def traverse_Ok_map)
qed

text \<open>
  A scan of elan-query over the SQL service of the executor is transparent: where the statement is
  well-formed text and runs, and its batches can be written, the scan gets exactly the executor's
  batches; where it fails, the scan fails with the executor's message.
\<close>

theorem executor_round_trip:
  assumes "ipc_round_trip D E" and "utf8_valid (map of_char sql)"
    and "http_post E url sql = Ok (reply_of (handle_sql D utf8_error st (bytes_of sql)))"
    and "service_session D st = Ok ctx"
    and "\<And>bs. run_statement D ctx sql = Ok bs \<Longrightarrow>
           \<exists>bytes. write_stream D (case bs of [] \<Rightarrow> [] | b # _ \<Rightarrow> b_schema b) bs = Ok bytes"
  shows "fetch_batches E url sql =
    (case run_statement D ctx sql of
       Inl e \<Rightarrow> Err (ExternalError (''executor SQL service error (400 Bad Request): '' @ e))
     | Inr bs \<Rightarrow> Ok bs)"
  using assms by (rule service_transparent)

text \<open>An engine and a world for the witness: one table of one row, and a stream that carries nothing.\<close>

definition demo_engine :: "(unit, unit, nat) df_engine" where
  "demo_engine =
     \<lparr>new_context = (), register_store = (\<lambda>c x. Ok x), register_parquet = (\<lambda>n p x. Ok x), register_csv = (\<lambda>n p h x. Ok x),
      deregister_table = (\<lambda>n x. Ok (Some (), x)), register_table = (\<lambda>n t x. Ok x),
      run_statement = (\<lambda>x sql. if sql = ''SELECT * FROM'' then Err ''parse error'' else Ok []),
      ipc_start = (\<lambda>s. Ok []), ipc_write = (\<lambda>buf b. Err ''not written''), ipc_finish = (\<lambda>buf. Ok buf)\<rparr>"

definition demo_service :: "unit sql_service_state" where
  "demo_service = \<lparr>ss_providers = [(''customers'', ())], ss_object_store = None\<rparr>"

definition demo_world :: "nat scan_env" where
  "demo_world =
     \<lparr>scalar_text = (\<lambda>v. ''NULL''),
      http_post = (\<lambda>url sql. Ok (reply_of (handle_sql demo_engine (\<lambda>_. []) demo_service (bytes_of sql)))),
      ipc_read = (\<lambda>bytes. Ok [])\<rparr>"

lemma demo_round_trip: "ipc_round_trip demo_engine demo_world"
proof -
  have "bs = []" if "write_stream demo_engine s bs = Ok bytes" for s bs bytes
    using that by (cases bs) (auto simp: write_stream_def demo_engine_def)
  then show ?thesis by (auto simp: ipc_round_trip_def demo_world_def)
qed

theorem executor_round_trip_witness:
  "fetch_batches demo_world ''http://lb:50056/sql'' ''SELECT * FROM'' =
     Err (ExternalError (''executor SQL service error (400 Bad Request): '' @ ''parse error''))"
  by (subst executor_round_trip [OF demo_round_trip, of _ _ "\<lambda>_. []" demo_service "()"])
    (auto simp: demo_world_def demo_engine_def demo_service_def service_session_def with_object_store_def write_stream_def)

text \<open>
  The two ends agree on the port: a scan of a dataset whose endpoint is the coordinator's host with
  the executor's Ballista port goes to the port on which that executor serves SQL, and where the
  executor's own arithmetic panics so does the scan's.
\<close>

theorem scan_reaches_executor:
  assumes "ds_executor_endpoint (rs_dataset sc) = host @ '':'' @ nat_str (unat (xc_bind_port cfg))"
  shows "scan_execute checks E sc =
    map_option (\<lambda>http_port.
        and_then (fetch_batches E (scan_url host http_port) (build_sql (scalar_text E) sc))
          (\<lambda>bs. Ok (bs, case bs of [] \<Rightarrow> rs_schema sc | b # _ \<Rightarrow> b_schema b)))
      (executor_http_port checks cfg)"
  using assms parse_endpoint_addr [of host "xc_bind_port cfg"]
  by (simp add: scan_execute_def executor_http_port_def Let_def split: option.split)

theorem scan_reaches_executor_witness:
  "scan_execute True demo_env demo_table_scan =
     Some (Ok ([\<lparr>b_schema = demo_schema, b_columns = [0, 1], b_num_rows = 1\<rparr>], demo_schema))"
  using scan_reaches_executor [of demo_table_scan "''lb''" executor_config_default True demo_env]
  by (simp add: demo_port demo_table_scan_def demo_table_def demo_env_def fetch_batches_def executor_config_default_def
      executor_http_port_def add_checked_port)

text \<open>
  The namespace never reaches the executor: two datasets of one name on one endpoint, in whatever
  namespaces, are the same scan, so they return the same data.
\<close>

theorem namespace_not_sent:
  assumes "ds_name d' = ds_name d" "ds_executor_endpoint d' = ds_executor_endpoint d"
  shows "scan_execute checks E (sc\<lparr>rs_dataset := d'\<rparr>) = scan_execute checks E (sc\<lparr>rs_dataset := d\<rparr>)"
  using assms by (simp add: scan_execute_def build_sql_def Let_def)

theorem namespace_not_sent_witness:
  "scan_execute True demo_env (demo_table_scan\<lparr>rs_dataset := (et_dataset demo_table)\<lparr>ds_namespace := ''finance''\<rparr>\<rparr>) =
   scan_execute True demo_env (demo_table_scan\<lparr>rs_dataset := et_dataset demo_table\<rparr>)"
  by (rule namespace_not_sent) simp_all

text \<open>
  The providers are those of the configured tables, in order, when the engine hands back a provider
  for each name.
\<close>

lemma take_providers_names:
  assumes "try_fold (take_provider D) (ps, ctx) mounts = Ok (qs, ctx')"
  shows "\<exists>ns. map fst qs = map fst ps @ ns \<and> subseq ns (map mount_table_name mounts)"
  using assms
proof (induction mounts arbitrary: ps ctx)
  case (Cons m mounts)
  then obtain found ctx1 where d: "deregister_table D (mount_table_name m) ctx = Ok (found, ctx1)"
    by (auto simp: take_provider_def Let_def and_then_Ok)
  let ?ps = "case found of None \<Rightarrow> ps | Some provider \<Rightarrow> ps @ [(mount_table_name m, provider)]"
  have "take_provider D (ps, ctx) m = Ok (?ps, ctx1)" using d by (simp add: take_provider_def Let_def)
  with Cons.prems have "try_fold (take_provider D) (?ps, ctx1) mounts = Ok (qs, ctx')" by simp
  from Cons.IH [OF this] obtain ns where ns: "map fst qs = map fst ?ps @ ns" "subseq ns (map mount_table_name mounts)" by blast
  show ?case
  proof (cases found)
    case None
    with ns show ?thesis by auto
  next
    case (Some t)
    with ns have "map fst qs = map fst ps @ (mount_table_name m # ns)" "subseq (mount_table_name m # ns) (map mount_table_name (m # mounts))"
      by simp_all
    then show ?thesis by blast
  qed
qed simp

lemma build_providers_names:
  assumes "build_providers D cfg = Ok ps"
  shows "subseq (map fst ps) (map mount_table_name (xc_datasets cfg))"
  using assms take_providers_names [of D "[]"] by (fastforce simp: build_providers_def and_then_Ok)

end
