(* ===== verification/Coordinator.thy ===== *)
theory Coordinator
  imports Central_Catalog Physical_Plan "HOL-Library.Stream"
begin

text \<open>
  elan-coordinator: its configuration (\<open>config.rs\<close>), the registration message of a dataset
  (\<open>dataset.rs\<close>), the startup registration against elan-central (\<open>registration.rs\<close>), the upload keys
  (\<open>upload.rs\<close>), the heartbeat client (\<open>heartbeat.rs\<close>) and the access check it answers
  (\<open>http/health.rs\<close>). DataFusion's schema inference, Arrow's schema writer and the object store are
  arguments. A JSON object lists its members in the order of their keys, as \<open>serde_json\<close> keeps them.
\<close>

section \<open>Configuration\<close>

record store_config =
  cos_endpoint :: string
  cos_access_key :: string
  cos_secret_key :: string
  cos_bucket :: string
  cos_allow_http :: bool

record coordinator_meta =
  cm_id :: string
  cm_environment :: string
  cm_hostname :: string

record parquet_source =
  pqs_name :: string
  pqs_namespace :: string
  pqs_path :: string
  pqs_description :: "string option"

text \<open>The delimiter is a Rust \<open>char\<close>: a Unicode scalar value.\<close>

record csv_source =
  csvs_name :: string
  csvs_namespace :: string
  csvs_path :: string
  csvs_delimiter :: nat
  csvs_has_header :: bool

record postgres_source =
  pgs_name :: string
  pgs_namespace :: string
  pgs_host :: string
  pgs_port :: u16
  pgs_database :: string
  pgs_schema :: string
  pgs_table :: string
  pgs_username :: string
  pgs_password :: string

record delta_source =
  dls_name :: string
  dls_namespace :: string
  dls_path :: string

datatype dataset_config =
    ParquetSource parquet_source
  | CsvSource csv_source
  | PostgresSource postgres_source
  | DeltaSource delta_source

record coordinator_config =
  cc_coordinator :: coordinator_meta
  cc_central_endpoint :: string
  cc_executor_endpoint :: string
  cc_http_addr :: string
  cc_object_store :: "store_config option"
  cc_datasets :: "dataset_config list"

definition default_http_addr :: string where "default_http_addr = ''0.0.0.0:8081''"
definition default_delimiter :: nat where "default_delimiter = 44"
definition default_true :: bool where "default_true = True"
definition default_pg_port :: u16 where "default_pg_port = 5432"

definition dc_name :: "dataset_config \<Rightarrow> string" where
  "dc_name c =
     (case c of
        ParquetSource p \<Rightarrow> pqs_name p
      | CsvSource v \<Rightarrow> csvs_name v
      | PostgresSource g \<Rightarrow> pgs_name g
      | DeltaSource d \<Rightarrow> dls_name d)"

definition dc_namespace :: "dataset_config \<Rightarrow> string" where
  "dc_namespace c =
     (case c of
        ParquetSource p \<Rightarrow> pqs_namespace p
      | CsvSource v \<Rightarrow> csvs_namespace v
      | PostgresSource g \<Rightarrow> pgs_namespace g
      | DeltaSource d \<Rightarrow> dls_namespace d)"

definition dc_source_type :: "dataset_config \<Rightarrow> string" where
  "dc_source_type c =
     (case c of
        ParquetSource _ \<Rightarrow> ''parquet''
      | CsvSource _ \<Rightarrow> ''csv''
      | PostgresSource _ \<Rightarrow> ''postgres''
      | DeltaSource _ \<Rightarrow> ''delta'')"

text \<open>\<open>char::to_string\<close>: the UTF-8 bytes of a scalar value.\<close>

definition utf8_encode :: "nat \<Rightarrow> string" where
  "utf8_encode n =
     (if n < 128 then [char_of n]
      else if n < 2048 then [char_of (192 + n div 64), char_of (128 + n mod 64)]
      else if n < 65536 then [char_of (224 + n div 4096), char_of (128 + n div 64 mod 64), char_of (128 + n mod 64)]
      else [char_of (240 + n div 262144), char_of (128 + n div 4096 mod 64), char_of (128 + n div 64 mod 64),
            char_of (128 + n mod 64)])"

definition dc_metadata_json :: "dataset_config \<Rightarrow> json" where
  "dc_metadata_json c =
     (case c of
        ParquetSource p \<Rightarrow> JObject [(''path'', JString (pqs_path p))]
      | CsvSource v \<Rightarrow>
          JObject [(''delimiter'', JString (utf8_encode (csvs_delimiter v))), (''has_header'', JBool (csvs_has_header v)),
                   (''path'', JString (csvs_path v))]
      | PostgresSource g \<Rightarrow>
          JObject [(''database'', JString (pgs_database g)), (''host'', JString (pgs_host g)),
                   (''port'', JNumber (nat_str (unat (pgs_port g)))), (''schema'', JString (pgs_schema g)),
                   (''table'', JString (pgs_table g)), (''username'', JString (pgs_username g))]
      | DeltaSource d \<Rightarrow> JObject [(''path'', JString (dls_path d))])"

section \<open>The registration of a dataset\<close>

record schema_probe =
  probe_csv :: "string \<Rightarrow> bool \<Rightarrow> u8 \<Rightarrow> (string, schema) result"
  probe_parquet :: "string \<Rightarrow> (string, schema) result"
  write_schema :: "schema \<Rightarrow> (string, u8 list) result"

definition placeholder_schema :: schema where
  "placeholder_schema = [\<lparr>f_name = ''_placeholder'', f_data_type = Utf8, f_nullable = True\<rparr>]"

text \<open>\<open>delimiter as u8\<close> keeps the low byte of the scalar value.\<close>

definition infer_schema :: "schema_probe \<Rightarrow> dataset_config \<Rightarrow> schema" where
  "infer_schema P c =
     (case c of
        CsvSource v \<Rightarrow>
          (case probe_csv P (csvs_path v) (csvs_has_header v) (word_of_nat (csvs_delimiter v)) of
             Inl _ \<Rightarrow> placeholder_schema | Inr s \<Rightarrow> s)
      | ParquetSource p \<Rightarrow>
          (case probe_parquet P (pqs_path p) of Inl _ \<Rightarrow> placeholder_schema | Inr s \<Rightarrow> s)
      | _ \<Rightarrow> placeholder_schema)"

definition to_registration ::
  "libs \<Rightarrow> schema_probe \<Rightarrow> uuid \<Rightarrow> dataset_config \<Rightarrow> string \<Rightarrow> (string, dataset_registration) result" where
  "to_registration L P fresh c coordinator_id =
     and_then (write_schema P (infer_schema P c)) (\<lambda>schema_ipc.
     Ok \<lparr>dg_coordinator_id = coordinator_id, dg_dataset_id = uuid_text L fresh, dg_name = dc_name c,
         dg_namespace = dc_namespace c, dg_source_type = dc_source_type c, dg_arrow_schema_ipc = schema_ipc,
         dg_metadata_json = json_text L (dc_metadata_json c)\<rparr>)"

section \<open>Startup registration\<close>

text \<open>
  The calls go to elan-central's handlers, with the clock and a fresh identifier for each dataset. An
  error of a call or of the schema writer ends the registration and keeps what was registered.
\<close>

datatype startup_error = CallFailed status | SchemaFailed string

fun register_datasets ::
  "libs \<Rightarrow> schema_probe \<Rightarrow> string \<Rightarrow> (string \<times> uuid \<times> dataset_config) list \<Rightarrow> catalog_db \<Rightarrow>
   (startup_error, unit) result \<times> catalog_db" where
  "register_datasets L P coordinator_id [] db = (Ok (), db)"
| "register_datasets L P coordinator_id ((now, fresh, c) # rest) db =
     (case to_registration L P fresh c coordinator_id of
        Inl e \<Rightarrow> (Err (SchemaFailed e), db)
      | Inr registration \<Rightarrow>
          (case register_dataset L now registration db of
             (Inl st, db') \<Rightarrow> (Err (CallFailed st), db')
           | (Inr _, db') \<Rightarrow> register_datasets L P coordinator_id rest db'))"

definition coordinator_register ::
  "libs \<Rightarrow> schema_probe \<Rightarrow> string \<Rightarrow> (string \<times> uuid) list \<Rightarrow> coordinator_config \<Rightarrow> catalog_db \<Rightarrow>
   (startup_error, unit) result \<times> catalog_db" where
  "coordinator_register L P now draws cfg db =
     (case register L now
             \<lparr>rg_coordinator_id = cm_id (cc_coordinator cfg), rg_environment = cm_environment (cc_coordinator cfg),
              rg_hostname = cm_hostname (cc_coordinator cfg), rg_executor_endpoint = cc_executor_endpoint cfg\<rparr> db of
        (Inl st, db') \<Rightarrow> (Err (CallFailed st), db')
      | (Inr _, db') \<Rightarrow>
          register_datasets L P (cm_id (cc_coordinator cfg))
            (map (\<lambda>((t, u), c). (t, u, c)) (zip draws (cc_datasets cfg))) db')"

section \<open>Uploads\<close>

text \<open>
  \<open>Path::file_name\<close>: the last component of a path, empty components and \<open>.\<close> ignored, unless it is
  \<open>..\<close>.
\<close>

definition path_file_name :: "string \<Rightarrow> string option" where
  "path_file_name path =
     (let comps = filter (\<lambda>p. p \<noteq> [] \<and> p \<noteq> ''.'') (str_split (CHR ''/'') path)
      in if comps = [] \<or> last comps = ''..'' then None else Some (last comps))"

definition upload_source :: "dataset_config \<Rightarrow> (string \<times> string) option" where
  "upload_source c =
     (case c of
        CsvSource v \<Rightarrow> Some (csvs_path v, csvs_namespace v)
      | ParquetSource p \<Rightarrow> Some (pqs_path p, pqs_namespace p)
      | _ \<Rightarrow> None)"

definition s3_key :: "dataset_config \<Rightarrow> string \<Rightarrow> string \<Rightarrow> string" where
  "s3_key c local_path ns =
     (let filename = (case path_file_name local_path of Some n \<Rightarrow> n | None \<Rightarrow> dc_name c)
      in ns @ ''/'' @ filename)"

text \<open>
  The bucket is a map from keys to contents; \<open>to_path\<close> is the store's \<open>Path::from\<close>. A file that cannot be read and a \<open>put\<close> that fails are
  logged and skipped; only a store that cannot be built is an error.
\<close>

definition upload_file ::
  "(string \<Rightarrow> (string, u8 list) result) \<Rightarrow> (string \<Rightarrow> string) \<Rightarrow> (string \<Rightarrow> bool) \<Rightarrow> string \<Rightarrow> string \<Rightarrow>
   (string \<rightharpoonup> u8 list) \<Rightarrow> (string \<rightharpoonup> u8 list)" where
  "upload_file read to_path put_ok local_path key bucket =
     (case read local_path of
        Inl _ \<Rightarrow> bucket
      | Inr data \<Rightarrow> if put_ok (to_path key) then bucket(to_path key \<mapsto> data) else bucket)"

definition upload_datasets ::
  "(store_config \<Rightarrow> (string, unit) result) \<Rightarrow> (string \<Rightarrow> (string, u8 list) result) \<Rightarrow> (string \<Rightarrow> string) \<Rightarrow>
   (string \<Rightarrow> bool) \<Rightarrow> dataset_config list \<Rightarrow> store_config \<Rightarrow> (string \<rightharpoonup> u8 list) \<Rightarrow> (string, string \<rightharpoonup> u8 list) result" where
  "upload_datasets build_store read to_path put_ok ds_list cfg bucket =
     and_then (build_store cfg) (\<lambda>_.
     Ok (foldl (\<lambda>b c. case upload_source c of
                       None \<Rightarrow> b
                     | Some (local_path, ns) \<Rightarrow> upload_file read to_path put_ok local_path (s3_key c local_path ns) b)
           bucket ds_list))"

section \<open>Heartbeats\<close>

text \<open>
  The requests of one connection: one for each time the stream is polled, 15 seconds or more apart, with the clock's seconds
  at that time. The client never ends them.
\<close>

record timestamp =
  ts_seconds :: i64
  ts_nanos :: i32

record heartbeat_request =
  hr_coordinator_id :: string
  hr_sent_at :: "timestamp option"

definition heartbeat_requests :: "string \<Rightarrow> i64 stream \<Rightarrow> heartbeat_request stream" where
  "heartbeat_requests coordinator_id clock =
     smap (\<lambda>now. \<lparr>hr_coordinator_id = coordinator_id, hr_sent_at = Some \<lparr>ts_seconds = now, ts_nanos = 0\<rparr>\<rparr>) clock"

text \<open>
  One connection of the client: whether the call succeeded, then the items of the response stream; the
  result is the connection's error, if any. The outer loop pauses 30 seconds after an error only.
\<close>

definition heartbeat_loop :: "(status, (status, bool) result list) result \<Rightarrow> (status, unit) result" where
  "heartbeat_loop answer =
     and_then answer (\<lambda>items.
     and_then (traverse id items) (\<lambda>_. Ok ()))"

definition heartbeat_pauses :: "(status, (status, bool) result list) result list \<Rightarrow> nat list" where
  "heartbeat_pauses answers =
     map (\<lambda>answer. case heartbeat_loop answer of Inl _ \<Rightarrow> 30 | Inr _ \<Rightarrow> 0) answers"

section \<open>The access check\<close>

record auth_check_response =
  ac_allowed :: bool
  ac_reason :: string

definition auth_check :: "string \<Rightarrow> string \<Rightarrow> auth_check_response" where
  "auth_check dataset caller =
     \<lparr>ac_allowed = True, ac_reason = ''PoC: all access allowed by coordinator''\<rparr>"

definition auth_url :: "string \<Rightarrow> string \<Rightarrow> string \<Rightarrow> string" where
  "auth_url coordinator_url dataset caller =
     coordinator_url @ ''/auth/check?dataset='' @ dataset @ ''&caller='' @ caller"

text \<open>The executor's client of the check: the answer's member \<open>allowed\<close>, false unless it is a boolean.\<close>

definition auth_client_check :: "(string \<Rightarrow> (string, json) result) \<Rightarrow> string \<Rightarrow> string \<Rightarrow> string \<Rightarrow> (string, bool) result" where
  "auth_client_check get_json coordinator_url dataset caller =
     and_then (get_json (auth_url coordinator_url dataset caller)) (\<lambda>resp.
     Ok (case resp of
           JObject members \<Rightarrow> (case map_of members ''allowed'' of Some (JBool b) \<Rightarrow> b | _ \<Rightarrow> False)
         | _ \<Rightarrow> False))"

section \<open>Lemmas\<close>

definition hosted :: "string \<Rightarrow> string \<Rightarrow> catalog_db \<Rightarrow> string \<times> string \<Rightarrow> bool" where
  "hosted i ep db k \<longleftrightarrow>
     (\<exists>d \<in> set (datasets db). dataset_key d = k \<and> d_coordinator_id d = i \<and> d_executor_endpoint d = ep \<and> d_is_active d)"

definition serving :: "string \<Rightarrow> string \<Rightarrow> catalog_db \<Rightarrow> bool" where
  "serving i ep db \<longleftrightarrow>
     catalog_inv db \<and> (\<exists>c \<in> set (coordinators db). c_id c = i \<and> c_executor_endpoint c = ep \<and> c_is_alive c)"

lemma upsert_coordinator_serves:
  "\<exists>c \<in> set (coordinators (snd (upsert_coordinator now i e h ep db))). c_id c = i \<and> c_executor_endpoint c = ep \<and> c_is_alive c"
proof (cases "sql_exists (\<lambda>c. c_id c = i) (coordinators db)")
  case True
  let ?f = "\<lambda>c. c\<lparr>c_environment := e, c_hostname := h, c_executor_endpoint := ep, c_last_heartbeat_at := now, c_is_alive := True\<rparr>"
  from True obtain c where c: "c \<in> set (coordinators db)" "c_id c = i" by auto
  then have "?f c \<in> set (sql_update (\<lambda>c. c_id c = i) ?f (coordinators db))"
    unfolding set_sql_update by (intro image_eqI [of _ _ c]) simp_all
  moreover have "c_id (?f c) = i \<and> c_executor_endpoint (?f c) = ep \<and> c_is_alive (?f c)" using c by simp
  ultimately have "\<exists>x \<in> set (sql_update (\<lambda>c. c_id c = i) ?f (coordinators db)). c_id x = i \<and> c_executor_endpoint x = ep \<and> c_is_alive x"
    by (rule rev_bexI)
  then show ?thesis unfolding upsert_coordinator_def if_P [OF True] by simp
qed (simp add: upsert_coordinator_def)

lemma serving_endpoint: "serving i ep db \<Longrightarrow> endpoint_of i db = ep"
  unfolding serving_def using endpoint_of_member by blast

lemma hosted_live: "serving i ep db \<Longrightarrow> hosted i ep db k \<Longrightarrow>
    \<exists>d \<in> set (live_rows db). dataset_key d = k \<and> d_coordinator_id d = i \<and> d_executor_endpoint d = ep"
  by (fastforce simp: serving_def hosted_def live_rows_filter live_row_def)

lemma upsert_dataset_hosted:
  assumes "serving i ep db" "upsert_dataset now i di n ns st ig ipc md db = (Ok (), db')"
  shows "serving i ep db'" "hosted i ep db' (ns, n)" "hosted i ep db k \<Longrightarrow> hosted i ep db' k"
proof -
  have inv: "catalog_inv db'" using upsert_dataset_inv [of db now i di n ns st ig ipc md] assms by (simp add: serving_def)
  have ep: "endpoint_of i db = ep" using assms(1) by (rule serving_endpoint)
  consider (upd) "has_dataset (ns, n) db"
      "db' = db\<lparr>datasets := sql_update (\<lambda>d. dataset_key d = (ns, n)) (renewed_row now i st ipc md db) (datasets db)\<rparr>"
    | (ins) "db' = db\<lparr>datasets := datasets db @ [new_row now i di n ns st ipc md db]\<rparr>"
    using assms(2) by (auto simp: upsert_dataset_outcome split: if_splits)
  then have "coordinators db' = coordinators db \<and> hosted i ep db' (ns, n) \<and> (hosted i ep db k \<longrightarrow> hosted i ep db' k)" for k
  proof cases
    case upd
    let ?f = "renewed_row now i st ipc md db"
    from upd(1) obtain d where d: "d \<in> set (datasets db)" "dataset_key d = (ns, n)" by (auto simp: has_dataset_def)
    then have "?f d \<in> set (datasets db')" using upd(2) by (auto simp: in_sql_update)
    then have "hosted i ep db' (ns, n)" using d(2) ep unfolding hosted_def by (intro bexI [of _ "?f d"]) simp_all
    moreover have "hosted i ep db' k" if "hosted i ep db k"
    proof (cases "k = (ns, n)")
      case False
      from that obtain r where r: "r \<in> set (datasets db)" "dataset_key r = k" "d_coordinator_id r = i"
          "d_executor_endpoint r = ep" "d_is_active r" unfolding hosted_def by blast
      then have "r \<in> set (datasets db')" using upd(2) False by (auto simp: in_sql_update)
      with r show ?thesis unfolding hosted_def by blast
    qed (use \<open>hosted i ep db' (ns, n)\<close> in simp)
    ultimately show ?thesis using upd(2) by simp
  next
    case ins
    with ep show ?thesis by (auto simp: hosted_def)
  qed
  then show "serving i ep db'" "hosted i ep db' (ns, n)" "hosted i ep db k \<Longrightarrow> hosted i ep db' k"
    using inv assms(1) by (auto simp: serving_def)
qed

lemma register_datasets_hosted:
  assumes "serving i ep db" "register_datasets L P i items db = (Ok (), db')"
  shows "serving i ep db' \<and> (\<forall>(t, u, c) \<in> set items. hosted i ep db' (dc_namespace c, dc_name c)) \<and>
    (\<forall>k. hosted i ep db k \<longrightarrow> hosted i ep db' k)"
  using assms
proof (induction items arbitrary: db)
  case (Cons item items)
  obtain now fresh c where item: "item = (now, fresh, c)" by (cases item)
  from Cons.prems(2) obtain reg where reg: "to_registration L P fresh c i = Ok reg"
    by (auto simp: item split: sum.splits)
  then have fields: "dg_coordinator_id reg = i" "dg_name reg = dc_name c" "dg_namespace reg = dc_namespace c"
    by (auto simp: to_registration_def and_then_Ok)
  obtain r db1 where rd: "register_dataset L now reg db = (r, db1)" by fastforce
  from Cons.prems(2) reg rd obtain b where r: "r = Ok b" and rest: "register_datasets L P i items db1 = (Ok (), db')"
    by (cases r) (auto simp: item)
  have up: "upsert_dataset now i (dg_dataset_id reg) (dc_name c) (dc_namespace c) (dg_source_type reg) i
      (dg_arrow_schema_ipc reg) (if dg_metadata_json reg = [] then None else Some (dg_metadata_json reg)) db = (Ok (), db1)"
    using register_dataset_Ok [of L now reg db b] register_dataset_db [of L now reg db] rd r fields
    by (intro prod_eqI) auto
  note step = upsert_dataset_hosted [OF Cons.prems(1) up]
  have "hosted i ep db' (dc_namespace c, dc_name c)" "serving i ep db'"
    using Cons.IH [OF step(1) rest] step(2) by blast+
  with Cons.IH [OF step(1) rest] step(3) show ?case by (auto simp: item)
qed auto

lemma coordinator_register_live:
  assumes "catalog_inv db" "length draws = length (cc_datasets cfg)"
    and "coordinator_register L P now draws cfg db = (Ok (), db')"
    and "c \<in> set (cc_datasets cfg)"
  shows "catalog_inv db'" and "\<exists>r \<in> set (live_rows db'). dataset_key r = (dc_namespace c, dc_name c) \<and>
    d_coordinator_id r = cm_id (cc_coordinator cfg) \<and> d_executor_endpoint r = cc_executor_endpoint cfg"
proof -
  let ?i = "cm_id (cc_coordinator cfg)" and ?ep = "cc_executor_endpoint cfg"
  let ?items = "map (\<lambda>((t, u), c). (t, u, c)) (zip draws (cc_datasets cfg))"
  let ?reg = "\<lparr>rg_coordinator_id = ?i, rg_environment = cm_environment (cc_coordinator cfg),
              rg_hostname = cm_hostname (cc_coordinator cfg), rg_executor_endpoint = ?ep\<rparr>"
  obtain r db1 where reg: "register L now ?reg db = (r, db1)" by fastforce
  then have db1: "db1 = snd (upsert_coordinator now ?i (cm_environment (cc_coordinator cfg)) (cm_hostname (cc_coordinator cfg)) ?ep db)"
    by (simp add: register_def split: prod.splits)
  have "catalog_inv db1" using upsert_coordinator_inv [OF assms(1)] db1 by simp
  moreover have "\<exists>c \<in> set (coordinators db1). c_id c = ?i \<and> c_executor_endpoint c = ?ep \<and> c_is_alive c"
    unfolding db1 by (rule upsert_coordinator_serves)
  ultimately have "serving ?i ?ep db1" by (simp add: serving_def)
  moreover have "register_datasets L P ?i ?items db1 = (Ok (), db')"
    using assms(3) reg by (cases r) (simp_all add: coordinator_register_def)
  ultimately have *: "serving ?i ?ep db'" "\<forall>(t, u, c) \<in> set ?items. hosted ?i ?ep db' (dc_namespace c, dc_name c)"
    using register_datasets_hosted by blast+
  obtain j where j: "j < length (cc_datasets cfg)" "c = cc_datasets cfg ! j" using assms(4) by (metis in_set_conv_nth)
  then have "?items ! j = (fst (draws ! j), snd (draws ! j), c)" "j < length ?items"
    using assms(2) by (simp_all add: case_prod_beta)
  then have "(fst (draws ! j), snd (draws ! j), c) \<in> set ?items" by (metis nth_mem)
  then have "hosted ?i ?ep db' (dc_namespace c, dc_name c)" using *(2) by blast
  with *(1) show "catalog_inv db'" and "\<exists>r \<in> set (live_rows db'). dataset_key r = (dc_namespace c, dc_name c) \<and>
    d_coordinator_id r = ?i \<and> d_executor_endpoint r = ?ep"
    by (simp add: serving_def, intro hosted_live)
qed

section \<open>Properties of the coordinator\<close>

text \<open>
  A startup registration that succeeds makes every configured dataset visible: each is a live row
  of elan-central's catalog, of this coordinator and with the executor endpoint of its configuration,
  whatever the catalog held before.
\<close>

theorem startup_registers_all:
  assumes "catalog_inv db" "length draws = length (cc_datasets cfg)"
    and "coordinator_register L P now draws cfg db = (Ok (), db')"
    and "c \<in> set (cc_datasets cfg)"
  shows "\<exists>r \<in> set (live_rows db'). dataset_key r = (dc_namespace c, dc_name c) \<and>
    d_coordinator_id r = cm_id (cc_coordinator cfg) \<and> d_executor_endpoint r = cc_executor_endpoint cfg"
  using assms by (rule coordinator_register_live(2))

definition demo_probe :: schema_probe where
  "demo_probe =
     \<lparr>probe_csv = (\<lambda>p h d. Err ''no such file''), probe_parquet = (\<lambda>p. Err ''no such file''), write_schema = (\<lambda>s. Ok [])\<rparr>"

definition demo_csv :: "string \<Rightarrow> dataset_config" where
  "demo_csv path = CsvSource \<lparr>csvs_name = ''tickets'', csvs_namespace = ''crm'', csvs_path = path, csvs_delimiter = 44, csvs_has_header = True\<rparr>"

definition demo_coordinator :: coordinator_config where
  "demo_coordinator =
     \<lparr>cc_coordinator = \<lparr>cm_id = ''c2'', cm_environment = ''us'', cm_hostname = ''host-2''\<rparr>, cc_central_endpoint = ''http://central:50051'',
      cc_executor_endpoint = ''exec:50055'', cc_http_addr = default_http_addr, cc_object_store = None,
      cc_datasets = [demo_csv ''/data/tickets.csv'']\<rparr>"

theorem startup_registers_all_witness:
  "\<exists>db'. coordinator_register demo_libs demo_probe ''t0'' [(''t1'', 5)] demo_coordinator (empty_catalog True) = (Ok (), db') \<and>
     (\<exists>r \<in> set (live_rows db'). dataset_key r = (''crm'', ''tickets'') \<and> d_executor_endpoint r = ''exec:50055'')"
proof -
  have "fst (coordinator_register demo_libs demo_probe ''t0'' [(''t1'', 5)] demo_coordinator (empty_catalog True)) = Ok ()"
    by (simp add: coordinator_register_def register_def upsert_coordinator_def empty_catalog_def demo_coordinator_def
        to_registration_def demo_probe_def register_dataset_def upsert_dataset_def internal_error_def Let_def)
  then obtain db' where r: "coordinator_register demo_libs demo_probe ''t0'' [(''t1'', 5)] demo_coordinator (empty_catalog True) = (Ok (), db')"
    by (cases "coordinator_register demo_libs demo_probe ''t0'' [(''t1'', 5)] demo_coordinator (empty_catalog True)") auto
  from startup_registers_all [OF empty_catalog_inv _ r, of "demo_csv ''/data/tickets.csv''"] r show ?thesis
    by (auto simp: demo_coordinator_def demo_csv_def dc_namespace_def dc_name_def)
qed

text \<open>
  The password of a PostgreSQL source stays with the coordinator: its registration message does
  not depend on it.
\<close>

theorem password_not_registered:
  "to_registration L P fresh (PostgresSource (g\<lparr>pgs_password := pw\<rparr>)) coordinator_id =
   to_registration L P fresh (PostgresSource g) coordinator_id"
  by (simp add: to_registration_def infer_schema_def dc_name_def dc_namespace_def dc_source_type_def dc_metadata_json_def)

lemma str_split_no_sep: "d \<notin> set s \<Longrightarrow> str_split d s = [s]"
  by (induction s) auto

lemma str_split_append: "str_split d (a @ d # b) = str_split d a @ str_split d b"
  by (induction a) (auto split: list.splits)

lemma path_file_name_last:
  assumes "CHR ''/'' \<notin> set n" "n \<noteq> []" "n \<noteq> ''.''" "n \<noteq> ''..''"
  shows "path_file_name (dir @ ''/'' @ n) = Some n"
  using assms str_split_append [of "CHR ''/''" dir n] by (simp add: path_file_name_def str_split_no_sep)

lemma path_file_name_plain:
  assumes "CHR ''/'' \<notin> set n" "n \<noteq> []" "n \<noteq> ''.''" "n \<noteq> ''..''"
  shows "path_file_name n = Some n"
  using assms by (simp add: path_file_name_def str_split_no_sep)

text \<open>
  The upload key of a file is its namespace and file name, whatever its directory: of two files
  of one name in different directories of one namespace, both readable, only the later is in the
  bucket.
\<close>

theorem upload_overwrites:
  assumes "CHR ''/'' \<notin> set n" "n \<noteq> []" "n \<noteq> ''.''" "n \<noteq> ''..''"
    and "upload_source c1 = Some (dir1 @ ''/'' @ n, ns)" "upload_source c2 = Some (dir2 @ ''/'' @ n, ns)"
    and "read (dir1 @ ''/'' @ n) = Ok data1" "read (dir2 @ ''/'' @ n) = Ok data2"
    and "build_store cfg = Ok ()"
  shows "upload_datasets build_store read to_path (\<lambda>_. True) [c1, c2] cfg bucket =
    Ok (bucket(to_path (ns @ ''/'' @ n) \<mapsto> data2))"
proof -
  have "s3_key c (dir @ ''/'' @ n) ns = ns @ ''/'' @ n" for c dir
    unfolding s3_key_def path_file_name_last [OF assms(1-4)] by simp
  then show ?thesis using assms(5-9) by (simp add: upload_datasets_def upload_file_def)
qed

theorem upload_overwrites_witness:
  "upload_datasets (\<lambda>_. Ok ()) (\<lambda>p. Ok (if p = ''/a/t.csv'' then [1] else [2])) id (\<lambda>_. True)
     [demo_csv ''/a/t.csv'', demo_csv ''/b/t.csv'']
     \<lparr>cos_endpoint = [], cos_access_key = [], cos_secret_key = [], cos_bucket = [], cos_allow_http = True\<rparr> Map.empty
   = Ok [''crm/t.csv'' \<mapsto> [2]]"
  using upload_overwrites [of "''t.csv''" "demo_csv ''/a/t.csv''" "''/a''" "''crm''" "demo_csv ''/b/t.csv''" "''/b''"
      "\<lambda>p. Ok (if p = ''/a/t.csv'' then [1] else [2])" "[1]" "[2]" "\<lambda>_. Ok ()" _ id]
  by (simp add: demo_csv_def upload_source_def)

text \<open>The objects that a list of datasets has files for, in the order of the list.\<close>

fun file_objects :: "(string \<Rightarrow> (string, u8 list) result) \<Rightarrow> dataset_config list \<Rightarrow> (string \<times> u8 list) list" where
  "file_objects read [] = []"
| "file_objects read (c # cs) =
     (case upload_source c of
        None \<Rightarrow> []
      | Some (path, ns) \<Rightarrow> (case read path of Inl _ \<Rightarrow> [] | Inr data \<Rightarrow> [(s3_key c path ns, data)])) @ file_objects read cs"

lemma file_objects_append [simp]: "file_objects read (cs @ cs') = file_objects read cs @ file_objects read cs'"
  by (induction cs) auto

lemma in_file_objects:
  "(key, data) \<in> set (file_objects read cs) \<longleftrightarrow>
     (\<exists>c \<in> set cs. \<exists>path ns. upload_source c = Some (path, ns) \<and> read path = Ok data \<and> key = s3_key c path ns)"
proof (induction cs)
  case (Cons c cs)
  have "(key, data) \<in> set (file_objects read [c]) \<longleftrightarrow>
      (\<exists>path ns. upload_source c = Some (path, ns) \<and> read path = Ok data \<and> key = s3_key c path ns)"
    by (cases "upload_source c") (auto split: sum.split)
  then show ?case using Cons file_objects_append [of read "[c]" cs] by (simp del: file_objects.simps)
qed simp

text \<open>The uploads write these objects over the bucket, one after another, where the store takes them.\<close>

lemma upload_datasets_bucket:
  "upload_datasets build_store read to_path put_ok cs cfg bucket = Ok bucket' \<Longrightarrow>
   bucket' = bucket ++ map_of (rev (filter (\<lambda>(k, data). put_ok k) (map (\<lambda>(key, data). (to_path key, data)) (file_objects read cs))))"
proof -
  let ?f = "\<lambda>b c. case upload_source c of None \<Rightarrow> b
      | Some (local_path, ns) \<Rightarrow> upload_file read to_path put_ok local_path (s3_key c local_path ns) b"
  assume "upload_datasets build_store read to_path put_ok cs cfg bucket = Ok bucket'"
  then have "bucket' = foldl ?f bucket cs" by (auto simp: upload_datasets_def and_then_Ok)
  moreover have "foldl ?f bucket cs =
      bucket ++ map_of (rev (filter (\<lambda>(k, data). put_ok k) (map (\<lambda>(key, data). (to_path key, data)) (file_objects read cs))))"
  proof (induction cs rule: rev_induct)
    case (snoc c cs)
    show ?case
    proof (cases "upload_source c")
      case (Some pn)
      then show ?thesis using snoc by (cases pn; cases "read (fst pn)") (auto simp: upload_file_def map_add_upd)
    qed (use snoc in simp)
  qed simp
  ultimately show ?thesis by simp
qed

lemma uploaded_object:
  assumes "upload_datasets build_store read to_path put_ok cs cfg bucket = Ok bucket'"
    and "(key, data) \<in> set (file_objects read cs)" "put_ok (to_path key)"
  shows "\<exists>key' data'. (key', data') \<in> set (file_objects read cs) \<and> to_path key' = to_path key \<and> bucket' (to_path key) = Some data'"
proof -
  let ?written = "rev (filter (\<lambda>(k, data). put_ok k) (map (\<lambda>(key, data). (to_path key, data)) (file_objects read cs)))"
  have "(to_path key, data) \<in> set ?written" using assms(2,3) by force
  then obtain data' where d: "map_of ?written (to_path key) = Some data'" by (metis weak_map_of_SomeI)
  then have "(to_path key, data') \<in> set ?written" by (rule map_of_SomeD)
  then obtain key' where "(key', data') \<in> set (file_objects read cs)" "to_path key' = to_path key" by auto
  then show ?thesis using d upload_datasets_bucket [OF assms(1)] by (auto simp: map_add_def)
qed

text \<open>
  C18. What the uploads leave in the bucket: a configured file that can be read and put, with a path that is or ends in a file name,
  is there under its namespace and that name, whatever its directory, with the bytes it has on the coordinator's disk, unless a later dataset of the configuration
  has a readable file for the same place; and every place that no readable file of the configuration is for, or
  where a put fails, holds what it held before.
\<close>

theorem uploaded_objects:
  assumes "upload_datasets build_store read to_path put_ok (before @ c # after) cfg bucket = Ok bucket'"
    and "upload_source c = Some (path, ns)" "path = n \<or> path = dir @ ''/'' @ n" "CHR ''/'' \<notin> set n" "n \<noteq> []" "n \<noteq> ''.''" "n \<noteq> ''..''"
    and "read path = Ok data" "put_ok (to_path (ns @ ''/'' @ n))"
    and "to_path (ns @ ''/'' @ n) \<notin> to_path ` fst ` set (file_objects read after)"
  shows "bucket' (to_path (ns @ ''/'' @ n)) = Some data \<and>
    (\<forall>k. k \<notin> to_path ` fst ` set (file_objects read (before @ c # after)) \<or> \<not> put_ok k \<longrightarrow> bucket' k = bucket k)"
proof -
  let ?written = "\<lambda>cs. rev (filter (\<lambda>(k, data). put_ok k) (map (\<lambda>(key, data). (to_path key, data)) (file_objects read cs)))"
  have bucket': "bucket' = bucket ++ map_of (?written (before @ c # after))" by (rule upload_datasets_bucket [OF assms(1)])
  have "path_file_name path = Some n"
    using assms(3) path_file_name_last [OF assms(4-7)] path_file_name_plain [OF assms(4-7)] by auto
  then have c: "file_objects read [c] = [(ns @ ''/'' @ n, data)]"
    using assms(2,8) by (simp add: s3_key_def)
  have split: "file_objects read (before @ c # after) = file_objects read before @ (ns @ ''/'' @ n, data) # file_objects read after"
    using file_objects_append [of read before "[c] @ after"] file_objects_append [of read "[c]" after] c by (simp del: file_objects.simps)
  have "map_of (?written after) (to_path (ns @ ''/'' @ n)) = None"
    unfolding map_of_eq_None_iff using assms(10) by force
  then have "bucket' (to_path (ns @ ''/'' @ n)) = Some data" using assms(9) unfolding bucket' split by (simp add: map_add_def)
  moreover have "bucket' k = bucket k"
    if "k \<notin> to_path ` fst ` set (file_objects read (before @ c # after)) \<or> \<not> put_ok k" for k
  proof -
    have "map_of (?written (before @ c # after)) k = None" unfolding map_of_eq_None_iff using that by force
    then show ?thesis by (simp add: bucket' map_add_def)
  qed
  ultimately show ?thesis by blast
qed

definition demo_store :: store_config where
  "demo_store = \<lparr>cos_endpoint = ''http://minio:9000'', cos_access_key = ''k'', cos_secret_key = ''s'', cos_bucket = ''elan'', cos_allow_http = True\<rparr>"

theorem uploaded_objects_witness:
  "\<exists>bucket'. upload_datasets (\<lambda>_. Ok ()) (\<lambda>p. if p = ''/gone.csv'' then Err ''no such file'' else Ok (if p = ''/a/t.csv'' then [1] else [2])) id (\<lambda>_. True)
      [demo_csv ''/a/t.csv'', demo_csv ''/b/t.csv'', demo_csv ''/gone.csv''] demo_store [''crm/gone.csv'' \<mapsto> [9]] = Ok bucket' \<and>
     bucket' ''crm/t.csv'' = Some [2] \<and> bucket' ''crm/gone.csv'' = Some [9]"
proof -
  let ?read = "\<lambda>p. if p = ''/gone.csv'' then Err ''no such file'' else Ok (if p = ''/a/t.csv'' then [1] else [2]) :: (string, u8 list) result"
  let ?c = "demo_csv ''/b/t.csv''" and ?rest = "[demo_csv ''/gone.csv'']"
  obtain bucket' where up: "upload_datasets (\<lambda>_. Ok ()) ?read id (\<lambda>_. True) ([demo_csv ''/a/t.csv''] @ ?c # ?rest) demo_store [''crm/gone.csv'' \<mapsto> [9]] = Ok bucket'"
    by (simp add: upload_datasets_def)
  have keys: "fst ` set (file_objects ?read ([demo_csv ''/a/t.csv''] @ ?c # ?rest)) = {''crm/t.csv''}"
    by (simp add: demo_csv_def upload_source_def s3_key_def path_file_name_def Let_def)
  have src: "upload_source ?c = Some (''/b/t.csv'', ''crm'')" by (simp add: demo_csv_def upload_source_def)
  have "file_objects ?read ?rest = []" by (simp add: demo_csv_def upload_source_def)
  then have "bucket' (id (''crm'' @ ''/'' @ ''t.csv'')) = Some [2] \<and>
      (\<forall>k. k \<notin> id ` fst ` set (file_objects ?read ([demo_csv ''/a/t.csv''] @ ?c # ?rest)) \<or> \<not> True \<longrightarrow> bucket' k = [''crm/gone.csv'' \<mapsto> [9]] k)"
    by (intro uploaded_objects [OF up src, where dir = "''/b''"]) simp_all
  then have "bucket' ''crm/t.csv'' = Some [2] \<and> bucket' ''crm/gone.csv'' = Some [9]" unfolding keys image_id by simp
  then show ?thesis using up by (intro exI [of _ bucket']) simp
qed

text \<open>
  The client pauses only after an error: when elan-central ends the heartbeat stream without one,
  again and again, the client reconnects each time at once.
\<close>

theorem heartbeat_no_pause:
  "heartbeat_pauses (replicate n (Ok (map Ok answers))) = replicate n 0 \<and>
   heartbeat_pauses [Err st] = [30]"
proof -
  have "traverse id (map Ok answers) = (Ok answers :: (status, bool list) result)"
    by (induction answers) simp_all
  then show ?thesis by (simp add: heartbeat_pauses_def heartbeat_loop_def)
qed

text \<open>
  What the heartbeats do: the first requests of a connection, as far as they have arrived, are all answered alive, the client
  sees no error, and the coordinator's row is alive with the time at elan-central of the last arrival. The client's own clock,
  which is in every request, is never looked at. So a coordinator that was marked dead comes back, with its datasets.
\<close>

lemma heartbeat_items:
  "map (\<lambda>(t, r). (t, Ok (hr_coordinator_id r))) (zip arrivals (stake (length arrivals) (heartbeat_requests i clock))) =
   map (\<lambda>t. (t, Ok i)) arrivals"
  by (induction arrivals arbitrary: clock) (simp_all add: heartbeat_requests_def)

lemma heartbeat_task_alive:
  "heartbeat_task (map (\<lambda>t. (t, Ok i)) (arrivals @ [now])) db =
     (replicate (Suc (length arrivals)) True, snd (store_heartbeat now i db))"
proof (induction arrivals arbitrary: db)
  case (Cons t arrivals)
  have "sql_update (\<lambda>c. c_id c = i) (\<lambda>c. c\<lparr>c_last_heartbeat_at := now, c_is_alive := True\<rparr>)
      (sql_update (\<lambda>c. c_id c = i) (\<lambda>c. c\<lparr>c_last_heartbeat_at := t, c_is_alive := True\<rparr>) rows) =
    sql_update (\<lambda>c. c_id c = i) (\<lambda>c. c\<lparr>c_last_heartbeat_at := now, c_is_alive := True\<rparr>) rows" for rows :: "coordinator_row list"
    by (simp add: sql_update_def comp_def)
  with Cons show ?case by (simp add: store_heartbeat_def)
qed (simp add: store_heartbeat_def)

theorem heartbeats_keep_alive:
  assumes "catalog_inv db" "has_coordinator i db" "length arrivals = n"
  shows "\<exists>answers db'.
    heartbeat_task (map (\<lambda>(t, r). (t, Ok (hr_coordinator_id r)))
      (zip (arrivals @ [now]) (stake (Suc n) (heartbeat_requests i clock)))) db = (answers, db') \<and>
    answers = replicate (Suc n) True \<and> heartbeat_loop (Ok (map Ok answers)) = Ok () \<and>
    (\<exists>c \<in> set (coordinators db'). c_id c = i \<and> c_is_alive c \<and> c_last_heartbeat_at c = now) \<and>
    {d \<in> set (live_rows db'). d_coordinator_id d = i} = {d \<in> set (datasets db). d_coordinator_id d = i \<and> d_is_active d}"
proof -
  let ?db = "snd (store_heartbeat now i db)" and ?f = "\<lambda>c. c\<lparr>c_last_heartbeat_at := now, c_is_alive := True\<rparr>"
  have "Suc n = length (arrivals @ [now])" using assms(3) by simp
  then have items: "map (\<lambda>(t, r). (t, Ok (hr_coordinator_id r)))
      (zip (arrivals @ [now]) (stake (Suc n) (heartbeat_requests i clock))) = map (\<lambda>t. (t, Ok i)) (arrivals @ [now])"
    by (simp only: heartbeat_items)
  have loop: "heartbeat_loop (Ok (map Ok answers)) = Ok ()" for answers
    by (induction answers) (auto simp: heartbeat_loop_def and_then_def split: sum.splits)
  have inv: "catalog_inv ?db" using catalog_step_inv [OF assms(1), of "StoreHeartbeat now i"] by (simp add: catalog_step_def)
  have rows: "datasets ?db = datasets db" by (simp add: store_heartbeat_def)
  from assms(2) obtain c where c: "c \<in> set (coordinators db)" "c_id c = i" by (auto simp: has_coordinator_def)
  then have row: "?f c \<in> set (coordinators ?db)" by (auto simp: store_heartbeat_def in_sql_update)
  then have alive: "\<exists>x \<in> set (coordinators ?db). c_id x = i \<and> c_is_alive x \<and> c_last_heartbeat_at x = now"
    using c(2) by (intro bexI [of _ "?f c"]) simp_all
  have "live_row ?db d \<longleftrightarrow> d_is_active d" if "d_coordinator_id d = i" for d
    unfolding live_row_def that using alive by blast
  then have "{d \<in> set (live_rows ?db). d_coordinator_id d = i} = {d \<in> set (datasets db). d_coordinator_id d = i \<and> d_is_active d}"
    unfolding live_rows_filter [OF inv] rows by auto
  then show ?thesis unfolding items heartbeat_task_alive assms(3) using loop alive by (intro exI conjI) simp_all
qed

lemma auth_check_allows: "ac_allowed (auth_check dataset caller)"
  by (simp add: auth_check_def)

end
