(* ===== verification/Audit_Event.thy ===== *)
theory Audit_Event
  imports Common_Types
begin

text \<open>
  Audit events and sinks of the crate elan-audit (\<open>event.rs\<close>, \<open>sink.rs\<close>, \<open>central.rs\<close>,
  \<open>kafka.rs\<close>). The event's identifier and timestamp, which \<open>AuditEvent::new\<close> draws from
  \<open>Uuid::new_v4\<close> and the clock, are arguments. A sink is a function to the messages it hands to
  its transport, so what a sink publishes can be compared across sinks.
\<close>

section \<open>Events\<close>

record audit_subject =
  as_user_id :: string
  as_groups :: "string list"
  as_session_id :: "string option"

record query_submitted_payload =
  qs_query_id :: uuid
  qs_sql :: string
  qs_resolved_tables :: "string list"
  qs_executors :: "string \<rightharpoonup> string"

record query_completed_payload =
  qc_query_id :: uuid
  qc_duration_ms :: "64 word"
  qc_rows_returned :: "64 word"
  qc_bytes_scanned :: "64 word"

record query_failed_payload =
  qf_query_id :: uuid
  qf_duration_ms :: "64 word"
  qf_error_kind :: string
  qf_error_msg :: string

record access_denied_payload =
  ad_query_id :: uuid
  ad_namespace :: string
  ad_dataset :: string
  ad_action :: string
  ad_reason :: string

record coordinator_registered_payload =
  crp_coordinator_id :: string
  crp_environment :: string
  crp_hostname :: string

record dataset_registered_payload =
  drp_dataset_id :: string
  drp_name :: string
  drp_namespace :: string
  drp_source_type :: string
  drp_coordinator_id :: string

datatype audit_payload =
    QuerySubmitted query_submitted_payload
  | QueryCompleted query_completed_payload
  | QueryFailed query_failed_payload
  | AccessDeniedEvent access_denied_payload
  | CoordinatorRegistered coordinator_registered_payload
  | DatasetRegistered dataset_registered_payload

record audit_event =
  ev_schema_version :: u8
  ev_event_id :: uuid
  ev_occurred_at :: string
  ev_source_service :: string
  ev_source_instance :: string
  ev_subject :: audit_subject
  ev_payload :: audit_payload

definition audit_event_new ::
  "uuid \<Rightarrow> string \<Rightarrow> string \<Rightarrow> string \<Rightarrow> audit_subject \<Rightarrow> audit_payload \<Rightarrow> audit_event" where
  "audit_event_new fresh now source_service source_instance subject payload =
     \<lparr>ev_schema_version = 1, ev_event_id = fresh, ev_occurred_at = now,
      ev_source_service = source_service, ev_source_instance = source_instance,
      ev_subject = subject, ev_payload = payload\<rparr>"

definition event_type :: "audit_event \<Rightarrow> string" where
  "event_type e =
     (case ev_payload e of
        QuerySubmitted _ \<Rightarrow> ''QuerySubmitted''
      | QueryCompleted _ \<Rightarrow> ''QueryCompleted''
      | QueryFailed _ \<Rightarrow> ''QueryFailed''
      | AccessDeniedEvent _ \<Rightarrow> ''AccessDenied''
      | CoordinatorRegistered _ \<Rightarrow> ''CoordinatorRegistered''
      | DatasetRegistered _ \<Rightarrow> ''DatasetRegistered'')"

definition kafka_topic :: "audit_event \<Rightarrow> string" where
  "kafka_topic e =
     (let suffix =
        (case ev_payload e of
           QuerySubmitted _ \<Rightarrow> ''query.submitted''
         | QueryCompleted _ \<Rightarrow> ''query.completed''
         | QueryFailed _ \<Rightarrow> ''query.failed''
         | AccessDeniedEvent _ \<Rightarrow> ''access.denied''
         | CoordinatorRegistered _ \<Rightarrow> ''coordinator.registered''
         | DatasetRegistered _ \<Rightarrow> ''dataset.registered'')
      in ''elan.audit.'' @ suffix)"

section \<open>Sinks\<close>

record audit_event_proto =
  ae_event_id :: string
  ae_event_type :: string
  ae_occurred_at :: "(i64 \<times> i32) option"
  ae_source_service :: string
  ae_user_id :: string
  ae_session_id :: string
  ae_payload_json :: string

text \<open>
  The foreign part of a sink: the JSON texts serde derives for payloads and whole events, and the
  answers of the transports (\<open>None\<close> is success).
\<close>

record transports =
  payload_json :: "audit_payload \<Rightarrow> (string, string) result"
  event_json :: "audit_event \<Rightarrow> (string, string) result"
  central_publish :: "audit_event_proto \<Rightarrow> string option"
  kafka_send :: "string \<Rightarrow> string \<Rightarrow> string \<Rightarrow> string option"

text \<open>\<open>CentralAuditSink::publish\<close>: the message that is sent, and the error the caller sees.\<close>

definition central_proto :: "libs \<Rightarrow> audit_event \<Rightarrow> string \<Rightarrow> audit_event_proto" where
  "central_proto L e payload =
     \<lparr>ae_event_id = uuid_text L (ev_event_id e), ae_event_type = event_type e, ae_occurred_at = None,
      ae_source_service = ev_source_service e, ae_user_id = as_user_id (ev_subject e),
      ae_session_id = (case as_session_id (ev_subject e) of None \<Rightarrow> [] | Some s \<Rightarrow> s),
      ae_payload_json = payload\<rparr>"

definition central_sink_publish :: "libs \<Rightarrow> transports \<Rightarrow> audit_event \<Rightarrow> (elan_error, unit) result" where
  "central_sink_publish L T e =
     (case payload_json T (ev_payload e) of
        Inl err \<Rightarrow> Err (Serde err)
      | Inr payload \<Rightarrow>
          (case central_publish T (central_proto L e payload) of
             None \<Rightarrow> Ok ()
           | Some err \<Rightarrow> Err (Grpc (status_internal err))))"

definition kafka_sink_publish :: "libs \<Rightarrow> transports \<Rightarrow> audit_event \<Rightarrow> (elan_error, unit) result" where
  "kafka_sink_publish L T e =
     (let topic = kafka_topic e; key = uuid_text L (ev_event_id e)
      in case event_json T e of
           Inl err \<Rightarrow> Err (Serde err)
         | Inr payload \<Rightarrow>
             (case kafka_send T topic key payload of None \<Rightarrow> Ok () | Some err \<Rightarrow> Err (Kafka err)))"

definition noop_sink_publish :: "audit_event \<Rightarrow> (elan_error, unit) result" where
  "noop_sink_publish e = Ok ()"

section \<open>The tags of an event\<close>

lemma kafka_topic_event_type: "kafka_topic e = kafka_topic e' \<longleftrightarrow> event_type e = event_type e'"
  by (cases "ev_payload e"; cases "ev_payload e'") (simp_all add: kafka_topic_def event_type_def)

text \<open>
  The trait \<open>AuditSink\<close>: publishing an event either succeeds or reports an error of the sink's own
  kind, and it never fails when its serializer and its transport work.
\<close>

locale audit_sink =
  fixes publish :: "audit_event \<Rightarrow> (elan_error, unit) result"
    and own_error :: "elan_error \<Rightarrow> bool"
    and healthy :: bool
  assumes publish_errors: "publish e = Err x \<Longrightarrow> own_error x"
    and publish_healthy: "healthy \<Longrightarrow> publish e = Ok ()"
begin

lemma publish_cases: "publish e = Ok () \<or> (\<exists>x. publish e = Err x \<and> own_error x \<and> \<not> healthy)"
  using publish_errors publish_healthy by (cases "publish e") auto

end

definition transports_up :: "transports \<Rightarrow> bool" where
  "transports_up T \<longleftrightarrow>
     (\<forall>p. \<exists>s. payload_json T p = Ok s) \<and> (\<forall>e. \<exists>s. event_json T e = Ok s) \<and>
     (\<forall>m. central_publish T m = None) \<and> (\<forall>t k p. kafka_send T t k p = None)"

interpretation central_sink: audit_sink "central_sink_publish L T"
  "\<lambda>x. (\<exists>m. x = Serde m) \<or> (\<exists>m. x = Grpc (status_internal m))" "transports_up T" for L T
proof
  fix e x assume "central_sink_publish L T e = Err x"
  then show "(\<exists>m. x = Serde m) \<or> (\<exists>m. x = Grpc (status_internal m))"
    by (auto simp: central_sink_publish_def split: sum.splits option.splits)
next
  fix e assume "transports_up T"
  then show "central_sink_publish L T e = Ok ()"
    unfolding transports_up_def central_sink_publish_def by (metis old.sum.simps(6) option.simps(4))
qed

interpretation kafka_sink: audit_sink "kafka_sink_publish L T"
  "\<lambda>x. (\<exists>m. x = Serde m) \<or> (\<exists>m. x = Kafka m)" "transports_up T" for L T
proof
  fix e x assume "kafka_sink_publish L T e = Err x"
  then show "(\<exists>m. x = Serde m) \<or> (\<exists>m. x = Kafka m)"
    by (auto simp: kafka_sink_publish_def Let_def split: sum.splits option.splits)
next
  fix e assume "transports_up T"
  then show "kafka_sink_publish L T e = Ok ()"
    unfolding transports_up_def kafka_sink_publish_def Let_def by (metis old.sum.simps(6) option.simps(4))
qed

interpretation noop_sink: audit_sink noop_sink_publish "\<lambda>x. False" True
  by unfold_locales (simp_all add: noop_sink_publish_def)

end
