(* ===== verification/Service_Start.thy ===== *)
theory Service_Start
  imports Service_Config Query_Session Executor Coordinator Audit_Event
begin

text \<open>
  The starts of elan-query, elan-executor and elan-coordinator (their \<open>main.rs\<close>), each as one function of the
  command line and an environment: the files, the connections, the listeners and the remote answers. A
  connection or a listener is the error it gives, or none. \<open>None\<close> is a panic of the main thread. Logging is
  left out.
\<close>

section \<open>elan-query\<close>

record query_start_env =
  qe_build :: config_build
  qe_reader :: config_reader
  qe_dial :: "string \<Rightarrow> (string, unit) result"
  qe_audit_dial :: "string \<Rightarrow> (string, unit) result"
  qe_datasets :: "dataset_proto stream_answer"
  qe_policies :: "policy_proto stream_answer"
  qe_bind :: "string \<Rightarrow> (string, unit) result"

datatype query_start_error =
    QueryConfig string | QueryDial string | QueryLoad load_error | QueryBind string

text \<open>\<open>Arc<dyn AuditSink>\<close>: the sinks that the process can hold.\<close>

datatype app_sink = CentralSink string | NoOpSink

definition central_audit_sink_new :: "(string \<Rightarrow> (string, unit) result) \<Rightarrow> string \<Rightarrow> (string, app_sink) result" where
  "central_audit_sink_new dial endpoint = and_then (dial endpoint) (\<lambda>_. Ok (CentralSink endpoint))"

definition app_publish :: "libs \<Rightarrow> transports \<Rightarrow> app_sink \<Rightarrow> audit_event \<Rightarrow> (elan_error, unit) result" where
  "app_publish L T sink e =
     (case sink of CentralSink _ \<Rightarrow> central_sink_publish L T e | NoOpSink \<Rightarrow> noop_sink_publish e)"

record app_state =
  app_factory :: session_factory
  app_audit :: app_sink
  app_instance_name :: string

definition session_factory_connect ::
  "libs \<Rightarrow> (nat \<Rightarrow> uuid) \<Rightarrow> query_start_env \<Rightarrow> query_config \<Rightarrow> (query_start_error, session_factory) result" where
  "session_factory_connect L fresh Q cfg =
     and_then (map_err QueryDial (qe_dial Q (qc_central_endpoint cfg))) (\<lambda>_.
     map_err QueryLoad (session_factory_new L fresh (qe_datasets Q) (qe_policies Q)))"

definition query_main ::
  "libs \<Rightarrow> (nat \<Rightarrow> uuid) \<Rightarrow> query_start_env \<Rightarrow> string list \<Rightarrow> (query_start_error, app_state) result" where
  "query_main L fresh Q args =
     and_then (map_err QueryConfig (query_config_load (qe_build Q) (qe_reader Q) (arg_value ''--config'' args))) (\<lambda>cfg.
     and_then (session_factory_connect L fresh Q cfg) (\<lambda>session_factory.
     let audit = (case central_audit_sink_new (qe_audit_dial Q) (qc_central_endpoint cfg) of
                    Inr sink \<Rightarrow> sink
                  | Inl _ \<Rightarrow> NoOpSink)
     in and_then (map_err QueryBind (qe_bind Q (qc_http_addr cfg))) (\<lambda>_.
        Ok \<lparr>app_factory = session_factory, app_audit = audit, app_instance_name = qc_instance_name cfg\<rparr>)))"

section \<open>elan-executor\<close>

text \<open>
  Ballista is a parameter: the session that its default builder makes, the failures of its scheduler and
  executor, and the address of its listener.
\<close>

record ('x, 't, 'c) executor_start_env =
  xe_read :: "string \<Rightarrow> (string, string) result"
  xe_from_toml :: "string \<Rightarrow> (string, executor_config) result"
  xe_engine :: "('x, 't, 'c) df_engine"
  xe_addr :: "string \<Rightarrow> (string, string) result"
  xe_bind :: "string \<Rightarrow> (string, string) result"
  xe_metrics :: "(string, unit) result"
  xe_init :: "string \<Rightarrow> (string, unit) result"
  xe_dial :: "string \<Rightarrow> (string, unit) result"
  xe_executor :: "(string, unit) result"

definition scheduler_session :: "('x, 't, 'c) df_engine \<Rightarrow> (string, 'x) result \<Rightarrow> (string \<times> 't) list \<Rightarrow> (string, 'x) result" where
  "scheduler_session D base_state providers =
     and_then base_state (\<lambda>ctx.
     try_fold (\<lambda>ctx (name, provider). register_table D name provider ctx) ctx providers)"

definition start_scheduler_on_port :: "('x, 't, 'c) executor_start_env \<Rightarrow> executor_config \<Rightarrow> (string, string) result" where
  "start_scheduler_on_port X cfg =
     (let bind_addr = scheduler_addr cfg
      in and_then (map_err (\<lambda>e. ''metrics error: '' @ e) (xe_metrics X)) (\<lambda>_.
         and_then (map_err (\<lambda>e. ''scheduler init error: '' @ e) (xe_init X bind_addr)) (\<lambda>_.
         xe_bind X bind_addr)))"

text \<open>
  The task that serves SQL binds its listener by itself: when that fails it panics, and the process goes
  on without it. \<open>xp_sql_listener\<close> is the address it listens on.
\<close>

record 't executor_process =
  xp_service :: "'t sql_service_state"
  xp_sql_listener :: "string option"
  xp_scheduler :: string

definition spawn_sql_service :: "('x, 't, 'c) executor_start_env \<Rightarrow> string \<Rightarrow> string option" where
  "spawn_sql_service X http_addr = (case xe_bind X http_addr of Inl _ \<Rightarrow> None | Inr addr \<Rightarrow> Some addr)"

definition executor_main ::
  "bool \<Rightarrow> ('x, 't, 'c) executor_start_env \<Rightarrow> string list \<Rightarrow> (string, 't executor_process) result option" where
  "executor_main checks X args =
     (case executor_config_load (xe_read X) (xe_from_toml X) (arg_value ''--config'' args) of
        Inl e \<Rightarrow> Some (Err e)
      | Inr cfg \<Rightarrow>
          (case build_providers (xe_engine X) cfg of
             Inl e \<Rightarrow> Some (Err e)
           | Inr providers \<Rightarrow>
               map_option (\<lambda>http_port.
                   let sql_state = \<lparr>ss_providers = providers, ss_object_store = xc_object_store cfg\<rparr>
                   in and_then (xe_addr X (executor_http_addr cfg http_port)) (\<lambda>http_addr.
                      let listener = spawn_sql_service X http_addr
                      in and_then (start_scheduler_on_port X cfg) (\<lambda>scheduler.
                         and_then (xe_dial X (''http://'' @ scheduler)) (\<lambda>_.
                         and_then (map_err (\<lambda>e. ''executor error: '' @ e) (xe_executor X)) (\<lambda>_.
                         Ok \<lparr>xp_service = sql_state, xp_sql_listener = listener, xp_scheduler = scheduler\<rparr>)))))
                 (executor_http_port checks cfg)))"

section \<open>elan-coordinator\<close>

record coordinator_start_env =
  ce_read :: "string \<Rightarrow> (string, string) result"
  ce_from_toml :: "string \<Rightarrow> (string, coordinator_config) result"
  ce_build_store :: "store_config \<Rightarrow> (string, unit) result"
  ce_read_file :: "string \<Rightarrow> (string, u8 list) result"
  ce_to_path :: "string \<Rightarrow> string"
  ce_put_ok :: "string \<Rightarrow> bool"
  ce_dial :: "string \<Rightarrow> (string, unit) result"
  ce_addr :: "string \<Rightarrow> (string, string) result"
  ce_bind :: "string \<Rightarrow> (string, unit) result"

datatype coordinator_start_error =
    CoordinatorConfig string | CoordinatorUpload string | CoordinatorDial string
  | CoordinatorRegister startup_error | CoordinatorAddr string

definition coordinator_config_load :: "coordinator_start_env \<Rightarrow> string \<Rightarrow> (string, coordinator_config) result" where
  "coordinator_config_load C config_path = and_then (ce_read C config_path) (ce_from_toml C)"

definition upload_step ::
  "coordinator_start_env \<Rightarrow> coordinator_config \<Rightarrow> (string \<rightharpoonup> u8 list) \<Rightarrow> (string, string \<rightharpoonup> u8 list) result" where
  "upload_step C cfg bucket =
     (case cc_object_store cfg of
        None \<Rightarrow> Ok bucket
      | Some s3_cfg \<Rightarrow> upload_datasets (ce_build_store C) (ce_read_file C) (ce_to_path C) (ce_put_ok C) (cc_datasets cfg) s3_cfg bucket)"

text \<open>
  The result, the bucket and elan-central's catalog. The process ends, without an error, when the spawned
  server ends: at once when its listener cannot be bound.
\<close>

datatype coordinator_end = Serving coordinator_config | ExitedOk

definition coordinator_main ::
  "libs \<Rightarrow> schema_probe \<Rightarrow> coordinator_start_env \<Rightarrow> string \<Rightarrow> (nat \<Rightarrow> string \<times> uuid) \<Rightarrow> string list \<Rightarrow>
   (string \<rightharpoonup> u8 list) \<Rightarrow> catalog_db \<Rightarrow> (coordinator_start_error, coordinator_end) result \<times> (string \<rightharpoonup> u8 list) \<times> catalog_db" where
  "coordinator_main L P C now draws args bucket db =
     (let config_path = (case arg_value ''--config'' args of Some path \<Rightarrow> path | None \<Rightarrow> ''config/coordinator.toml'')
      in case coordinator_config_load C config_path of
           Inl e \<Rightarrow> (Err (CoordinatorConfig e), bucket, db)
         | Inr cfg \<Rightarrow>
             (case upload_step C cfg bucket of
                Inl e \<Rightarrow> (Err (CoordinatorUpload e), bucket, db)
              | Inr bucket' \<Rightarrow>
                  (case ce_dial C (cc_central_endpoint cfg) of
                     Inl e \<Rightarrow> (Err (CoordinatorDial e), bucket', db)
                   | Inr _ \<Rightarrow>
                       (case coordinator_register L P now (map draws [0..<length (cc_datasets cfg)]) cfg db of
                          (Inl e, db') \<Rightarrow> (Err (CoordinatorRegister e), bucket', db')
                        | (Inr _, db') \<Rightarrow>
                            (and_then (map_err CoordinatorAddr (ce_addr C (cc_http_addr cfg))) (\<lambda>http_addr.
                             Ok (case ce_bind C http_addr of Inl _ \<Rightarrow> ExitedOk | Inr _ \<Rightarrow> Serving cfg)), bucket', db')))))"

section \<open>Lemmas\<close>

lemma query_main_Ok:
  assumes "query_main L fresh Q args = Ok app"
  obtains cfg where "query_config_load (qe_build Q) (qe_reader Q) (arg_value ''--config'' args) = Ok cfg"
    "session_factory_new L fresh (qe_datasets Q) (qe_policies Q) = Ok (app_factory app)"
    "app_audit app = (case qe_audit_dial Q (qc_central_endpoint cfg) of Inl _ \<Rightarrow> NoOpSink | Inr _ \<Rightarrow> CentralSink (qc_central_endpoint cfg))"
    "app_instance_name app = qc_instance_name cfg"
  using assms
  by (auto simp: query_main_def session_factory_connect_def central_audit_sink_new_def and_then_Ok Let_def split: sum.split)

text \<open>A scheduler session and a session of the SQL service register the same tables; only the latter has the object store.\<close>

lemma scheduler_session_service:
  "ss_object_store st = None \<Longrightarrow> scheduler_session D (Ok (new_context D)) (ss_providers st) = service_session D st"
  by (simp add: scheduler_session_def service_session_def with_object_store_def)

lemma upload_step_none [simp]: "cc_object_store cfg = None \<Longrightarrow> upload_step C cfg bucket = Ok bucket"
  by (simp add: upload_step_def)

text \<open>After the upload step: every configured file that could be read and put has an object at its place.\<close>

lemma upload_step_objects:
  assumes "upload_step C cfg bucket = Ok bucket'"
  shows "case cc_object_store cfg of
      None \<Rightarrow> bucket' = bucket
    | Some s3_cfg \<Rightarrow> ce_build_store C s3_cfg = Ok () \<and>
        (\<forall>c \<in> set (cc_datasets cfg). \<forall>path ns data.
           upload_source c = Some (path, ns) \<and> ce_read_file C path = Ok data \<and> ce_put_ok C (ce_to_path C (s3_key c path ns)) \<longrightarrow>
           (\<exists>c' \<in> set (cc_datasets cfg). \<exists>path' ns' data'.
              upload_source c' = Some (path', ns') \<and> ce_read_file C path' = Ok data' \<and>
              ce_to_path C (s3_key c' path' ns') = ce_to_path C (s3_key c path ns) \<and>
              bucket' (ce_to_path C (s3_key c path ns)) = Some data'))"
proof (cases "cc_object_store cfg")
  case (Some s3_cfg)
  then have up: "upload_datasets (ce_build_store C) (ce_read_file C) (ce_to_path C) (ce_put_ok C) (cc_datasets cfg) s3_cfg bucket = Ok bucket'"
    using assms by (simp add: upload_step_def)
  then have "ce_build_store C s3_cfg = Ok ()" by (auto simp: upload_datasets_def and_then_Ok)
  moreover have "\<exists>c' \<in> set (cc_datasets cfg). \<exists>path' ns' data'.
      upload_source c' = Some (path', ns') \<and> ce_read_file C path' = Ok data' \<and>
      ce_to_path C (s3_key c' path' ns') = ce_to_path C (s3_key c path ns) \<and> bucket' (ce_to_path C (s3_key c path ns)) = Some data'"
    if "c \<in> set (cc_datasets cfg)" "upload_source c = Some (path, ns)" "ce_read_file C path = Ok data"
      "ce_put_ok C (ce_to_path C (s3_key c path ns))" for c path ns data
  proof -
    note put = that(4)
    have "(s3_key c path ns, data) \<in> set (file_objects (ce_read_file C) (cc_datasets cfg))" using that by (auto simp: in_file_objects)
    then obtain key' data' where "(key', data') \<in> set (file_objects (ce_read_file C) (cc_datasets cfg))"
      "ce_to_path C key' = ce_to_path C (s3_key c path ns)" "bucket' (ce_to_path C (s3_key c path ns)) = Some data'"
      using uploaded_object [OF up _ put] by blast
    then show ?thesis unfolding in_file_objects by metis
  qed
  ultimately show ?thesis using Some by auto
qed (use assms in simp)

lemma start_order:
  assumes "catalog_inv db" "coordinator_main L P C now draws args bucket db = (r, bucket', db')"
    and "coordinator_config_load C (case arg_value ''--config'' args of Some p \<Rightarrow> p | None \<Rightarrow> ''config/coordinator.toml'') = Ok cfg"
  shows "(db' \<noteq> db \<longrightarrow> upload_step C cfg bucket = Ok bucket' \<and> ce_dial C (cc_central_endpoint cfg) = Ok ()) \<and>
    ((\<exists>x. r = Ok x) \<or> (\<exists>e. r = Err (CoordinatorAddr e)) \<longrightarrow>
      (\<forall>c \<in> set (cc_datasets cfg). \<exists>d \<in> set (live_rows db'). dataset_key d = (dc_namespace c, dc_name c) \<and>
         d_coordinator_id d = cm_id (cc_coordinator cfg) \<and> d_executor_endpoint d = cc_executor_endpoint cfg))"
proof (cases "upload_step C cfg bucket")
  case (Inr b)
  show ?thesis
  proof (cases "ce_dial C (cc_central_endpoint cfg)")
    case dial: (Inr u)
    let ?draws = "map draws [0..<length (cc_datasets cfg)]"
    obtain q db1 where reg: "coordinator_register L P now ?draws cfg db = (q, db1)" by fastforce
    have "\<exists>d \<in> set (live_rows db1). dataset_key d = (dc_namespace c, dc_name c) \<and>
         d_coordinator_id d = cm_id (cc_coordinator cfg) \<and> d_executor_endpoint d = cc_executor_endpoint cfg"
      if "q = Ok ()" "c \<in> set (cc_datasets cfg)" for c
      by (rule coordinator_register_live(2) [OF assms(1) _ _ that(2), of ?draws L P now]) (use reg that(1) in simp_all)
    then show ?thesis
      using assms(2,3) Inr dial reg by (cases q) (auto simp: coordinator_main_def)
  qed (use assms(2,3) Inr in \<open>auto simp: coordinator_main_def\<close>)
qed (use assms(2,3) in \<open>auto simp: coordinator_main_def\<close>)

section \<open>Properties of the starts\<close>

text \<open>
  C17. A coordinator touches elan-central's catalog only after its uploads, when it has an object store, and after it reached
  elan-central: then every configured file that could be read and put has an object at its place in the bucket, with the bytes
  of a configured file for that place (a file that cannot be read, or a put that fails, is skipped). And a start that gets past
  the registration, even one that then fails on the HTTP address or whose listener cannot be bound, leaves
  every configured dataset live in the catalog.
\<close>

theorem coordinator_start_order:
  assumes "catalog_inv db" "coordinator_main L P C now draws args bucket db = (r, bucket', db')"
    and "coordinator_config_load C (case arg_value ''--config'' args of Some p \<Rightarrow> p | None \<Rightarrow> ''config/coordinator.toml'') = Ok cfg"
  shows "(db' \<noteq> db \<longrightarrow> ce_dial C (cc_central_endpoint cfg) = Ok () \<and>
      (case cc_object_store cfg of
         None \<Rightarrow> bucket' = bucket
       | Some s3_cfg \<Rightarrow> ce_build_store C s3_cfg = Ok () \<and>
           (\<forall>c \<in> set (cc_datasets cfg). \<forall>path ns data.
              upload_source c = Some (path, ns) \<and> ce_read_file C path = Ok data \<and> ce_put_ok C (ce_to_path C (s3_key c path ns)) \<longrightarrow>
              (\<exists>c' \<in> set (cc_datasets cfg). \<exists>path' ns' data'.
                 upload_source c' = Some (path', ns') \<and> ce_read_file C path' = Ok data' \<and>
                 ce_to_path C (s3_key c' path' ns') = ce_to_path C (s3_key c path ns) \<and>
                 bucket' (ce_to_path C (s3_key c path ns)) = Some data')))) \<and>
    ((\<exists>x. r = Ok x) \<or> (\<exists>e. r = Err (CoordinatorAddr e)) \<longrightarrow>
      (\<forall>c \<in> set (cc_datasets cfg). \<exists>d \<in> set (live_rows db'). dataset_key d = (dc_namespace c, dc_name c) \<and>
         d_coordinator_id d = cm_id (cc_coordinator cfg) \<and> d_executor_endpoint d = cc_executor_endpoint cfg))"
proof -
  have order: "(db' \<noteq> db \<longrightarrow> upload_step C cfg bucket = Ok bucket' \<and> ce_dial C (cc_central_endpoint cfg) = Ok ()) \<and>
    ((\<exists>x. r = Ok x) \<or> (\<exists>e. r = Err (CoordinatorAddr e)) \<longrightarrow>
      (\<forall>c \<in> set (cc_datasets cfg). \<exists>d \<in> set (live_rows db'). dataset_key d = (dc_namespace c, dc_name c) \<and>
         d_coordinator_id d = cm_id (cc_coordinator cfg) \<and> d_executor_endpoint d = cc_executor_endpoint cfg))"
    using assms by (rule start_order)
  then show ?thesis using upload_step_objects [of C cfg bucket bucket'] by auto
qed

definition demo_coordinator_env :: coordinator_start_env where
  "demo_coordinator_env =
     \<lparr>ce_read = Ok, ce_from_toml = (\<lambda>text. Ok (demo_coordinator\<lparr>cc_object_store := Some demo_store\<rparr>)), ce_build_store = (\<lambda>c. Ok ()),
      ce_read_file = (\<lambda>p. Ok [49, 44, 50]), ce_to_path = id, ce_put_ok = (\<lambda>k. True), ce_dial = (\<lambda>e. Ok ()),
      ce_addr = (\<lambda>a. Err ''invalid socket address''), ce_bind = (\<lambda>a. Ok ())\<rparr>"

lemma demo_coordinator_main:
  "\<exists>bucket' db'. coordinator_main demo_libs demo_probe demo_coordinator_env ''t0'' (\<lambda>i. (''t1'', 5)) [] Map.empty (empty_catalog True) =
     (Err (CoordinatorAddr ''invalid socket address''), bucket', db')"
  by (simp add: coordinator_main_def coordinator_config_load_def demo_coordinator_env_def upload_step_def demo_coordinator_def
      coordinator_register_def register_def upsert_coordinator_def empty_catalog_def to_registration_def demo_probe_def upload_datasets_def
      register_dataset_def upsert_dataset_def internal_error_def Let_def)

theorem coordinator_start_order_witness:
  "\<exists>bucket' db'. coordinator_main demo_libs demo_probe demo_coordinator_env ''t0'' (\<lambda>i. (''t1'', 5)) [] Map.empty (empty_catalog True) =
      (Err (CoordinatorAddr ''invalid socket address''), bucket', db') \<and>
     bucket' ''crm/tickets.csv'' = Some [49, 44, 50] \<and> (\<exists>d \<in> set (live_rows db'). dataset_key d = (''crm'', ''tickets''))"
proof -
  let ?cfg = "demo_coordinator\<lparr>cc_object_store := Some demo_store\<rparr>" and ?c = "demo_csv ''/data/tickets.csv''"
  obtain bucket' db' where r: "coordinator_main demo_libs demo_probe demo_coordinator_env ''t0'' (\<lambda>i. (''t1'', 5)) [] Map.empty
      (empty_catalog True) = (Err (CoordinatorAddr ''invalid socket address''), bucket', db')"
    using demo_coordinator_main by blast
  note start = coordinator_start_order [OF empty_catalog_inv r, of ?cfg]
  have cfg: "coordinator_config_load demo_coordinator_env
      (case arg_value ''--config'' [] of Some p \<Rightarrow> p | None \<Rightarrow> ''config/coordinator.toml'') = Ok ?cfg"
    by (simp add: coordinator_config_load_def demo_coordinator_env_def)
  have one: "cc_datasets ?cfg = [?c]" "upload_source ?c = Some (''/data/tickets.csv'', ''crm'')"
    by (simp_all add: demo_coordinator_def demo_csv_def upload_source_def)
  have row: "\<exists>d \<in> set (live_rows db'). dataset_key d = (''crm'', ''tickets'')"
    using start [OF cfg] unfolding one by (auto simp: demo_csv_def dc_namespace_def dc_name_def)
  then have "db' \<noteq> empty_catalog True" by (auto simp: live_rows_def empty_catalog_def sql_join_def)
  moreover have "s3_key ?c ''/data/tickets.csv'' ''crm'' = ''crm/tickets.csv''" by (simp add: s3_key_def path_file_name_def Let_def)
  ultimately have "bucket' ''crm/tickets.csv'' = Some [49, 44, 50]"
    using start [OF cfg] unfolding one by (auto simp: demo_coordinator_env_def one)
  with r row show ?thesis by blast
qed

text \<open>
  elan-query starts without an audit connection: when that second connection to elan-central fails the process
  is the same but for its sink, and every event is then reported as published and sent nowhere.
\<close>

theorem audit_connection_optional:
  assumes "query_main L fresh Q args = Ok app"
  shows "query_main L fresh (Q\<lparr>qe_audit_dial := \<lambda>e. Err err\<rparr>) args = Ok (app\<lparr>app_audit := NoOpSink\<rparr>) \<and>
    app_publish L T (app_audit (app\<lparr>app_audit := NoOpSink\<rparr>)) event = Ok ()"
  using assms
  by (auto simp: query_main_def session_factory_connect_def central_audit_sink_new_def and_then_Ok Let_def app_publish_def
      noop_sink_publish_def)

definition demo_query_env :: query_start_env where
  "demo_query_env =
     \<lparr>qe_build = demo_build, qe_reader = demo_reader, qe_dial = (\<lambda>e. Ok ()), qe_audit_dial = (\<lambda>e. Ok ()), qe_datasets = Ok [],
      qe_policies = Ok [], qe_bind = (\<lambda>a. Ok ())\<rparr>"

lemma demo_query_main:
  "query_main demo_libs (\<lambda>n. 0) demo_query_env [] =
     Ok \<lparr>app_factory = \<lparr>sf_engine = [], sf_datasets = Map.empty\<rparr>, app_audit = CentralSink ''http://localhost:50051'',
         app_instance_name = ''query-node-1''\<rparr>"
proof -
  have "query_config_load demo_build demo_reader None = Ok query_config_default"
    by (rule query_config_defaults [OF demo_layered demo_reads_plain]) (simp add: demo_read_def)
  moreover have "session_factory_new demo_libs (\<lambda>n. 0) (Ok []) (Ok []) = Ok \<lparr>sf_engine = [], sf_datasets = Map.empty\<rparr>"
    by (simp add: session_factory_new_def load_datasets_def load_iam_policies_def)
  ultimately show ?thesis
    by (simp add: query_main_def demo_query_env_def session_factory_connect_def central_audit_sink_new_def query_config_default_def)
qed

theorem audit_connection_optional_witness:
  "query_main demo_libs (\<lambda>n. 0) (demo_query_env\<lparr>qe_audit_dial := \<lambda>e. Err ''refused''\<rparr>) [] =
     Ok \<lparr>app_factory = \<lparr>sf_engine = [], sf_datasets = Map.empty\<rparr>, app_audit = NoOpSink, app_instance_name = ''query-node-1''\<rparr>"
  using audit_connection_optional [OF demo_query_main, of "''refused''"] by simp

text \<open>
  An executor that is ready has the tables of its configuration, in order and without repetition of a mount, and
  its scheduler listens; but the port for SQL may not: the process is ready all the same when that port is taken.
\<close>

theorem executor_ready:
  assumes "executor_main checks X args = Some (Ok p)"
    and "executor_config_load (xe_read X) (xe_from_toml X) (arg_value ''--config'' args) = Ok cfg"
  shows "subseq (map fst (ss_providers (xp_service p))) (map mount_table_name (xc_datasets cfg)) \<and>
    xe_bind X (scheduler_addr cfg) = Ok (xp_scheduler p) \<and>
    (\<exists>port addr. executor_http_port checks cfg = Some port \<and> xe_addr X (executor_http_addr cfg port) = Ok addr \<and>
       (xp_sql_listener p = None \<longleftrightarrow> (\<exists>e. xe_bind X addr = Err e)))"
proof -
  from assms obtain providers port addr where bp: "build_providers (xe_engine X) cfg = Ok providers"
    and port: "executor_http_port checks cfg = Some port" "xe_addr X (executor_http_addr cfg port) = Ok addr"
    and p: "ss_providers (xp_service p) = providers" "xp_sql_listener p = spawn_sql_service X addr"
      "start_scheduler_on_port X cfg = Ok (xp_scheduler p)"
    by (auto simp: executor_main_def and_then_Ok Let_def split: sum.splits)
  have "xe_bind X (scheduler_addr cfg) = Ok (xp_scheduler p)"
    using p(3) by (auto simp: start_scheduler_on_port_def and_then_Ok Let_def)
  moreover have "xp_sql_listener p = None \<longleftrightarrow> (\<exists>e. xe_bind X addr = Err e)"
    by (simp add: p(2) spawn_sql_service_def split: sum.split)
  ultimately show ?thesis using build_providers_names [OF bp] p(1) port
    by (intro conjI exI [of _ port] exI [of _ addr]) simp_all
qed

definition demo_executor_env :: "(unit, unit, nat) executor_start_env" where
  "demo_executor_env =
     \<lparr>xe_read = Ok, xe_from_toml = (\<lambda>t. Ok executor_config_default), xe_engine = demo_engine, xe_addr = Ok,
      xe_bind = (\<lambda>a. if a = ''0.0.0.0:50056'' then Err ''address in use'' else Ok a), xe_metrics = Ok (),
      xe_init = (\<lambda>n. Ok ()), xe_dial = (\<lambda>e. Ok ()), xe_executor = Ok ()\<rparr>"

lemma demo_executor_main:
  "executor_main True demo_executor_env [] =
     Some (Ok \<lparr>xp_service = \<lparr>ss_providers = [], ss_object_store = None\<rparr>, xp_sql_listener = None, xp_scheduler = ''0.0.0.0:50055''\<rparr>)"
  by (simp add: executor_main_def executor_config_load_def demo_executor_env_def executor_config_default_def build_providers_def
      with_object_store_def executor_http_port_def add_checked_def executor_http_addr_def spawn_sql_service_def
      start_scheduler_on_port_def scheduler_addr_def nat_str.simps digit_char_def char_of_conv Let_def)

theorem executor_ready_witness:
  "\<exists>e. xe_bind demo_executor_env ''0.0.0.0:50056'' = Err e"
  using executor_ready [OF demo_executor_main, of executor_config_default]
  by (simp add: executor_config_load_def demo_executor_env_def)

end
