(* ===== verification/Query_Http.thy ===== *)
theory Query_Http
  imports Query_Session Audit_Event
begin

text \<open>
  elan-query's HTTP handlers (\<open>http/query.rs\<close>). DataFusion's run of a statement in a session, Arrow's
  column accessors, the reading of a header value as text and the order in which a \<open>HashMap\<close>
  enumerates its keys are arguments; so are fresh identifiers, the clock and the measured
  duration. A handler returns its response and the audit events it publishes, in order; the results
  of publishing are discarded, as in the code.
\<close>

section \<open>The caller\<close>

definition extract_subject :: "(string \<Rightarrow> string option) \<Rightarrow> string option \<Rightarrow> subject" where
  "extract_subject to_str authorization =
     \<lparr>user_id =
        (case Option.bind (Option.bind authorization to_str) (strip_prefix ''Bearer '') of
           None \<Rightarrow> ''anonymous'' | Some u \<Rightarrow> u),
      groups = []\<rparr>"

text \<open>
  What the http crate documents of \<open>HeaderValue::to_str\<close>: a value of visible ASCII characters, blanks and tabs is its text,
  any other value has none.
\<close>

definition header_char :: "char \<Rightarrow> bool" where
  "header_char c \<longleftrightarrow> (32 \<le> (of_char c :: nat) \<and> (of_char c :: nat) < 127) \<or> (of_char c :: nat) = 9"

definition header_text :: "(string \<Rightarrow> string option) \<Rightarrow> bool" where
  "header_text to_str \<longleftrightarrow> (\<forall>v. to_str v = (if list_all header_char v then Some v else None))"

definition demo_to_str :: "string \<Rightarrow> string option" where
  "demo_to_str v = (if list_all header_char v then Some v else None)"

lemma demo_header_text [simp]: "header_text demo_to_str"
  by (simp add: header_text_def demo_to_str_def)

text \<open>
  The names that a header carries unchanged: not empty, with no control character and no blank, which the ends of a value
  lose. A name beyond ASCII is sent as its bytes, and read as no name.
\<close>

definition header_word :: "string \<Rightarrow> bool" where
  "header_word u \<longleftrightarrow> u \<noteq> [] \<and> list_all (\<lambda>c. 32 < (of_char c :: nat) \<and> (of_char c :: nat) \<noteq> 127) u"

definition ascii_text :: "string \<Rightarrow> bool" where
  "ascii_text s \<longleftrightarrow> list_all (\<lambda>c. (of_char c :: nat) < 128) s"

lemma bearer_subject:
  assumes "header_text to_str" "header_word username"
  shows "extract_subject to_str (Some (''Bearer '' @ username)) =
    \<lparr>user_id = (if ascii_text username then username else ''anonymous''), groups = []\<rparr>"
proof -
  have "list_all header_char username \<longleftrightarrow> ascii_text username"
    using assms(2) by (fastforce simp: header_word_def ascii_text_def header_char_def list_all_iff)
  then have "to_str (''Bearer '' @ username) = (if ascii_text username then Some (''Bearer '' @ username) else None)"
    using assms(1) by (simp add: header_text_def header_char_def)
  then show ?thesis by (simp add: extract_subject_def strip_prefix_def)
qed

section \<open>The response to a query\<close>

record 'c arrow =
  ar_is_null :: "'c \<Rightarrow> nat \<Rightarrow> bool"
  ar_cast_utf8 :: "'c \<Rightarrow> (string, (nat \<Rightarrow> string option) option) result"
  ar_type_text :: "'c \<Rightarrow> string"

definition arrow_col_to_json :: "'c arrow \<Rightarrow> 'c \<Rightarrow> nat \<Rightarrow> json" where
  "arrow_col_to_json A col row =
     (if ar_is_null A col row then JNull
      else case ar_cast_utf8 A col of
             Inr string_array \<Rightarrow>
               (case Option.bind string_array (\<lambda>a. a row) of
                  Some s \<Rightarrow> JString s
                | None \<Rightarrow> JString ''null'')
           | Inl _ \<Rightarrow> JString (''<'' @ ar_type_text A col @ ''>''))"

definition batches_to_response ::
  "'c arrow \<Rightarrow> uuid \<Rightarrow> 'c batch list \<Rightarrow> 64 word \<Rightarrow> (string, query_response) result" where
  "batches_to_response A query_id batches duration_ms =
     (case batches of
        [] \<Rightarrow> Ok \<lparr>qp_query_id = query_id, qp_columns = [], qp_rows = [], qp_duration_ms = duration_ms\<rparr>
      | first # _ \<Rightarrow>
          Ok \<lparr>qp_query_id = query_id, qp_columns = map f_name (b_schema first),
              qp_rows = concat (map (\<lambda>batch. map (\<lambda>row_idx.
                  map (\<lambda>col. arrow_col_to_json A col row_idx) (b_columns batch)) [0..<b_num_rows batch]) batches),
              qp_duration_ms = duration_ms\<rparr>)"

datatype http_status = Forbidden | InternalServerError

type_synonym http_error = "http_status \<times> error_response"

definition err500 :: "string \<Rightarrow> string \<Rightarrow> http_error" where
  "err500 error detail = (InternalServerError, \<lparr>er_error = error, er_detail = Some detail\<rparr>)"

section \<open>POST /api/v1/query\<close>

text \<open>What a request draws from the environment.\<close>

record request_env =
  rq_query_id :: uuid
  rq_session_uuid :: uuid
  rq_event_ids :: "uuid \<times> uuid"
  rq_times :: "string \<times> string"
  rq_duration_ms :: "64 word"

definition handle_query ::
  "libs \<Rightarrow> 'c arrow \<Rightarrow> ('n session_context \<Rightarrow> string \<Rightarrow> (df_error, 'c batch list) result) \<Rightarrow> string \<Rightarrow> request_env \<Rightarrow>
   (subject \<Rightarrow> (string, 'n session_context) result) \<Rightarrow> (string \<Rightarrow> string option) \<Rightarrow> string option \<Rightarrow> query_request \<Rightarrow>
   (http_error, query_response) result \<times> audit_event list" where
  "handle_query L A run_sql instance_name R build to_str authorization body =
     (let subject = extract_subject to_str authorization;
          query_id = rq_query_id R;
          session_id = (case qr_session_id body of Some s \<Rightarrow> s | None \<Rightarrow> uuid_text L (rq_session_uuid R));
          audit_subject = \<lparr>as_user_id = user_id subject, as_groups = groups subject, as_session_id = Some session_id\<rparr>
      in case build subject of
           Inl e \<Rightarrow> (Err (err500 ''session build failed'' e), [])
         | Inr ctx \<Rightarrow>
             (let submitted = audit_event_new (fst (rq_event_ids R)) (fst (rq_times R)) ''elan-query'' instance_name audit_subject
                    (QuerySubmitted \<lparr>qs_query_id = query_id, qs_sql = qr_sql body, qs_resolved_tables = [], qs_executors = Map.empty\<rparr>);
                  outcome = audit_event_new (snd (rq_event_ids R)) (snd (rq_times R)) ''elan-query'' instance_name audit_subject
              in case run_sql ctx (qr_sql body) of
                   Inr batches \<Rightarrow>
                     (let rows_returned = word_of_nat (sum_list (map b_num_rows batches));
                          completed = outcome (QueryCompleted \<lparr>qc_query_id = query_id, qc_duration_ms = rq_duration_ms R,
                                        qc_rows_returned = rows_returned, qc_bytes_scanned = 0\<rparr>)
                      in (map_err (err500 ''response serialization failed'')
                            (batches_to_response A query_id batches (rq_duration_ms R)),
                          [submitted, completed]))
                 | Inl e \<Rightarrow>
                     (let failed = outcome (QueryFailed \<lparr>qf_query_id = query_id, qf_duration_ms = rq_duration_ms R,
                                     qf_error_kind = ''DataFusionError'', qf_error_msg = df_error_text e\<rparr>);
                          is_access_denied = str_contains (df_error_text e) ''AccessDenied''
                                           \<or> str_contains (df_error_text e) ''permission denied''
                      in (if is_access_denied
                          then Err (Forbidden, \<lparr>er_error = ''AccessDenied'', er_detail = Some (df_error_text e)\<rparr>)
                          else Err (err500 ''query execution failed'' (df_error_text e)),
                          [submitted, failed]))))"

section \<open>GET /api/v1/catalog\<close>

definition handle_catalog ::
  "libs \<Rightarrow> (u8 list \<Rightarrow> (string, schema) result) \<Rightarrow> (string set \<Rightarrow> string list) \<Rightarrow> session_factory \<Rightarrow>
   (string \<Rightarrow> string option) \<Rightarrow> string option \<Rightarrow> catalog_response" where
  "handle_catalog L ipc_schema order sf to_str authorization =
     (let subject = extract_subject to_str authorization;
          ctx = build_for_user L ipc_schema sf subject :: unit session_context
      in case sx_catalogs ctx ''elan'' of
           None \<Rightarrow> \<lparr>cr_namespaces = []\<rparr>
         | Some catalog \<Rightarrow>
             \<lparr>cr_namespaces = List.map_filter (\<lambda>ns_name.
                 map_option (\<lambda>schema.
                     \<lparr>ni_name = ns_name,
                      ni_datasets = map (\<lambda>name. \<lparr>sm_name = name, sm_source_type = ''unknown'', sm_coordinator_id = []\<rparr>)
                        (order (table_names (snapshot_check L (sf_engine sf)) subject schema))\<rparr>)
                   (catalog_schema catalog ns_name))
               (order (schema_names catalog))\<rparr>)"

section \<open>Properties of the handlers\<close>

definition key_order :: "(string set \<Rightarrow> string list) \<Rightarrow> bool" where
  "key_order order \<longleftrightarrow> (\<forall>S. finite S \<longrightarrow> set (order S) = S \<and> distinct (order S))"

lemma key_orderD: "key_order order \<Longrightarrow> finite S \<Longrightarrow> set (order S) = S"
  by (simp add: key_order_def)

lemma schema_provider_new_dom:
  "dom (sv_datasets (schema_provider_new ipc_schema ns ds_list)) = ds_name ` set ds_list"
  "sv_namespace (schema_provider_new ipc_schema ns ds_list) = ns"
proof -
  have "dom (foldl (\<lambda>m ds. m(ds_name ds \<mapsto> elan_table_of ipc_schema ds)) m xs) = dom m \<union> ds_name ` set xs" for m xs
    by (induction xs arbitrary: m) auto
  then show "dom (sv_datasets (schema_provider_new ipc_schema ns ds_list)) = ds_name ` set ds_list"
    "sv_namespace (schema_provider_new ipc_schema ns ds_list) = ns"
    by (simp_all add: schema_provider_new_def)
qed

lemma set_map_filter_Some: "set (List.map_filter f xs) = {y. \<exists>x \<in> set xs. f x = Some y}"
  by (force simp: List.map_filter_def)

lemma batches_to_response_Ok: "\<exists>resp. batches_to_response A query_id batches ms = Ok resp"
  by (auto simp: batches_to_response_def split: list.split)

text \<open>
  Every query that gets a session leaves exactly two audit events of the same caller and query:
  its submission, with the SQL as sent, and then its completion if the response is a success or its
  failure if it is not. No event records a denied access.
\<close>

theorem query_audit_trail:
  assumes "build (extract_subject to_str auth) = Ok ctx"
    and "handle_query L A run_sql inst R build to_str auth body = (resp, events)"
  shows "\<exists>submitted outcome. events = [submitted, outcome]
    \<and> event_type submitted = ''QuerySubmitted''
    \<and> ev_payload submitted = QuerySubmitted \<lparr>qs_query_id = rq_query_id R, qs_sql = qr_sql body, qs_resolved_tables = [], qs_executors = Map.empty\<rparr>
    \<and> ev_subject outcome = ev_subject submitted \<and> as_user_id (ev_subject submitted) = user_id (extract_subject to_str auth)
    \<and> event_type outcome = (case resp of Inr _ \<Rightarrow> ''QueryCompleted'' | Inl _ \<Rightarrow> ''QueryFailed'')
    \<and> ''AccessDenied'' \<notin> event_type ` set events"
proof (cases "run_sql ctx (qr_sql body)")
  case (Inl e)
  with assms show ?thesis by (auto simp: handle_query_def Let_def audit_event_new_def event_type_def)
next
  case (Inr batches)
  obtain r where "batches_to_response A (rq_query_id R) batches (rq_duration_ms R) = Ok r"
    using batches_to_response_Ok by blast
  with Inr assms show ?thesis by (auto simp: handle_query_def Let_def audit_event_new_def event_type_def)
qed

definition demo_request_env :: request_env where
  "demo_request_env =
     \<lparr>rq_query_id = 1, rq_session_uuid = 2, rq_event_ids = (3, 4), rq_times = (''t1'', ''t2''), rq_duration_ms = 5\<rparr>"

definition demo_arrow :: "nat arrow" where
  "demo_arrow =
     \<lparr>ar_is_null = (\<lambda>c r. False), ar_cast_utf8 = (\<lambda>c. Ok (Some (\<lambda>r. Some (nat_str c)))), ar_type_text = (\<lambda>c. ''Int32'')\<rparr>"

theorem query_audit_trail_witness:
  "\<exists>submitted outcome.
     snd (handle_query demo_libs demo_arrow (\<lambda>ctx sql. Err (PlanError ''no table'')) ''q1'' demo_request_env
       (\<lambda>subj. Ok (build_for_user demo_libs (\<lambda>_. Ok []) demo_factory subj :: unit session_context)) demo_to_str
       (Some ''Bearer alice'') \<lparr>qr_sql = ''SELECT 1'', qr_session_id = None\<rparr>) = [submitted, outcome]
     \<and> event_type outcome = ''QueryFailed''"
proof -
  obtain resp events where h: "handle_query demo_libs demo_arrow (\<lambda>ctx sql. Err (PlanError ''no table'')) ''q1'' demo_request_env
       (\<lambda>subj. Ok (build_for_user demo_libs (\<lambda>_. Ok []) demo_factory subj :: unit session_context)) demo_to_str
       (Some ''Bearer alice'') \<lparr>qr_sql = ''SELECT 1'', qr_session_id = None\<rparr> = (resp, events)" by fastforce
  then have "\<exists>e. resp = Err e" by (auto simp: handle_query_def Let_def)
  with query_audit_trail [OF _ h] h show ?thesis by fastforce
qed

text \<open>
  The response to a query has one row for each row of the batches, each with a value for each
  column, when the batches agree on their columns as Arrow guarantees within one result.
\<close>

theorem query_response_shape:
  assumes "batches_to_response A query_id batches ms = Ok resp"
    and "\<forall>b \<in> set batches. b_schema b = s \<and> length (b_columns b) = length s"
  shows "length (qp_rows resp) = sum_list (map b_num_rows batches)
    \<and> list_all (\<lambda>row. length row = length (qp_columns resp)) (qp_rows resp)"
proof (cases batches)
  case (Cons first rest)
  then have resp: "qp_columns resp = map f_name (b_schema first)"
    "qp_rows resp = concat (map (\<lambda>batch. map (\<lambda>row_idx.
        map (\<lambda>col. arrow_col_to_json A col row_idx) (b_columns batch)) [0..<b_num_rows batch]) batches)"
    using assms(1) by (auto simp: batches_to_response_def)
  show ?thesis
    unfolding resp using assms(2) Cons by (auto simp: length_concat o_def list_all_iff)
qed (use assms(1) in \<open>auto simp: batches_to_response_def\<close>)

theorem query_response_shape_witness:
  "\<exists>resp. batches_to_response demo_arrow 1 [\<lparr>b_schema = demo_schema, b_columns = [0, 1], b_num_rows = 2\<rparr>] 5 = Ok resp
     \<and> length (qp_rows resp) = 2"
proof -
  obtain resp where r: "batches_to_response demo_arrow 1 [\<lparr>b_schema = demo_schema, b_columns = [0, 1], b_num_rows = 2\<rparr>] 5 = Ok resp"
    using batches_to_response_Ok by blast
  from query_response_shape [OF r, of demo_schema] r show ?thesis by (simp add: demo_schema_def)
qed

text \<open>
  The catalog a user is shown holds exactly the cached datasets on which the engine grants the
  user SELECT.
\<close>

theorem catalog_lists_visible:
  assumes "key_order order" "finite (dom (sf_datasets sf))"
  shows "(\<exists>ni \<in> set (cr_namespaces (handle_catalog L ipc_schema order sf to_str auth)).
      ni_name ni = ns \<and> n \<in> sm_name ` set (ni_datasets ni)) \<longleftrightarrow>
    (\<exists>ds_list. sf_datasets sf ns = Some ds_list \<and> n \<in> ds_name ` set ds_list) \<and>
    is_visible (snapshot_check L (sf_engine sf)) (extract_subject to_str auth) ns n"
proof -
  let ?schemas = "\<lambda>ns. map_option (schema_provider_new ipc_schema ns) (sf_datasets sf ns)"
  let ?check = "snapshot_check L (sf_engine sf)" and ?subj = "extract_subject to_str auth"
  have dom: "dom ?schemas = dom (sf_datasets sf)" by auto
  have keys: "set (order (schema_names ?schemas)) = dom (sf_datasets sf)"
    using key_orderD [OF assms(1)] assms(2) by (simp add: schema_names_def dom)
  have names: "set (order (table_names ?check ?subj (schema_provider_new ipc_schema ns l))) =
      {n \<in> ds_name ` set l. is_visible ?check ?subj ns n}" for ns l
  proof -
    have "table_names ?check ?subj (schema_provider_new ipc_schema ns l) = {n \<in> ds_name ` set l. is_visible ?check ?subj ns n}"
      by (simp add: table_names_def schema_provider_new_dom)
    then show ?thesis using key_orderD [OF assms(1)] by simp
  qed
  let ?ni = "\<lambda>ns_name. map_option (\<lambda>schema. \<lparr>ni_name = ns_name,
      ni_datasets = map (\<lambda>name. \<lparr>sm_name = name, sm_source_type = ''unknown'', sm_coordinator_id = []\<rparr>)
        (order (table_names ?check ?subj schema))\<rparr>) (?schemas ns_name)"
  have "cr_namespaces (handle_catalog L ipc_schema order sf to_str auth) = List.map_filter ?ni (order (schema_names ?schemas))"
    by (simp add: handle_catalog_def build_for_user_def Let_def catalog_schema_def)
  then have set: "ni \<in> set (cr_namespaces (handle_catalog L ipc_schema order sf to_str auth)) \<longleftrightarrow>
      (\<exists>ns l. sf_datasets sf ns = Some l \<and> ?ni ns = Some ni)" for ni
    unfolding set_map_filter_Some keys by (simp only: mem_Collect_eq set_map_filter_Some keys) auto
  have mem: "sm_name ` set (ni_datasets ni) = {n \<in> ds_name ` set l. is_visible ?check ?subj ns n} \<and> ni_name ni = ns"
    if "sf_datasets sf ns = Some l" "?ni ns = Some ni" for ni ns l
    using that names [of ns l] by (auto simp: image_image)
  show ?thesis
  proof
    assume "\<exists>ni \<in> set (cr_namespaces (handle_catalog L ipc_schema order sf to_str auth)).
      ni_name ni = ns \<and> n \<in> sm_name ` set (ni_datasets ni)"
    then obtain ni ns' l where "sf_datasets sf ns' = Some l" "?ni ns' = Some ni" "ni_name ni = ns" "n \<in> sm_name ` set (ni_datasets ni)"
      unfolding Bex_def set by blast
    with mem [of ns' l ni] show "(\<exists>ds_list. sf_datasets sf ns = Some ds_list \<and> n \<in> ds_name ` set ds_list) \<and> is_visible ?check ?subj ns n"
      by blast
  next
    assume "(\<exists>ds_list. sf_datasets sf ns = Some ds_list \<and> n \<in> ds_name ` set ds_list) \<and> is_visible ?check ?subj ns n"
    then obtain l where l: "sf_datasets sf ns = Some l" "n \<in> ds_name ` set l" "is_visible ?check ?subj ns n" by blast
    then obtain ni where ni: "?ni ns = Some ni" by simp
    with mem [OF l(1) ni] l show "\<exists>ni \<in> set (cr_namespaces (handle_catalog L ipc_schema order sf to_str auth)).
        ni_name ni = ns \<and> n \<in> sm_name ` set (ni_datasets ni)"
      unfolding Bex_def set by blast
  qed
qed

definition demo_session :: session_factory where
  "demo_session = \<lparr>sf_engine = [demo_deny, demo_allow],
     sf_datasets = [''crm'' \<mapsto> [rs_dataset (demo_scan ''crm'' ''customers'')], ''finance'' \<mapsto> [rs_dataset (demo_scan ''finance'' ''transactions'')]]\<rparr>"

lemma sorted_key_order [simp]: "key_order (sorted_list_of_set :: string set \<Rightarrow> string list)"
  by (simp add: key_order_def)

theorem catalog_lists_visible_witness:
  "\<exists>ni \<in> set (cr_namespaces (handle_catalog demo_libs (\<lambda>_. Ok []) sorted_list_of_set demo_session demo_to_str (Some ''Bearer bob''))).
     ni_name ni = ''crm'' \<and> ''customers'' \<in> sm_name ` set (ni_datasets ni)"
proof -
  have "extract_subject demo_to_str (Some ''Bearer bob'') = demo_subject ''bob''"
    using bearer_subject [OF demo_header_text, of "''bob''"] by (simp add: header_word_def ascii_text_def demo_policy_defs)
  then show ?thesis
    using catalog_lists_visible [OF sorted_key_order, of demo_session demo_libs "\<lambda>_. Ok []" demo_to_str "Some ''Bearer bob''" "''crm''" "''customers''"]
    by (simp add: demo_session_def demo_scan_def)
qed

text \<open>
  Group policies are never enforced by elan-query: the subject of an HTTP request is in no group,
  so every decision is the one without the policies for groups, the Deny policies included.
\<close>

theorem group_policies_not_enforced:
  "is_visible (snapshot_check L ps) (extract_subject to_str auth) ns n =
   is_visible (snapshot_check L (filter (\<lambda>p. pol_subject_type p = SubjectUser) ps)) (extract_subject to_str auth) ns n"
proof -
  have "pol_subject_type p = SubjectUser" if "policy_applies (extract_subject to_str auth) r a p" for p r a
    using that by (cases "pol_subject_type p") (auto simp: policy_applies_def matches_subject_def extract_subject_def)
  then show ?thesis unfolding is_visible_def snapshot_allowed_iff by auto
qed

text \<open>
  Every request is that of the name in a readable bearer header or else of the anonymous user; none is in a group.
\<close>

theorem request_subject_name:
  "user_id (extract_subject to_str auth) \<in> {u. Option.bind auth to_str = Some (''Bearer '' @ u)} \<union> {''anonymous''}
   \<and> groups (extract_subject to_str auth) = []"
proof (cases "Option.bind (Option.bind auth to_str) (strip_prefix ''Bearer '')")
  case None
  then show ?thesis by (simp add: extract_subject_def)
next
  case (Some u)
  then have "Option.bind auth to_str = Some (''Bearer '' @ u)"
    using strip_prefix_Some [of "''Bearer ''"] by (cases "Option.bind auth to_str") auto
  with Some show ?thesis by (simp add: extract_subject_def)
qed

end
