(* ===== verification/Central_Audit.thy ===== *)
theory Central_Audit
  imports Iam_Store Audit_Event
begin

text \<open>
  The gRPC service \<open>AuditSvc\<close> of elan-central (\<open>grpc/audit_svc.rs\<close>). tokio's bounded channel is a
  parameter: \<open>send\<close> maps the waiting items and a new one to the items afterwards, or to \<open>None\<close> when
  the call waits for the receiver; \<open>bounded_channel\<close> states its documented behaviour while nothing
  is received. The text of a timestamp is a parameter too (crate chrono).
\<close>

section \<open>Messages\<close>

record stream_request =
  sr_since :: "(i64 \<times> i32) option"
  sr_event_types :: "string list"

type_synonym 'a send_fn = "'a list \<Rightarrow> 'a \<Rightarrow> 'a list option"

definition bounded_channel :: "nat \<Rightarrow> 'a send_fn \<Rightarrow> bool" where
  "bounded_channel capacity send \<longleftrightarrow>
     (\<forall>buf x. send buf x = (if length buf < capacity then Some (buf @ [x]) else None))"

section \<open>The handlers\<close>

definition audit_row_proto :: "audit_row \<Rightarrow> audit_event_proto" where
  "audit_row_proto a =
     \<lparr>ae_event_id = au_id a, ae_event_type = au_event_type a, ae_occurred_at = None,
      ae_source_service = au_source_service a, ae_user_id = au_user_id a,
      ae_session_id = (case au_session_id a of None \<Rightarrow> [] | Some s \<Rightarrow> s),
      ae_payload_json = au_payload_json a\<rparr>"

fun send_all :: "'a send_fn \<Rightarrow> 'a list \<Rightarrow> 'a list \<Rightarrow> 'a list option" where
  "send_all send buf [] = Some buf"
| "send_all send buf (x # xs) =
     (case send buf x of None \<Rightarrow> None | Some buf' \<Rightarrow> send_all send buf' xs)"

text \<open>
  The part of \<open>stream_audit_events\<close> that runs before the handler returns its stream: \<open>None\<close> when it
  never returns, otherwise the items waiting in the channel at that moment.
\<close>

definition stream_audit_events ::
  "audit_event_proto send_fn \<Rightarrow> (i64 \<Rightarrow> 32 word \<Rightarrow> string option) \<Rightarrow> (audit_row list \<Rightarrow> audit_row list) \<Rightarrow>
   stream_request \<Rightarrow> iam_db \<Rightarrow> audit_event_proto list option" where
  "stream_audit_events send rfc3339 scan req db =
     (let since = map_option (\<lambda>(seconds, nanos).
                    case rfc3339 seconds (ucast nanos) of None \<Rightarrow> [] | Some t \<Rightarrow> t) (sr_since req);
          recent = get_recent_audit_events scan since (sr_event_types req) 100 db
      in send_all send [] (map audit_row_proto recent))"

text \<open>The task that forwards live events: what it receives from the broadcast, and what it sends on.\<close>

datatype broadcast_recv = Received audit_event_proto | Lagged nat | Closed

fun forward_live :: "string list \<Rightarrow> broadcast_recv list \<Rightarrow> audit_event_proto list" where
  "forward_live filter_types [] = []"
| "forward_live filter_types (Received event # rest) =
     (if filter_types = [] \<or> ae_event_type event \<in> set filter_types
      then event # forward_live filter_types rest else forward_live filter_types rest)"
| "forward_live filter_types (Lagged n # rest) = forward_live filter_types rest"
| "forward_live filter_types (Closed # rest) = []"

text \<open>\<open>publish_event\<close>: the response, the new database and the events that are broadcast.\<close>

definition publish_event ::
  "libs \<Rightarrow> string \<Rightarrow> audit_event_proto \<Rightarrow> iam_db \<Rightarrow> (status, bool) result \<times> iam_db \<times> audit_event_proto list" where
  "publish_event L now event db =
     (let (r, db') = store_audit_event (ae_event_id event) (ae_event_type event) now (ae_source_service event)
                       (ae_user_id event) (if ae_session_id event = [] then None else Some (ae_session_id event))
                       (ae_payload_json event) db
      in case r of
           Inl e \<Rightarrow> (Err (status_internal (store_error_text L e)), db', [])
         | Inr _ \<Rightarrow> (Ok True, db', [event]))"

section \<open>Lemmas\<close>

lemma bounded_channelD: "bounded_channel c send \<Longrightarrow> send buf x = (if length buf < c then Some (buf @ [x]) else None)"
  by (simp add: bounded_channel_def)

lemma send_all_bounded:
  assumes "bounded_channel c send"
  shows "length buf \<le> c \<Longrightarrow> send_all send buf xs = (if length buf + length xs \<le> c then Some (buf @ xs) else None)"
  by (induction xs arbitrary: buf) (auto simp: bounded_channelD [OF assms])

definition newest_first :: "(audit_row list \<Rightarrow> audit_row list) \<Rightarrow> iam_db \<Rightarrow> audit_row list" where
  "newest_first scan db = rev (sort_key au_occurred_at (scan (audit_events db)))"

lemma recent_newest:
  "get_recent_audit_events scan None types 100 db =
     filter (\<lambda>a. types = [] \<or> au_event_type a \<in> set types) (take 100 (newest_first scan db))"
  by (simp add: get_recent_audit_events_def newest_first_def Let_def)

lemma newest_first_mset: "mset (scan (audit_events db)) = mset (audit_events db) \<Longrightarrow> mset (newest_first scan db) = mset (audit_events db)"
  by (simp add: newest_first_def)

text \<open>In a list sorted from the newest, an element of the first \<open>k\<close> has fewer than \<open>k\<close> newer ones.\<close>

lemma take_sorted_desc_count:
  fixes f :: "'a \<Rightarrow> 'b :: linorder"
  assumes "sorted (rev (map f xs))" "x \<in> set (take k xs)"
  shows "length (filter (\<lambda>y. f x < f y) xs) < k"
proof -
  obtain i where i: "i < k" "i < length xs" "x = xs ! i"
    using assms(2) by (auto simp: in_set_conv_nth)
  have "\<not> f x < f y" if "y \<in> set (drop i xs)" for y
  proof -
    from that obtain j where "j < length (drop i xs)" "drop i xs ! j = y" unfolding in_set_conv_nth by blast
    then have j: "y = xs ! (i + j)" "i + j < length xs" using i(2) by auto
    then have "f (xs ! (i + j)) \<le> f (xs ! i)"
      using assms(1) i(2) by (auto simp: sorted_rev_iff_nth_mono)
    then show ?thesis using i(3) j(1) by simp
  qed
  then have "filter (\<lambda>y. f x < f y) (drop i xs) = []" by (simp add: filter_empty_conv)
  then have "filter (\<lambda>y. f x < f y) xs = filter (\<lambda>y. f x < f y) (take i xs)"
    by (metis append_Nil2 append_take_drop_id filter_append)
  then have "length (filter (\<lambda>y. f x < f y) xs) \<le> i"
    using length_filter_le [of "\<lambda>y. f x < f y" "take i xs"] i(2) by simp
  with i(1) show ?thesis by simp
qed

section \<open>Properties of the audit service\<close>

text \<open>
  C37. The replay is sent into a channel of 64 places before the handler hands out the receiving end,
  so the handler returns exactly when there are at most 64 events to replay; then the stream begins
  with all of them, newest first. With more, up to the limit of 100, the call never returns.
\<close>

theorem audit_replay_blocks:
  assumes "bounded_channel 64 send"
  shows "stream_audit_events send rfc3339 scan \<lparr>sr_since = None, sr_event_types = types\<rparr> db =
    (let recent = filter (\<lambda>a. types = [] \<or> au_event_type a \<in> set types)
                    (take 100 (rev (sort_key au_occurred_at (scan (audit_events db)))))
     in if length recent \<le> 64 then Some (map audit_row_proto recent) else None)"
  using send_all_bounded [OF assms, of "[]"]
  by (simp add: stream_audit_events_def recent_newest newest_first_def Let_def)

definition demo_channel :: "audit_event_proto send_fn" where
  "demo_channel buf x = (if length buf < 64 then Some (buf @ [x]) else None)"

lemma demo_channel_bounded [simp]: "bounded_channel 64 demo_channel"
  by (simp add: bounded_channel_def demo_channel_def)

definition demo_audit_row :: "nat \<Rightarrow> string \<Rightarrow> audit_row" where
  "demo_audit_row n t =
     \<lparr>au_id = nat_str n, au_event_type = ''QueryFailed'', au_occurred_at = t, au_source_service = ''elan-query'',
      au_user_id = ''bob'', au_session_id = None, au_payload_json = ''{}''\<rparr>"

definition demo_audit_db :: "nat \<Rightarrow> iam_db" where
  "demo_audit_db n = seeded_iam_db\<lparr>audit_events := map (\<lambda>i. demo_audit_row i ''2026'') [0..<n]\<rparr>"

theorem audit_replay_blocks_witness:
  "stream_audit_events demo_channel (\<lambda>_ _. None) id \<lparr>sr_since = None, sr_event_types = []\<rparr> (demo_audit_db 65) = None"
  using audit_replay_blocks [OF demo_channel_bounded, of "\<lambda>_ _. None" id "[]" "demo_audit_db 65"]
  by (simp add: demo_audit_db_def Let_def)

text \<open>An event that has 100 newer ones, of whatever type, is not replayed.\<close>

lemma beyond_limit_not_replayed:
  assumes "mset (scan (audit_events db)) = mset (audit_events db)"
    and "length (filter (\<lambda>b. au_occurred_at a < au_occurred_at b) (audit_events db)) \<ge> 100"
  shows "a \<notin> set (get_recent_audit_events scan None types 100 db)"
proof
  assume "a \<in> set (get_recent_audit_events scan None types 100 db)"
  then have a: "a \<in> set (take 100 (newest_first scan db))" by (simp add: recent_newest)
  have "sorted (rev (map au_occurred_at (newest_first scan db)))"
    by (simp add: newest_first_def rev_map [symmetric])
  from take_sorted_desc_count [OF this a]
  have "size (filter_mset (\<lambda>b. au_occurred_at a < au_occurred_at b) (mset (newest_first scan db))) < 100"
    by (metis mset_filter size_mset)
  then have "length (filter (\<lambda>b. au_occurred_at a < au_occurred_at b) (audit_events db)) < 100"
    unfolding newest_first_mset [of scan db, OF assms(1)] by (metis mset_filter size_mset)
  with assms(2) show False by simp
qed

text \<open>
  C29. The limit of the replay is applied before its filter on event types: a client that asks for some types and gives no time gets an empty replay,
  whatever is stored of them, when each of these events has 100 newer ones of whatever type.
\<close>

theorem type_filter_after_limit:
  assumes "mset (scan (audit_events db)) = mset (audit_events db)" "types \<noteq> []"
    and "\<And>a. a \<in> set (audit_events db) \<Longrightarrow> au_event_type a \<in> set types \<Longrightarrow>
      length (filter (\<lambda>b. au_occurred_at a < au_occurred_at b) (audit_events db)) \<ge> 100"
  shows "stream_audit_events send rfc3339 scan \<lparr>sr_since = None, sr_event_types = types\<rparr> db = Some []"
proof -
  have "a \<notin> set (get_recent_audit_events scan None types 100 db)" for a
  proof
    assume a: "a \<in> set (get_recent_audit_events scan None types 100 db)"
    then have "au_event_type a \<in> set types" "a \<in> set (newest_first scan db)"
      using assms(2) by (auto simp: recent_newest dest: in_set_takeD)
    moreover have "set (newest_first scan db) = set (audit_events db)"
      using newest_first_mset [of scan db, OF assms(1)] by (metis set_mset_mset)
    ultimately have "length (filter (\<lambda>b. au_occurred_at a < au_occurred_at b) (audit_events db)) \<ge> 100" using assms(3) by blast
    with a show False using beyond_limit_not_replayed [of scan db, OF assms(1)] by blast
  qed
  then have "get_recent_audit_events scan None types 100 db = []" by (metis list.set_intros(1) neq_Nil_conv)
  then show ?thesis by (simp add: stream_audit_events_def)
qed

definition demo_busy_db :: iam_db where
  "demo_busy_db = seeded_iam_db\<lparr>audit_events :=
     (demo_audit_row 1000 ''2025'')\<lparr>au_event_type := ''QueryCompleted''\<rparr> # map (\<lambda>i. demo_audit_row i ''2026'') [0..<100]\<rparr>"

theorem type_filter_after_limit_witness:
  "stream_audit_events demo_channel (\<lambda>_ _. None) id \<lparr>sr_since = None, sr_event_types = [''QueryCompleted'']\<rparr> demo_busy_db = Some []"
  by (rule type_filter_after_limit) (auto simp: demo_busy_db_def demo_audit_row_def filter_map o_def)

text \<open>
  Publishing and replaying an event: an accepted event, published after all others, is the first
  item of the next replay, with every field but its time as it was sent.
\<close>

theorem publish_then_replay:
  assumes "fst (publish_event L now event db) = Ok True"
    and "\<And>rows. mset (scan rows) = mset rows"
    and "\<forall>a \<in> set (audit_events db). au_occurred_at a < now"
  shows "\<exists>rest. map audit_row_proto (get_recent_audit_events scan None [] 100 (fst (snd (publish_event L now event db)))) =
    event\<lparr>ae_occurred_at := None\<rparr> # rest"
proof -
  let ?row = "\<lparr>au_id = ae_event_id event, au_event_type = ae_event_type event, au_occurred_at = now,
      au_source_service = ae_source_service event, au_user_id = ae_user_id event,
      au_session_id = (if ae_session_id event = [] then None else Some (ae_session_id event)),
      au_payload_json = ae_payload_json event\<rparr>"
  let ?db = "db\<lparr>audit_events := audit_events db @ [?row]\<rparr>"
  have db: "fst (snd (publish_event L now event db)) = ?db"
    using assms(1) by (auto simp: publish_event_def store_audit_event_def split: if_splits)
  have "mset (newest_first scan ?db) = mset (audit_events ?db)" by (rule newest_first_mset) (rule assms(2))
  then have "set (newest_first scan ?db) = set (audit_events ?db)" by (metis set_mset_mset)
  then have set: "set (newest_first scan ?db) = insert ?row (set (audit_events db))" by simp
  then obtain x rest where nf: "newest_first scan ?db = x # rest" by (cases "newest_first scan ?db") auto
  have "sorted (rev (map au_occurred_at (newest_first scan ?db)))"
    by (simp add: newest_first_def rev_map [symmetric])
  then have "\<forall>y \<in> set (newest_first scan ?db). au_occurred_at y \<le> au_occurred_at x"
    by (auto simp: nf sorted_append)
  then have "now \<le> au_occurred_at x" using set by auto
  moreover have "x \<in> insert ?row (set (audit_events db))" using set nf by auto
  ultimately have "x = ?row" using assms(3) by fastforce
  then have "audit_row_proto x = event\<lparr>ae_occurred_at := None\<rparr>" by (simp add: audit_row_proto_def)
  then show ?thesis unfolding db recent_newest nf by simp
qed

definition demo_event_proto :: audit_event_proto where
  "demo_event_proto =
     \<lparr>ae_event_id = ''e1'', ae_event_type = ''QueryFailed'', ae_occurred_at = None, ae_source_service = ''elan-query'',
      ae_user_id = ''bob'', ae_session_id = ''s1'', ae_payload_json = ''{}''\<rparr>"

theorem publish_then_replay_witness:
  "\<exists>rest. map audit_row_proto (get_recent_audit_events id None [] 100
     (fst (snd (publish_event demo_libs ''2027'' demo_event_proto (demo_audit_db 1))))) = demo_event_proto # rest"
proof -
  have "\<exists>rest. map audit_row_proto (get_recent_audit_events id None [] 100
      (fst (snd (publish_event demo_libs ''2027'' demo_event_proto (demo_audit_db 1))))) = demo_event_proto\<lparr>ae_occurred_at := None\<rparr> # rest"
    by (rule publish_then_replay)
      (simp_all add: publish_event_def store_audit_event_def demo_event_proto_def demo_audit_db_def demo_audit_row_def
        nat_str.simps digit_char_def char_of_conv less_char_def)
  then show ?thesis by (simp add: demo_event_proto_def)
qed

end
