(* ===== verification/Audit_Trail.thy ===== *)
theory Audit_Trail
  imports Query_Http Service_Start Central_Audit
begin

text \<open>
  From elan-query to the audit table: the events of a request, published through the sink of the process
  (\<open>AppState.audit\<close>) to the handler of elan-central. The text of a payload is a parameter, as in the sinks; so
  is the clock of elan-central, one value for each publication.
\<close>

section \<open>Delivery\<close>

text \<open>What one publication does at elan-central: the stored row and the broadcast message, if any.\<close>

definition deliver_event ::
  "libs \<Rightarrow> (audit_payload \<Rightarrow> (string, string) result) \<Rightarrow> app_sink \<Rightarrow> string \<Rightarrow> audit_event \<Rightarrow> iam_db \<Rightarrow>
   iam_db \<times> audit_event_proto list" where
  "deliver_event L ptext sink now e db =
     (case sink of
        NoOpSink \<Rightarrow> (db, [])
      | CentralSink _ \<Rightarrow>
          (case ptext (ev_payload e) of
             Inl _ \<Rightarrow> (db, [])
           | Inr payload \<Rightarrow> snd (publish_event L now (central_proto L e payload) db)))"

fun deliver_all ::
  "libs \<Rightarrow> (audit_payload \<Rightarrow> (string, string) result) \<Rightarrow> app_sink \<Rightarrow> (string \<times> audit_event) list \<Rightarrow> iam_db \<Rightarrow>
   iam_db \<times> audit_event_proto list" where
  "deliver_all L ptext sink [] db = (db, [])"
| "deliver_all L ptext sink ((now, e) # rest) db =
     (let (db1, sent) = deliver_event L ptext sink now e db;
          (db2, sents) = deliver_all L ptext sink rest db1
      in (db2, sent @ sents))"

text \<open>
  The answer the sink sees is that of elan-central's handler: with a transport that calls the handler on the
  current database, publishing fails exactly when the row is not stored.
\<close>

definition central_transport :: "libs \<Rightarrow> (audit_payload \<Rightarrow> (string, string) result) \<Rightarrow> string \<Rightarrow> iam_db \<Rightarrow> transports" where
  "central_transport L ptext now db =
     \<lparr>payload_json = ptext, event_json = (\<lambda>e. ptext (ev_payload e)),
      central_publish = (\<lambda>m. case fst (publish_event L now m db) of Inl st \<Rightarrow> Some (status_text L st) | Inr _ \<Rightarrow> None),
      kafka_send = (\<lambda>t k p. None)\<rparr>"

lemma publish_event_result:
  "publish_event L now m db =
     (if ae_event_id m \<in> au_id ` set (audit_events db)
      then (Err (status_internal (store_error_text L (SqlError (UniqueViolation ''audit_events.id'')))), db, [])
      else (Ok True,
            db\<lparr>audit_events := audit_events db @
              [\<lparr>au_id = ae_event_id m, au_event_type = ae_event_type m, au_occurred_at = now,
                au_source_service = ae_source_service m, au_user_id = ae_user_id m,
                au_session_id = (if ae_session_id m = [] then None else Some (ae_session_id m)),
                au_payload_json = ae_payload_json m\<rparr>]\<rparr>, [m]))"
proof -
  have "sql_exists (\<lambda>a. au_id a = ae_event_id m) (audit_events db) \<longleftrightarrow> ae_event_id m \<in> au_id ` set (audit_events db)"
    by (auto simp: image_iff dest: sym)
  then show ?thesis unfolding publish_event_def store_audit_event_def Let_def by simp
qed

lemma deliver_event_answer:
  "(app_publish L (central_transport L ptext now db) (CentralSink ep) e = Ok ()) \<longleftrightarrow>
     snd (deliver_event L ptext (CentralSink ep) now e db) \<noteq> []"
  by (auto simp: app_publish_def central_sink_publish_def central_transport_def deliver_event_def publish_event_result
      split: sum.splits)

lemma deliver_noop: "deliver_all L ptext NoOpSink items db = (db, [])"
  by (induction items arbitrary: db) (auto simp: deliver_event_def)

section \<open>Properties of the trail\<close>

text \<open>
  C16. Every query that gets a session is recorded: with a connected sink, fresh event identifiers and payloads that
  serialize, the audit table grows by exactly two rows, its submission and then its completion or failure as the
  response is, both with the caller's identity and the same session, and both are broadcast to the subscribers in that order.
\<close>

theorem query_audit_stored:
  assumes "build (extract_subject to_str auth) = Ok ctx"
    and "handle_query L A run_sql inst R build to_str auth body = (resp, events)"
    and "uuid_text L (fst (rq_event_ids R)) \<noteq> uuid_text L (snd (rq_event_ids R))"
    and "{uuid_text L (fst (rq_event_ids R)), uuid_text L (snd (rq_event_ids R))} \<inter> au_id ` set (audit_events db) = {}"
    and "\<And>p. \<exists>s. ptext p = Ok s"
    and "deliver_all L ptext (CentralSink ep) (zip [now1, now2] events) db = (db', sent)"
  shows "\<exists>a b. audit_events db' = audit_events db @ [a, b] \<and>
    au_event_type a = ''QuerySubmitted'' \<and>
    au_event_type b = (case resp of Inr _ \<Rightarrow> ''QueryCompleted'' | Inl _ \<Rightarrow> ''QueryFailed'') \<and>
    au_user_id a = user_id (extract_subject to_str auth) \<and> au_user_id b = au_user_id a \<and>
    au_session_id b = au_session_id a \<and> map ae_event_id sent = [au_id a, au_id b]"
proof -
  have "\<exists>e1 e2. events = [e1, e2] \<and> event_type e1 = ''QuerySubmitted'' \<and>
      event_type e2 = (case resp of Inr _ \<Rightarrow> ''QueryCompleted'' | Inl _ \<Rightarrow> ''QueryFailed'') \<and>
      ev_subject e2 = ev_subject e1 \<and> as_user_id (ev_subject e1) = user_id (extract_subject to_str auth) \<and>
      ev_event_id e1 = fst (rq_event_ids R) \<and> ev_event_id e2 = snd (rq_event_ids R)"
  proof (cases "run_sql ctx (qr_sql body)")
    case (Inl e)
    with assms(1,2) show ?thesis by (auto simp: handle_query_def Let_def audit_event_new_def event_type_def)
  next
    case (Inr batches)
    obtain r where "batches_to_response A (rq_query_id R) batches (rq_duration_ms R) = Ok r"
      using batches_to_response_Ok by blast
    with Inr assms(1,2) show ?thesis by (auto simp: handle_query_def Let_def audit_event_new_def event_type_def)
  qed
  then obtain e1 e2 where events: "events = [e1, e2]"
    and types: "event_type e1 = ''QuerySubmitted''"
      "event_type e2 = (case resp of Inr _ \<Rightarrow> ''QueryCompleted'' | Inl _ \<Rightarrow> ''QueryFailed'')"
    and subj: "ev_subject e2 = ev_subject e1" "as_user_id (ev_subject e1) = user_id (extract_subject to_str auth)"
    and ids: "ev_event_id e1 = fst (rq_event_ids R)" "ev_event_id e2 = snd (rq_event_ids R)" by blast
  obtain s1 s2 where s: "ptext (ev_payload e1) = Ok s1" "ptext (ev_payload e2) = Ok s2" using assms(5) by meson
  show ?thesis
    using assms(3,4,6) subj types
    by (auto simp: events s deliver_event_def publish_event_result central_proto_def ids Let_def)
qed

abbreviation demo_answer :: "(http_error, query_response) result \<times> audit_event list" where
  "demo_answer \<equiv> handle_query demo_libs demo_arrow (\<lambda>ctx sql. Err (PlanError ''no table'')) ''q1'' demo_request_env
     (\<lambda>subj. Ok (build_for_user demo_libs (\<lambda>_. Ok []) demo_factory subj :: unit session_context)) demo_to_str
     (Some ''Bearer alice'') \<lparr>qr_sql = ''SELECT 1'', qr_session_id = None\<rparr>"

lemma demo_answer_error: "\<exists>e. fst demo_answer = Err e"
  by (simp add: handle_query_def Let_def)

theorem query_audit_stored_witness:
  "\<exists>a b. audit_events (fst (deliver_all demo_libs (\<lambda>p. Ok ''{}'') (CentralSink ''c'')
      (zip [''t1'', ''t2''] (snd demo_answer)) seeded_iam_db)) = [a, b] \<and>
     au_event_type a = ''QuerySubmitted'' \<and> au_event_type b = ''QueryFailed'' \<and> au_user_id a = user_id (extract_subject demo_to_str (Some ''Bearer alice''))"
proof -
  obtain resp events where h: "demo_answer = (resp, events)" by fastforce
  obtain db' sent where d: "deliver_all demo_libs (\<lambda>p. Ok ''{}'') (CentralSink ''c'') (zip [''t1'', ''t2''] events) seeded_iam_db =
      (db', sent)" by fastforce
  have ids: "uuid_text demo_libs (fst (rq_event_ids demo_request_env)) = ''3''" "uuid_text demo_libs (snd (rq_event_ids demo_request_env)) = ''4''"
    by (simp_all add: demo_libs_def demo_request_env_def nat_str.simps digit_char_def char_of_conv)
  have "audit_events seeded_iam_db = []" by (simp add: seeded_iam_db_def)
  with query_audit_stored [OF _ h _ _ _ d] ids obtain a b where "audit_events db' = [a, b]"
    "au_event_type a = ''QuerySubmitted''" "au_event_type b = (case resp of Inr _ \<Rightarrow> ''QueryCompleted'' | Inl _ \<Rightarrow> ''QueryFailed'')"
    "au_user_id a = user_id (extract_subject demo_to_str (Some ''Bearer alice''))" by auto
  moreover obtain e where "resp = Err e" using demo_answer_error h by auto
  ultimately show ?thesis using d h by auto
qed

end
