(* ===== verification/Tui.thy ===== *)
theory Tui
  imports Audit_Event Service_Config
begin

text \<open>
  elan-tui: the application state and what its panes show (\<open>app.rs\<close>), the event loop and the key
  handler (\<open>main.rs\<close>), and the HTTP client (\<open>client/query.rs\<close>). The text editor widget is foreign: its
  operations are the record \<open>editor_ops\<close>. A task that a handler spawns is an effect in its result; the
  event it sends back arrives later in the event list. \<open>None\<close> is a panic on overflow.
\<close>

section \<open>State\<close>

datatype pane = EditorPane | ResultsPane | AuditPane | CatalogPane

record 'e app =
  ap_active_pane :: pane
  ap_editor :: 'e
  ap_results :: "query_response option"
  ap_results_scroll :: u16
  ap_audit_log :: "string list"
  ap_audit_scroll :: u16
  ap_catalog :: "catalog_response option"
  ap_status_message :: string
  ap_session_id :: string
  ap_username :: string
  ap_is_loading :: bool

datatype modifiers = ModNone | ModControl | ModOther
datatype key_code = Char char | Tab | Enter | F nat | Up | Down | OtherKey string

record key_event =
  k_modifiers :: modifiers
  k_code :: key_code

record 'e editor_ops =
  ed_new :: 'e
  ed_lines :: "'e \<Rightarrow> string list"
  ed_input :: "'e \<Rightarrow> key_event \<Rightarrow> 'e"

definition app_new :: "'e editor_ops \<Rightarrow> string \<Rightarrow> string \<Rightarrow> 'e app" where
  "app_new E session_id username =
     \<lparr>ap_active_pane = EditorPane, ap_editor = ed_new E, ap_results = None, ap_results_scroll = 0, ap_audit_log = [],
      ap_audit_scroll = 0, ap_catalog = None, ap_status_message = ''Ready'', ap_session_id = session_id,
      ap_username = username, ap_is_loading = False\<rparr>"

definition next_pane :: "'e app \<Rightarrow> 'e app" where
  "next_pane a =
     a\<lparr>ap_active_pane :=
         (case ap_active_pane a of
            EditorPane \<Rightarrow> ResultsPane
          | ResultsPane \<Rightarrow> AuditPane
          | AuditPane \<Rightarrow> CatalogPane
          | CatalogPane \<Rightarrow> EditorPane)\<rparr>"

definition push_audit :: "string \<Rightarrow> 'e app \<Rightarrow> 'e app" where
  "push_audit msg a =
     (let log = ap_audit_log a @ [msg]
      in a\<lparr>ap_audit_log := (if length log > 500 then tl log else log)\<rparr>)"

section \<open>Views\<close>

definition results_title :: "'e app \<Rightarrow> string" where
  "results_title a =
     (if ap_is_loading a then '' Results [loading...] ''
      else case ap_results a of
             Some r \<Rightarrow> '' Results ['' @ nat_str (length (qp_rows r)) @ '' rows] ''
           | None \<Rightarrow> '' Results '')"

definition cell_text :: "libs \<Rightarrow> json \<Rightarrow> string" where
  "cell_text L v = (case v of JNull \<Rightarrow> ''NULL'' | JString s \<Rightarrow> s | other \<Rightarrow> json_text L other)"

definition results_rows :: "libs \<Rightarrow> 'e app \<Rightarrow> query_response \<Rightarrow> string list list" where
  "results_rows L a resp = map (map (cell_text L)) (drop (unat (ap_results_scroll a)) (qp_rows resp))"

definition audit_items :: "nat \<Rightarrow> 'e app \<Rightarrow> string list" where
  "audit_items height a = take height (drop (unat (ap_audit_scroll a)) (rev (ap_audit_log a)))"

definition catalog_items :: "'e app \<Rightarrow> string list" where
  "catalog_items a =
     (case ap_catalog a of
        Some catalog \<Rightarrow>
          concat (map (\<lambda>ns. ([CHR 0xE2, CHR 0x96, CHR 0xBE] @ '' '' @ ni_name ns) #
              map (\<lambda>ds. ''  '' @ [CHR 0xE2, CHR 0x94, CHR 0x94] @ '' '' @ sm_name ds @ '' ('' @ sm_source_type ds @ '')'')
                (ni_datasets ns)) (cr_namespaces catalog))
      | None \<Rightarrow> [''(not loaded '' @ [CHR 0xE2, CHR 0x80, CHR 0x94] @ '' press Ctrl+R)''])"

section \<open>Keys\<close>

text \<open>\<open>str::trim\<close> leaves nothing: every character is Unicode white space, here on UTF-8 bytes.\<close>

fun all_whitespace :: "nat list \<Rightarrow> bool" where
  "all_whitespace [] = True"
| "all_whitespace (a # s) =
     (if (9 \<le> a \<and> a \<le> 13) \<or> a = 32 then all_whitespace s
      else case s of
        [] \<Rightarrow> False
      | b # s1 \<Rightarrow>
          if a = 194 \<and> (b = 133 \<or> b = 160) then all_whitespace s1
          else case s1 of
            [] \<Rightarrow> False
          | c # s2 \<Rightarrow>
              ((a = 225 \<and> b = 154 \<and> c = 128)
               \<or> (a = 226 \<and> b = 128 \<and> ((128 \<le> c \<and> c \<le> 138) \<or> c = 168 \<or> c = 169 \<or> c = 175))
               \<or> (a = 226 \<and> b = 129 \<and> c = 159)
               \<or> (a = 227 \<and> b = 128 \<and> c = 128)) \<and> all_whitespace s2)"

definition trim_is_empty :: "string \<Rightarrow> bool" where
  "trim_is_empty s = all_whitespace (map of_char s)"

datatype effect = SpawnCatalog | SpawnQuery string string

definition execute_query :: "'e editor_ops \<Rightarrow> 'e app \<Rightarrow> 'e app \<times> effect list" where
  "execute_query E a =
     (let sql = str_join [CHR 0x0A] (ed_lines E (ap_editor a))
      in if trim_is_empty sql then (a\<lparr>ap_status_message := ''No SQL to execute''\<rparr>, [])
         else (a\<lparr>ap_is_loading := True, ap_status_message := ''Executing...'', ap_results_scroll := 0,
                 ap_active_pane := ResultsPane\<rparr>,
               [SpawnQuery sql (ap_session_id a)]))"

definition scroll_key :: "bool \<Rightarrow> key_code \<Rightarrow> u16 \<Rightarrow> u16 option" where
  "scroll_key checks code scroll =
     (case code of
        Up \<Rightarrow> Some (saturating_sub scroll 1)
      | Down \<Rightarrow> add_checked checks scroll 1
      | _ \<Rightarrow> Some scroll)"

text \<open>The result: whether to quit, the new state and the spawned tasks.\<close>

definition handle_key :: "bool \<Rightarrow> 'e editor_ops \<Rightarrow> key_event \<Rightarrow> 'e app \<Rightarrow> (bool \<times> 'e app \<times> effect list) option" where
  "handle_key checks E key a =
     (let m = k_modifiers key; code = k_code key
      in if m = ModControl \<and> code = Char (CHR ''c'') then Some (True, a, [])
         else if m = ModNone \<and> code = Tab then Some (False, next_pane a, [])
         else if m = ModControl \<and> code = Char (CHR ''r'')
         then Some (False, a\<lparr>ap_status_message := ''Refreshing catalog...''\<rparr>, [SpawnCatalog])
         else if (m = ModNone \<and> code = F 5) \<or> (m = ModControl \<and> code = Enter)
         then (let (a', effs) = execute_query E a in Some (False, a', effs))
         else if m = ModControl \<and> code = Char (CHR ''l'') \<and> ap_active_pane a = EditorPane
         then Some (False, a\<lparr>ap_editor := ed_new E\<rparr>, [])
         else case ap_active_pane a of
                ResultsPane \<Rightarrow> map_option (\<lambda>s. (False, a\<lparr>ap_results_scroll := s\<rparr>, [])) (scroll_key checks code (ap_results_scroll a))
              | AuditPane \<Rightarrow> map_option (\<lambda>s. (False, a\<lparr>ap_audit_scroll := s\<rparr>, [])) (scroll_key checks code (ap_audit_scroll a))
              | EditorPane \<Rightarrow> Some (False, a\<lparr>ap_editor := ed_input E (ap_editor a) key\<rparr>, [])
              | CatalogPane \<Rightarrow> Some (False, a, []))"

section \<open>The event loop\<close>

datatype app_event =
    Key key_event
  | AuditMessage string
  | QueryResult "(string, query_response) result"
  | CatalogLoaded catalog_response

definition query_done :: "(string, query_response) result \<Rightarrow> 'e app \<Rightarrow> 'e app" where
  "query_done result a =
     (let a1 = a\<lparr>ap_is_loading := False\<rparr>
      in case result of
           Inr resp \<Rightarrow>
             a1\<lparr>ap_status_message := ''Done: '' @ nat_str (length (qp_rows resp)) @ '' rows in '' @
                  nat_str (unat (qp_duration_ms resp)) @ ''ms'',
                ap_results := Some resp\<rparr>
         | Inl e \<Rightarrow> a1\<lparr>ap_status_message := ''Error: '' @ e\<rparr>)"

definition catalog_loaded :: "catalog_response \<Rightarrow> 'e app \<Rightarrow> 'e app" where
  "catalog_loaded catalog a =
     a\<lparr>ap_catalog := Some catalog,
       ap_status_message := ''Catalog loaded: '' @ nat_str (length (cr_namespaces catalog)) @ '' namespace(s)''\<rparr>"

definition app_event_step ::
  "bool \<Rightarrow> 'e editor_ops \<Rightarrow> app_event \<Rightarrow> 'e app \<Rightarrow> (bool \<times> 'e app \<times> effect list) option" where
  "app_event_step checks E ev a =
     (case ev of
        Key key \<Rightarrow> handle_key checks E key a
      | AuditMessage msg \<Rightarrow> Some (False, push_audit msg a, [])
      | QueryResult result \<Rightarrow> Some (False, query_done result a, [])
      | CatalogLoaded catalog \<Rightarrow> Some (False, catalog_loaded catalog a, []))"

text \<open>The loop over the received events: it ends at a quit, and panics where a step does.\<close>

fun event_loop :: "bool \<Rightarrow> 'e editor_ops \<Rightarrow> app_event list \<Rightarrow> 'e app \<Rightarrow> ('e app \<times> effect list) option" where
  "event_loop checks E [] a = Some (a, [])"
| "event_loop checks E (ev # evs) a =
     (case app_event_step checks E ev a of
        None \<Rightarrow> None
      | Some (quit, a', effs) \<Rightarrow>
          if quit then Some (a', effs)
          else map_option (\<lambda>(a'', effs'). (a'', effs @ effs')) (event_loop checks E evs a'))"

text \<open>The line the audit task makes of a streamed event.\<close>

definition audit_line :: "audit_event_proto \<Rightarrow> string" where
  "audit_line ev =
     ''['' @ (case ae_occurred_at ev of Some _ \<Rightarrow> ''now'' | None \<Rightarrow> ''?'') @ ''] '' @ ae_event_type ev @ '' '' @ ae_user_id ev"

section \<open>The HTTP client\<close>

record tui_request =
  tr_url :: string
  tr_authorization :: string
  tr_body :: "query_request option"

definition client_query :: "string \<Rightarrow> string \<Rightarrow> string \<Rightarrow> string \<Rightarrow> tui_request" where
  "client_query base_url username sql session_id =
     \<lparr>tr_url = base_url @ ''/api/v1/query'', tr_authorization = ''Bearer '' @ username,
      tr_body = Some \<lparr>qr_sql = sql, qr_session_id = Some session_id\<rparr>\<rparr>"

definition client_catalog :: "string \<Rightarrow> string \<Rightarrow> tui_request" where
  "client_catalog base_url username =
     \<lparr>tr_url = base_url @ ''/api/v1/catalog'', tr_authorization = ''Bearer '' @ username, tr_body = None\<rparr>"

text \<open>
  What the client makes of an answer: the JSON body of a success, or an error with the status and the
  body. \<open>from_json\<close> is the derived decoding, \<open>status_text\<close> the text of the status; a body that is no JSON
  becomes \<open>null\<close>, one that is no text the empty string.
\<close>

record http_answer =
  ha_success :: bool
  ha_status_text :: string
  ha_body :: "string option"

definition client_query_result ::
  "libs \<Rightarrow> (json \<Rightarrow> (string, query_response) result) \<Rightarrow> string \<Rightarrow> (string, http_answer) result \<Rightarrow> (string, query_response) result" where
  "client_query_result L from_json bad_body answer =
     and_then answer (\<lambda>resp.
       let value = Option.bind (ha_body resp) (json_parse L)
       in if ha_success resp then (case value of None \<Rightarrow> Err bad_body | Some v \<Rightarrow> from_json v)
          else Err (''query failed ('' @ ha_status_text resp @ ''): '' @
                    json_text L (case value of None \<Rightarrow> JNull | Some v \<Rightarrow> v)))"

definition client_catalog_result ::
  "libs \<Rightarrow> (json \<Rightarrow> (string, catalog_response) result) \<Rightarrow> string \<Rightarrow> (string, http_answer) result \<Rightarrow> (string, catalog_response) result" where
  "client_catalog_result L from_json bad_body answer =
     and_then answer (\<lambda>resp.
       if ha_success resp
       then (case Option.bind (ha_body resp) (json_parse L) of None \<Rightarrow> Err bad_body | Some v \<Rightarrow> from_json v)
       else Err (''catalog request failed ('' @ ha_status_text resp @ ''): '' @
                 (case ha_body resp of None \<Rightarrow> [] | Some b \<Rightarrow> b)))"

section \<open>The tasks\<close>

text \<open>
  The event each spawned task sends when it ends. The catalog is loaded at startup and on Ctrl+R, with
  different words for a failure.
\<close>

definition catalog_task :: "string \<Rightarrow> (string, catalog_response) result \<Rightarrow> app_event" where
  "catalog_task what result =
     (case result of
        Inr catalog \<Rightarrow> CatalogLoaded catalog
      | Inl e \<Rightarrow> AuditMessage (what @ '': '' @ e))"

definition query_task :: "(string, query_response) result \<Rightarrow> app_event" where
  "query_task result = QueryResult result"

text \<open>The audit task: the messages of a stream up to its first error, or the failure to get one.\<close>

fun audit_messages :: "(status, audit_event_proto) result list \<Rightarrow> app_event list" where
  "audit_messages [] = []"
| "audit_messages (Inr event # rest) = AuditMessage (audit_line event) # audit_messages rest"
| "audit_messages (Inl e # rest) = []"

definition audit_task ::
  "(string, (string, (status, audit_event_proto) result list) result) result \<Rightarrow> app_event list" where
  "audit_task connected =
     (case connected of
        Inl e \<Rightarrow> [AuditMessage (''could not connect to central: '' @ e)]
      | Inr (Inl e) \<Rightarrow> [AuditMessage (''audit stream error: '' @ e)]
      | Inr (Inr stream) \<Rightarrow> audit_messages stream)"

text \<open>
  The whole program: the loop, the tasks under way and the channel between them, which holds at most 128
  events. A task ends, a key arrives, the audit task has a message, or the loop takes the first
  event; they interleave in any order.
\<close>

record 'e tui_system =
  ts_app :: "'e app"
  ts_tasks :: "effect list"
  ts_queue :: "app_event list"

definition tui_start :: "'e editor_ops \<Rightarrow> string \<Rightarrow> string \<Rightarrow> 'e tui_system" where
  "tui_start E session_id username =
     \<lparr>ts_app = app_new E session_id username, ts_tasks = [SpawnCatalog], ts_queue = []\<rparr>"

inductive tui_step :: "bool \<Rightarrow> 'e editor_ops \<Rightarrow> 'e tui_system \<Rightarrow> 'e tui_system \<Rightarrow> bool"
  for checks :: bool and E :: "'e editor_ops" where
  deliver:
    "ts_queue s = ev # q \<Longrightarrow> app_event_step checks E ev (ts_app s) = Some (False, a, effs) \<Longrightarrow>
     tui_step checks E s \<lparr>ts_app = a, ts_tasks = ts_tasks s @ effs, ts_queue = q\<rparr>"
| query_ends:
    "ts_tasks s = xs @ SpawnQuery sql session # ys \<Longrightarrow> length (ts_queue s) < 128 \<Longrightarrow>
     tui_step checks E s (s\<lparr>ts_tasks := xs @ ys, ts_queue := ts_queue s @ [query_task result]\<rparr>)"
| catalog_ends:
    "ts_tasks s = xs @ SpawnCatalog # ys \<Longrightarrow> length (ts_queue s) < 128 \<Longrightarrow>
     tui_step checks E s (s\<lparr>ts_tasks := xs @ ys, ts_queue := ts_queue s @ [catalog_task what catalog]\<rparr>)"
| key_arrives:
    "length (ts_queue s) < 128 \<Longrightarrow> tui_step checks E s (s\<lparr>ts_queue := ts_queue s @ [Key key]\<rparr>)"
| audit_arrives:
    "length (ts_queue s) < 128 \<Longrightarrow> tui_step checks E s (s\<lparr>ts_queue := ts_queue s @ [AuditMessage msg]\<rparr>)"

section \<open>Command line\<close>

definition tui_options :: "string list \<Rightarrow> string \<times> string option \<times> string" where
  "tui_options args =
     ((case arg_value ''--query-endpoint'' args of Some u \<Rightarrow> u | None \<Rightarrow> ''http://localhost:3000''),
      arg_value ''--central-endpoint'' args,
      (case arg_value ''--user'' args of Some u \<Rightarrow> u | None \<Rightarrow> ''alice''))"

section \<open>Lemmas\<close>

lemma next_pane_cycle: "(next_pane ^^ 4) a = a"
  by (cases "ap_active_pane a") (simp_all add: next_pane_def numeral_eq_Suc)

lemma push_audit_log:
  "length (ap_audit_log a) \<le> 500 \<Longrightarrow>
   ap_audit_log (push_audit msg a) = drop (length (ap_audit_log a) + 1 - 500) (ap_audit_log a @ [msg])"
  by (cases "ap_audit_log a"; cases "length (ap_audit_log a) = 500") (auto simp: push_audit_def Let_def)

definition tui_inv :: "'e app \<Rightarrow> bool" where
  "tui_inv a \<longleftrightarrow> length (ap_audit_log a) \<le> 500"

lemma app_event_step_inv:
  "tui_inv a \<Longrightarrow> app_event_step checks E ev a = Some (q, a', effs) \<Longrightarrow> tui_inv a'"
  by (cases ev)
    (auto simp: app_event_step_def tui_inv_def push_audit_def handle_key_def query_done_def catalog_loaded_def
      execute_query_def next_pane_def Let_def split: if_splits pane.splits sum.splits option.splits prod.splits)

lemma push_audits:
  assumes "length (ap_audit_log a) \<le> 500"
  shows "\<exists>a'. event_loop checks E (map AuditMessage msgs) a = Some (a', []) \<and>
    ap_audit_log a' = drop (length (ap_audit_log a) + length msgs - 500) (ap_audit_log a @ msgs) \<and>
    ap_audit_scroll a' = ap_audit_scroll a"
  using assms
proof (induction msgs arbitrary: a)
  case (Cons m msgs)
  let ?a = "push_audit m a"
  have log: "ap_audit_log ?a = drop (length (ap_audit_log a) + 1 - 500) (ap_audit_log a @ [m])"
    using Cons.prems by (rule push_audit_log)
  then have "length (ap_audit_log ?a) \<le> 500" using Cons.prems by simp
  from Cons.IH [OF this] obtain a' where a': "event_loop checks E (map AuditMessage msgs) ?a = Some (a', [])"
    "ap_audit_log a' = drop (length (ap_audit_log ?a) + length msgs - 500) (ap_audit_log ?a @ msgs)"
    "ap_audit_scroll a' = ap_audit_scroll ?a" by blast
  have "ap_audit_log a' = drop (length (ap_audit_log a) + length (m # msgs) - 500) (ap_audit_log a @ m # msgs)"
  proof (cases "length (ap_audit_log a) = 500")
    case True
    then obtain x xs where xs: "ap_audit_log a = x # xs" by (cases "ap_audit_log a") auto
    with True a'(2) log show ?thesis by simp
  next
    case False
    with Cons.prems a'(2) log show ?thesis by simp
  qed
  moreover have "ap_audit_scroll ?a = ap_audit_scroll a" by (simp add: push_audit_def Let_def)
  ultimately show ?case using a' by (simp add: app_event_step_def)
qed simp

lemma scroll_key_fits:
  assumes "unat s + 1 < 2 ^ 16"
  shows "\<exists>s'. scroll_key checks code s = Some s' \<and> unat s' \<le> unat s + 1"
proof (cases code)
  case Up
  have "unat (saturating_sub s 1) \<le> unat s"
    by (auto simp: saturating_sub_def unat_sub_if_size word_le_nat_alt word_less_nat_alt)
  then show ?thesis by (simp add: scroll_key_def Up)
next
  case Down
  have "unat (s + 1) = unat s + 1" using assms by (simp add: unat_word_ariths)
  then show ?thesis using assms by (simp add: scroll_key_def Down add_checked_fits)
qed (simp_all add: scroll_key_def)

definition scroll_bound :: "'e app \<Rightarrow> nat" where
  "scroll_bound a = max (unat (ap_results_scroll a)) (unat (ap_audit_scroll a))"

lemma handle_key_fits:
  fixes a :: "'e app"
  assumes "scroll_bound a + 1 < 2 ^ 16"
  shows "\<exists>q a' effs. handle_key checks E key a = Some (q, a', effs) \<and> scroll_bound a' \<le> scroll_bound a + 1"
proof -
  obtain r where r: "scroll_key checks (k_code key) (ap_results_scroll a) = Some r" "unat r \<le> unat (ap_results_scroll a) + 1"
    using scroll_key_fits [of "ap_results_scroll a"] assms unfolding scroll_bound_def by fastforce
  obtain u where u: "scroll_key checks (k_code key) (ap_audit_scroll a) = Some u" "unat u \<le> unat (ap_audit_scroll a) + 1"
    using scroll_key_fits [of "ap_audit_scroll a"] assms unfolding scroll_bound_def by fastforce
  define P :: "(bool \<times> 'e app \<times> effect list) option \<Rightarrow> bool" where "P res \<longleftrightarrow> (\<exists>q a' effs. res = Some (q, a', effs) \<and> scroll_bound a' \<le> scroll_bound a + 1)" for res
  have same: "P (Some (q, a', effs))" if "scroll_bound a' = scroll_bound a" for q a' effs
    using that by (simp add: P_def)
  have "P (let (a', effs) = execute_query E a in Some (False, a', effs))"
    by (auto simp: P_def execute_query_def scroll_bound_def Let_def)
  moreover have "P (map_option (\<lambda>s. (False, a\<lparr>ap_results_scroll := s\<rparr>, [])) (scroll_key checks (k_code key) (ap_results_scroll a)))"
    "P (map_option (\<lambda>s. (False, a\<lparr>ap_audit_scroll := s\<rparr>, [])) (scroll_key checks (k_code key) (ap_audit_scroll a)))"
    using r u by (auto simp: P_def scroll_bound_def)
  ultimately have "P (handle_key checks E key a)"
    unfolding handle_key_def by (simp add: same next_pane_def scroll_bound_def Let_def split: pane.split)
  then show ?thesis by (simp add: P_def)
qed

lemma event_step_fits:
  assumes "scroll_bound a + 1 < 2 ^ 16"
  shows "\<exists>q a' effs. app_event_step checks E ev a = Some (q, a', effs) \<and> scroll_bound a' \<le> scroll_bound a + 1"
proof (cases ev)
  case (Key key)
  with handle_key_fits [OF assms] show ?thesis by (simp add: app_event_step_def)
qed (auto simp: app_event_step_def push_audit_def query_done_def catalog_loaded_def scroll_bound_def Let_def split: sum.split)

lemma event_loop_fits:
  "scroll_bound a + length evs < 2 ^ 16 \<Longrightarrow> \<exists>r. event_loop checks E evs a = Some r"
proof (induction evs arbitrary: a)
  case (Cons ev evs)
  then have "scroll_bound a + 1 < 2 ^ 16" by simp
  from event_step_fits [OF this] obtain q a' effs where
    s: "app_event_step checks E ev a = Some (q, a', effs)" "scroll_bound a' \<le> scroll_bound a + 1" by blast
  with Cons.prems have "scroll_bound a' + length evs < 2 ^ 16" by simp
  from Cons.IH [OF this] s(1) show ?case by auto
qed simp

text \<open>The indicator: while it says loading, some query is under way or its answer waits in the channel.\<close>

definition is_query :: "effect \<Rightarrow> bool" where
  "is_query e = (case e of SpawnQuery _ _ \<Rightarrow> True | SpawnCatalog \<Rightarrow> False)"

definition is_query_result :: "app_event \<Rightarrow> bool" where
  "is_query_result ev = (case ev of QueryResult _ \<Rightarrow> True | _ \<Rightarrow> False)"

definition query_pending :: "'e tui_system \<Rightarrow> bool" where
  "query_pending s = ((\<exists>e \<in> set (ts_tasks s). is_query e) \<or> (\<exists>ev \<in> set (ts_queue s). is_query_result ev))"

definition system_inv :: "'e tui_system \<Rightarrow> bool" where
  "system_inv s \<longleftrightarrow> (ap_is_loading (ts_app s) \<longrightarrow> query_pending s) \<and> tui_inv (ts_app s) \<and> length (ts_queue s) \<le> 128"

lemma app_event_step_loading:
  "app_event_step checks E ev a = Some (q, a', effs) \<Longrightarrow> ap_is_loading a' \<Longrightarrow>
   (ap_is_loading a \<and> \<not> is_query_result ev) \<or> (\<exists>e \<in> set effs. is_query e)"
  by (cases ev)
    (auto simp: app_event_step_def push_audit_def handle_key_def query_done_def catalog_loaded_def is_query_result_def
      is_query_def execute_query_def next_pane_def Let_def split: if_splits pane.splits sum.splits option.splits prod.splits)

lemma tui_step_inv: "tui_step checks E s s' \<Longrightarrow> system_inv s \<Longrightarrow> system_inv s'"
proof (induction rule: tui_step.induct)
  case (deliver s ev q a effs)
  then show ?case
    using app_event_step_loading [OF deliver(2)] app_event_step_inv [OF _ deliver(2)]
    by (auto simp: system_inv_def query_pending_def)
qed (auto simp: system_inv_def query_pending_def is_query_result_def query_task_def is_query_def)

lemma tui_reachable_inv: "(tui_step checks E)\<^sup>*\<^sup>* s s' \<Longrightarrow> system_inv s \<Longrightarrow> system_inv s'"
  by (induction rule: rtranclp_induct) (auto intro: tui_step_inv)

section \<open>Properties of the terminal UI\<close>

text \<open>
  The audit pane shows the newest messages first, and the log never holds more than 500: after any
  stream of messages it is the last 500 of them.
\<close>

theorem audit_log_last_500:
  "\<exists>a'. event_loop checks E (map AuditMessage msgs) (app_new E session_id username) = Some (a', []) \<and>
    ap_audit_log a' = drop (length msgs - 500) msgs \<and> length (ap_audit_log a') = min 500 (length msgs) \<and>
    audit_items height a' = take (min height 500) (rev msgs)"
proof -
  obtain a' where a': "event_loop checks E (map AuditMessage msgs) (app_new E session_id username) = Some (a', [])"
    "ap_audit_log a' = drop (length msgs - 500) msgs" "ap_audit_scroll a' = 0"
    using push_audits [of "app_new E session_id username" checks E msgs] by (auto simp: app_new_def)
  moreover have "rev (drop (length msgs - 500) msgs) = take 500 (rev msgs)"
    by (cases "length msgs \<le> 500") (simp_all add: rev_drop)
  ultimately show ?thesis by (auto simp: audit_items_def min_def)
qed

text \<open>
  C40. The event loop cannot panic in its first 65535 events, whatever they are: it returns a state and
  its effects. One more scroll down at the bound panics with overflow checks and starts again at the
  top without them.
\<close>

theorem event_loop_returns:
  assumes "length evs < 2 ^ 16"
  shows "(\<exists>a' effs. event_loop checks E evs (app_new E session_id username) = Some (a', effs))
    \<and> scroll_key checks Down (- 1) = (if checks then None else Some 0)"
proof -
  have "scroll_bound (app_new E session_id username) = 0" by (simp add: scroll_bound_def app_new_def)
  then have "\<exists>r. event_loop checks E evs (app_new E session_id username) = Some r"
    using assms by (intro event_loop_fits) simp
  moreover have "scroll_key checks Down (65535 :: u16) = (if checks then None else Some 0)"
    by (simp add: scroll_key_def add_checked_def)
  moreover have "(- 1 :: u16) = 65535" by simp
  ultimately show ?thesis by (metis surj_pair)
qed

definition demo_editor :: "string list editor_ops" where
  "demo_editor = \<lparr>ed_new = [], ed_lines = id, ed_input = (\<lambda>ls k. ls)\<rparr>"

theorem event_loop_returns_witness:
  "\<exists>a' effs. event_loop True demo_editor [Key \<lparr>k_modifiers = ModNone, k_code = Tab\<rparr>, Key \<lparr>k_modifiers = ModNone, k_code = Down\<rparr>]
     (app_new demo_editor ''s'' ''alice'') = Some (a', effs)"
  using event_loop_returns [of "[Key \<lparr>k_modifiers = ModNone, k_code = Tab\<rparr>, Key \<lparr>k_modifiers = ModNone, k_code = Down\<rparr>]"
      True demo_editor "''s''" "''alice''"] by simp

text \<open>
  Running a query from the editor: with only white space nothing is sent; otherwise exactly one
  request goes out, for the text as typed and this session, the result pane has the focus at its top,
  and the answer ends the loading state with the rows shown from the first.
\<close>

theorem query_cycle:
  assumes "k_modifiers key = ModNone" "k_code key = F 5"
    and "sql = str_join [CHR 0x0A] (ed_lines E (ap_editor a))"
  shows "if trim_is_empty sql
    then handle_key checks E key a = Some (False, a\<lparr>ap_status_message := ''No SQL to execute''\<rparr>, [])
    else \<exists>a1. handle_key checks E key a = Some (False, a1, [SpawnQuery sql (ap_session_id a)]) \<and>
      ap_is_loading a1 \<and> ap_active_pane a1 = ResultsPane \<and>
      (let a2 = query_done (Ok resp) a1
       in \<not> ap_is_loading a2 \<and> ap_results a2 = Some resp \<and>
          results_rows L a2 resp = map (map (cell_text L)) (qp_rows resp))"
  using assms
  by (auto simp: handle_key_def execute_query_def query_done_def results_rows_def Let_def)

theorem query_cycle_witness:
  "\<exists>a1. handle_key True demo_editor \<lparr>k_modifiers = ModNone, k_code = F 5\<rparr>
      ((app_new demo_editor ''s'' ''alice'')\<lparr>ap_editor := [''SELECT'', ''1'']\<rparr>)
    = Some (False, a1, [SpawnQuery (''SELECT'' @ [CHR 0x0A] @ ''1'') ''s''])"
  using query_cycle [of "\<lparr>k_modifiers = ModNone, k_code = F 5\<rparr>" "''SELECT'' @ [CHR 0x0A] @ ''1''" demo_editor
      "(app_new demo_editor ''s'' ''alice'')\<lparr>ap_editor := [''SELECT'', ''1'']\<rparr>" True]
  by (auto simp: demo_editor_def app_new_def trim_is_empty_def)

text \<open>
  C39. However keys, audit messages and the ends of tasks interleave: while the UI says it is loading,
  a query is under way or its answer is waiting, so the indicator cannot hang; the log keeps its
  bound and so does the channel.
\<close>

theorem loading_has_query:
  assumes "(tui_step checks E)\<^sup>*\<^sup>* (tui_start E session_id username) s"
  shows "(ap_is_loading (ts_app s) \<longrightarrow> query_pending s) \<and> length (ap_audit_log (ts_app s)) \<le> 500
    \<and> length (ts_queue s) \<le> 128"
proof -
  have "system_inv (tui_start E session_id username)"
    by (simp add: system_inv_def tui_start_def app_new_def tui_inv_def)
  from tui_reachable_inv [OF assms this] show ?thesis by (simp add: system_inv_def tui_inv_def)
qed

text \<open>
  A run: the query in the editor is started twice, the first answer arrives, and the indicator is off
  while the second query is still under way. The indicator is not a count of queries.
\<close>

definition one_editor :: "unit editor_ops" where
  "one_editor = \<lparr>ed_new = (), ed_lines = (\<lambda>_. [''SELECT 1'']), ed_input = (\<lambda>e k. e)\<rparr>"

definition f5 :: app_event where
  "f5 = Key \<lparr>k_modifiers = ModNone, k_code = F 5\<rparr>"

definition query_app :: "bool \<Rightarrow> string \<Rightarrow> unit app" where
  "query_app loading msg = (app_new one_editor ''s'' ''alice'')
     \<lparr>ap_is_loading := loading, ap_status_message := msg, ap_active_pane := ResultsPane\<rparr>"

lemma f5_step:
  "a \<in> {app_new one_editor ''s'' ''alice'', query_app True ''Executing...''} \<Longrightarrow>
   app_event_step True one_editor f5 a = Some (False, query_app True ''Executing...'', [SpawnQuery ''SELECT 1'' ''s''])"
  by (auto simp: app_event_step_def f5_def handle_key_def execute_query_def one_editor_def trim_is_empty_def
      query_app_def app_new_def Let_def)

lemma two_queries_run:
  "(tui_step True one_editor)\<^sup>*\<^sup>* (tui_start one_editor ''s'' ''alice'')
     \<lparr>ts_app = query_app False ''Error: timeout'', ts_tasks = [SpawnCatalog, SpawnQuery ''SELECT 1'' ''s''], ts_queue = []\<rparr>"
proof -
  let ?sys = "\<lambda>a ts q. \<lparr>ts_app = a, ts_tasks = ts, ts_queue = q\<rparr>"
  let ?q = "SpawnQuery ''SELECT 1'' ''s''"
  let ?new = "app_new one_editor ''s'' ''alice''"
  let ?step = "tui_step True one_editor"
  have key: "?step (?sys a ts []) (?sys a ts [f5])" for a ts
    using key_arrives [of "?sys a ts []" True one_editor "\<lparr>k_modifiers = ModNone, k_code = F 5\<rparr>"] by (simp add: f5_def)
  have run: "?step (?sys a ts [f5]) (?sys (query_app True ''Executing...'') (ts @ [?q]) [])"
    if "a \<in> {?new, query_app True ''Executing...''}" for a ts
    using deliver [of "?sys a ts [f5]" f5 "[]" True one_editor] f5_step [OF that] by simp
  have ends: "?step (?sys (query_app True ''Executing...'') [SpawnCatalog, ?q, ?q] [])
      (?sys (query_app True ''Executing...'') [SpawnCatalog, ?q] [QueryResult (Inl ''timeout'')])"
    using query_ends [of "?sys (query_app True ''Executing...'') [SpawnCatalog, ?q, ?q] []" "[SpawnCatalog]"
        "''SELECT 1''" "''s''" "[?q]" True one_editor "Inl ''timeout''"] by (simp add: query_task_def)
  have shown: "?step (?sys (query_app True ''Executing...'') [SpawnCatalog, ?q] [QueryResult (Inl ''timeout'')])
      (?sys (query_app False ''Error: timeout'') [SpawnCatalog, ?q] [])"
    using deliver [of "?sys (query_app True ''Executing...'') [SpawnCatalog, ?q] [QueryResult (Inl ''timeout'')]"
        "QueryResult (Inl ''timeout'')" "[]" True one_editor "query_app False ''Error: timeout''" "[]"]
    by (simp add: app_event_step_def query_done_def query_app_def)
  note r1 = converse_rtranclp_into_rtranclp [of ?step]
  have "?step\<^sup>*\<^sup>* (?sys ?new [SpawnCatalog] []) (?sys (query_app False ''Error: timeout'') [SpawnCatalog, ?q] [])"
    by (rule r1 [OF key], rule r1 [OF run], simp, rule r1 [OF key], rule r1 [OF run], simp, simp,
        rule r1 [OF ends], rule r1 [OF shown], rule rtranclp.rtrancl_refl)
  then show ?thesis by (simp add: tui_start_def)
qed

theorem loading_has_query_witness:
  "length (ap_audit_log (query_app False ''Error: timeout'')) \<le> 500 \<and>
   query_pending \<lparr>ts_app = query_app False ''Error: timeout'', ts_tasks = [SpawnCatalog, SpawnQuery ''SELECT 1'' ''s''], ts_queue = []\<rparr>"
  using loading_has_query [OF two_queries_run] by (simp add: query_pending_def is_query_def)

end
