(* ===== verification/Audit_Stream.thy ===== *)
theory Audit_Stream
  imports Central_Audit
begin

text \<open>
  The audit stream of elan-central with its concurrency (\<open>grpc/audit_svc.rs\<close>): \<open>publish_event\<close> stores an
  event and broadcasts it in two steps, and a subscriber's handler reads the stored events, sends them,
  subscribes to the broadcast, and forwards what it receives. These steps interleave freely with the steps of
  other publishers; the step relation follows one
  subscriber, whose client stays connected. The bounded channel is the parameter \<open>send\<close>
  of \<^verbatim>\<open>Central_Audit\<close>; tokio's broadcast channel is \<open>recv\<close>, which maps what was sent so far and the
  receiver's position to what it receives and its next position, or to \<open>None\<close> when it waits.
  \<open>broadcast_channel\<close> is the documented behaviour: a receiver that is more than the capacity behind gets
  \<open>Lagged\<close> and goes on with the oldest message that is kept.
\<close>

type_synonym recv_fn = "audit_event_proto list \<Rightarrow> nat \<Rightarrow> (broadcast_recv \<times> nat) option"

definition broadcast_channel :: "nat \<Rightarrow> recv_fn \<Rightarrow> bool" where
  "broadcast_channel capacity recv \<longleftrightarrow>
     (\<forall>log pos. pos \<le> length log \<longrightarrow>
        recv log pos =
          (if pos = length log then None
           else if pos + capacity < length log then Some (Lagged (length log - capacity - pos), length log - capacity)
           else Some (Received (log ! pos), Suc pos)))"

section \<open>The step relation\<close>

datatype stream_phase =
    Idle | Replaying "audit_event_proto list" | Live nat | Forwarding audit_event_proto nat

text \<open>
  \<open>ah_unsent\<close> are the events that are stored and not yet broadcast, \<open>ah_log\<close> what was broadcast, \<open>ah_queue\<close>
  the subscriber's channel. The last four fields record what the client read, what the replay
  was, where in the log the subscription began and whether the receiver lagged.
\<close>

record audit_hub =
  ah_db :: iam_db
  ah_unsent :: "audit_event_proto list"
  ah_log :: "audit_event_proto list"
  ah_phase :: stream_phase
  ah_queue :: "audit_event_proto list"
  ah_delivered :: "audit_event_proto list"
  ah_replay :: "audit_event_proto list"
  ah_start :: nat
  ah_lagged :: bool

definition hub_start :: "iam_db \<Rightarrow> audit_hub" where
  "hub_start db =
     \<lparr>ah_db = db, ah_unsent = [], ah_log = [], ah_phase = Idle, ah_queue = [], ah_delivered = [], ah_replay = [],
      ah_start = 0, ah_lagged = False\<rparr>"

definition type_wanted :: "string list \<Rightarrow> audit_event_proto \<Rightarrow> bool" where
  "type_wanted types e \<longleftrightarrow> types = [] \<or> ae_event_type e \<in> set types"

definition replay_items :: "(audit_row list \<Rightarrow> audit_row list) \<Rightarrow> string option \<Rightarrow> string list \<Rightarrow> iam_db \<Rightarrow> audit_event_proto list" where
  "replay_items scan since types db = map audit_row_proto (get_recent_audit_events scan since types 100 db)"

text \<open>The client holds the stream only after the handler has returned, which is after the subscription.\<close>

inductive audit_step ::
  "libs \<Rightarrow> audit_event_proto send_fn \<Rightarrow> recv_fn \<Rightarrow> (audit_row list \<Rightarrow> audit_row list) \<Rightarrow> string option \<Rightarrow> string list \<Rightarrow>
   audit_hub \<Rightarrow> audit_hub \<Rightarrow> bool" for L send recv scan since types where
  store: "publish_event L now e (ah_db s) = (r, db', sent) \<Longrightarrow>
    audit_step L send recv scan since types s (s\<lparr>ah_db := db', ah_unsent := ah_unsent s @ sent\<rparr>)"
| broadcast: "ah_unsent s = xs @ e # ys \<Longrightarrow>
    audit_step L send recv scan since types s (s\<lparr>ah_unsent := xs @ ys, ah_log := ah_log s @ [e]\<rparr>)"
| connect: "ah_phase s = Idle \<Longrightarrow> items = replay_items scan since types (ah_db s) \<Longrightarrow>
    audit_step L send recv scan since types s (s\<lparr>ah_phase := Replaying items, ah_replay := items\<rparr>)"
| replay: "ah_phase s = Replaying (x # xs) \<Longrightarrow> send (ah_queue s) x = Some q \<Longrightarrow>
    audit_step L send recv scan since types s (s\<lparr>ah_phase := Replaying xs, ah_queue := q\<rparr>)"
| subscribe: "ah_phase s = Replaying [] \<Longrightarrow>
    audit_step L send recv scan since types s (s\<lparr>ah_phase := Live (length (ah_log s)), ah_start := length (ah_log s)\<rparr>)"
| receive: "ah_phase s = Live pos \<Longrightarrow> recv (ah_log s) pos = Some (Received e, pos') \<Longrightarrow> type_wanted types e \<Longrightarrow>
    audit_step L send recv scan since types s (s\<lparr>ah_phase := Forwarding e pos'\<rparr>)"
| pass_over: "ah_phase s = Live pos \<Longrightarrow> recv (ah_log s) pos = Some (Received e, pos') \<Longrightarrow> \<not> type_wanted types e \<Longrightarrow>
    audit_step L send recv scan since types s (s\<lparr>ah_phase := Live pos'\<rparr>)"
| lag: "ah_phase s = Live pos \<Longrightarrow> recv (ah_log s) pos = Some (Lagged n, pos') \<Longrightarrow>
    audit_step L send recv scan since types s (s\<lparr>ah_phase := Live pos', ah_lagged := True\<rparr>)"
| forward: "ah_phase s = Forwarding e pos \<Longrightarrow> send (ah_queue s) e = Some q \<Longrightarrow>
    audit_step L send recv scan since types s (s\<lparr>ah_phase := Live pos, ah_queue := q\<rparr>)"
| deliver: "ah_phase s = Live pos \<or> ah_phase s = Forwarding e pos \<Longrightarrow> ah_queue s = x # q \<Longrightarrow>
    audit_step L send recv scan since types s (s\<lparr>ah_queue := q, ah_delivered := ah_delivered s @ [x]\<rparr>)"

section \<open>The invariant\<close>

text \<open>
  Beyond the replay, the client gets a subsequence of the wanted events between the subscription and the
  receiver's position, and all of them as long as the receiver never lagged.
\<close>

definition live_window :: "string list \<Rightarrow> audit_hub \<Rightarrow> nat \<Rightarrow> audit_event_proto list" where
  "live_window types s pos = filter (type_wanted types) (drop (ah_start s) (take pos (ah_log s)))"

definition live_ok :: "string list \<Rightarrow> audit_hub \<Rightarrow> nat \<Rightarrow> audit_event_proto list \<Rightarrow> bool" where
  "live_ok types s pos live \<longleftrightarrow>
     ah_start s \<le> pos \<and> pos \<le> length (ah_log s) \<and> subseq live (live_window types s pos) \<and>
     (\<not> ah_lagged s \<longrightarrow> live = live_window types s pos)"

definition hub_inv :: "string list \<Rightarrow> audit_hub \<Rightarrow> bool" where
  "hub_inv types s \<longleftrightarrow>
     (case ah_phase s of
        Idle \<Rightarrow> ah_delivered s = [] \<and> ah_queue s = [] \<and> \<not> ah_lagged s
      | Replaying xs \<Rightarrow> ah_delivered s = [] \<and> ah_queue s @ xs = ah_replay s \<and> \<not> ah_lagged s
      | Live pos \<Rightarrow> (\<exists>live. ah_delivered s @ ah_queue s = ah_replay s @ live \<and> live_ok types s pos live)
      | Forwarding e pos \<Rightarrow>
          (\<exists>live. ah_delivered s @ ah_queue s = ah_replay s @ live \<and> live_ok types s pos (live @ [e])))"

lemma broadcast_channelD:
  "broadcast_channel c recv \<Longrightarrow> pos \<le> length log \<Longrightarrow>
   recv log pos = (if pos = length log then None
     else if pos + c < length log then Some (Lagged (length log - c - pos), length log - c)
     else Some (Received (log ! pos), Suc pos))"
  by (simp add: broadcast_channel_def)

lemma recv_Received:
  assumes "broadcast_channel c recv" "pos \<le> length log" "recv log pos = Some (Received e, pos')"
  shows "pos < length log" "e = log ! pos" "pos' = Suc pos"
  using assms(2,3) by (auto simp: broadcast_channelD [OF assms(1,2)] split: if_splits)

lemma recv_Lagged:
  assumes "broadcast_channel c recv" "pos \<le> length log" "recv log pos = Some (Lagged n, pos')"
  shows "pos < pos'" "pos' \<le> length log" "n = pos' - pos"
  using assms(2,3) by (auto simp: broadcast_channelD [OF assms(1,2)] split: if_splits)

lemma bounded_sendD: "bounded_channel c send \<Longrightarrow> send buf x = Some q \<Longrightarrow> q = buf @ [x]"
  by (simp add: bounded_channelD split: if_splits)

text \<open>How the window moves: a longer log does not change it, a received event extends it by that event, if wanted.\<close>

lemma live_window_log: "pos \<le> length (ah_log s) \<Longrightarrow> live_window types (s\<lparr>ah_unsent := u, ah_log := ah_log s @ es\<rparr>) pos = live_window types s pos"
  by (simp add: live_window_def)

lemma live_window_Suc:
  assumes "pos < length (ah_log s)" "ah_start s \<le> pos"
  shows "live_window types s (Suc pos) = live_window types s pos @ filter (type_wanted types) [ah_log s ! pos]"
  using assms by (simp add: live_window_def take_Suc_conv_app_nth del: take_Suc)

lemma live_window_mono:
  assumes "pos \<le> pos'" "pos' \<le> length (ah_log s)"
  shows "subseq (live_window types s pos) (live_window types s pos')"
proof -
  have "take pos' (ah_log s) = take pos (ah_log s) @ take (pos' - pos) (drop pos (ah_log s))"
    using assms take_add [of pos "pos' - pos" "ah_log s"] by simp
  then show ?thesis by (auto simp: live_window_def intro: prefix_imp_subseq)
qed

lemma live_ok_start: "live_ok types (s\<lparr>ah_phase := p, ah_start := length (ah_log s)\<rparr>) (length (ah_log s)) []"
  by (simp add: live_ok_def live_window_def)

lemma live_ok_log:
  "live_ok types s pos live \<Longrightarrow> live_ok types (s\<lparr>ah_unsent := u, ah_log := ah_log s @ es\<rparr>) pos live"
  by (auto simp: live_ok_def live_window_log)

lemma hub_inv_log: "hub_inv types s \<Longrightarrow> hub_inv types (s\<lparr>ah_unsent := u, ah_log := ah_log s @ es\<rparr>)"
  by (auto simp: hub_inv_def split: stream_phase.splits dest: live_ok_log)

lemma live_ok_simps [simp]:
  "live_ok types (s\<lparr>ah_phase := p\<rparr>) = live_ok types s"
  "live_ok types (s\<lparr>ah_queue := q\<rparr>) = live_ok types s"
  "live_ok types (s\<lparr>ah_queue := q, ah_delivered := ds\<rparr>) = live_ok types s"
  "live_ok types (s\<lparr>ah_phase := p, ah_queue := q\<rparr>) = live_ok types s"
  "live_ok types (s\<lparr>ah_db := db, ah_unsent := u\<rparr>) = live_ok types s"
  by (simp_all add: live_ok_def live_window_def fun_eq_iff)

lemma live_ok_receive:
  assumes "live_ok types s pos live" "pos < length (ah_log s)" "e = ah_log s ! pos"
  shows "live_ok types s (Suc pos) (live @ filter (type_wanted types) [e])"
  using assms live_window_Suc [of pos s types] by (auto simp: live_ok_def intro: list_emb_append_mono)

lemma live_ok_lag:
  assumes "live_ok types s pos live" "pos < pos'" "pos' \<le> length (ah_log s)"
  shows "live_ok types (s\<lparr>ah_phase := p, ah_lagged := True\<rparr>) pos' live"
proof -
  have "live_window types (s\<lparr>ah_phase := p, ah_lagged := True\<rparr>) pos' = live_window types s pos'"
    by (simp add: live_window_def)
  then show ?thesis
    using assms live_window_mono [of pos pos' s types] by (auto simp: live_ok_def intro: subseq_order.trans)
qed

lemma audit_step_inv [step_invs]:
  assumes "bounded_channel c send" "broadcast_channel d recv"
    and "audit_step L send recv scan since types s s'" "hub_inv types s"
  shows "hub_inv types s'"
  using assms(3,4)
proof cases
  case (broadcast xs e ys)
  then show ?thesis using assms(4) by (simp add: hub_inv_log)
next
  case (receive pos e pos')
  obtain live where live: "ah_delivered s @ ah_queue s = ah_replay s @ live" "live_ok types s pos live"
    using assms(4) receive(2) by (auto simp: hub_inv_def)
  have "pos \<le> length (ah_log s)" using live(2) by (simp add: live_ok_def)
  note r = recv_Received [OF assms(2) this receive(3)]
  have "live_ok types s pos' (live @ [e])"
    using live_ok_receive [OF live(2) r(1,2)] receive(4) by (simp add: r(3))
  then show ?thesis using live(1) by (auto simp: receive(1) hub_inv_def)
next
  case (pass_over pos e pos')
  obtain live where live: "ah_delivered s @ ah_queue s = ah_replay s @ live" "live_ok types s pos live"
    using assms(4) pass_over(2) by (auto simp: hub_inv_def)
  have "pos \<le> length (ah_log s)" using live(2) by (simp add: live_ok_def)
  note r = recv_Received [OF assms(2) this pass_over(3)]
  have "live_ok types s pos' live"
    using live_ok_receive [OF live(2) r(1,2)] pass_over(4) by (simp add: r(3))
  then show ?thesis using live(1) by (auto simp: pass_over(1) hub_inv_def)
next
  case (lag pos n pos')
  obtain live where live: "ah_delivered s @ ah_queue s = ah_replay s @ live" "live_ok types s pos live"
    using assms(4) lag(2) by (auto simp: hub_inv_def)
  have "pos \<le> length (ah_log s)" using live(2) by (simp add: live_ok_def)
  note r = recv_Lagged [OF assms(2) this lag(3)]
  show ?thesis using live(1) live_ok_lag [OF live(2) r(1,2)] by (auto simp: lag(1) hub_inv_def)
next
  case (replay x xs q)
  have "q = ah_queue s @ [x]" using bounded_sendD [OF assms(1) replay(3)] .
  then show ?thesis using assms(4) replay(1,2) by (simp add: hub_inv_def)
next
  case (forward e pos q)
  obtain live where live: "ah_delivered s @ ah_queue s = ah_replay s @ live" "live_ok types s pos (live @ [e])"
    using assms(4) forward(2) by (auto simp: hub_inv_def)
  have "ah_delivered s @ q = ah_replay s @ (live @ [e])"
    using live(1) bounded_sendD [OF assms(1) forward(3)] by simp
  then show ?thesis using live(2) by (auto simp: forward(1) hub_inv_def)
qed (use assms(4) in \<open>auto simp: hub_inv_def live_ok_start split: stream_phase.splits\<close>)

text \<open>
  The table of events only grows, and the replay was read from what it held at one moment, all of the first \<open>n\<close> rows.
\<close>

definition replay_of ::
  "(audit_row list \<Rightarrow> audit_row list) \<Rightarrow> string option \<Rightarrow> string list \<Rightarrow> audit_row list \<Rightarrow> audit_event_proto list" where
  "replay_of scan since types rows =
     map audit_row_proto (filter (\<lambda>a. types = [] \<or> au_event_type a \<in> set types)
       (take 100 (rev (sort_key au_occurred_at
         (scan (filter (\<lambda>a. case since of None \<Rightarrow> True | Some t \<Rightarrow> t \<le> au_occurred_at a) rows))))))"

lemma replay_items_of: "replay_items scan since types db = replay_of scan since types (audit_events db)"
  by (simp add: replay_items_def replay_of_def get_recent_audit_events_def Let_def)

definition read_ok ::
  "(audit_row list \<Rightarrow> audit_row list) \<Rightarrow> string option \<Rightarrow> string list \<Rightarrow> iam_db \<Rightarrow> audit_hub \<Rightarrow> bool" where
  "read_ok scan since types db s \<longleftrightarrow>
     prefix (audit_events db) (audit_events (ah_db s)) \<and>
     (ah_phase s \<noteq> Idle \<longrightarrow> (\<exists>n. length (audit_events db) \<le> n \<and> n \<le> length (audit_events (ah_db s)) \<and>
        ah_replay s = replay_of scan since types (take n (audit_events (ah_db s)))))"

lemma publish_appends:
  "publish_event L now e db = (r, db', sent) \<Longrightarrow> \<exists>rows. audit_events db' = audit_events db @ rows"
  by (auto simp: publish_event_def store_audit_event_def split: if_splits)

lemma audit_step_read:
  assumes "audit_step L send recv scan since types s s'" "read_ok scan since types db s"
  shows "read_ok scan since types db s'"
  using assms
proof cases
  case (store now e r db' sent)
  obtain rows where "audit_events db' = audit_events (ah_db s) @ rows" using publish_appends [OF store(2)] ..
  with assms(2) show ?thesis by (auto simp: store(1) read_ok_def prefix_def)
next
  case (connect items)
  then show ?thesis using assms(2)
    by (auto simp: read_ok_def replay_items_of prefix_def intro!: exI [of _ "length (audit_events (ah_db s))"])
qed (use assms(2) in \<open>auto simp: read_ok_def\<close>)

lemma audit_reachable_read:
  assumes "(audit_step L send recv scan since types)\<^sup>*\<^sup>* (hub_start db) s"
  shows "read_ok scan since types db s"
  using assms
proof induction
  case base
  show ?case by (simp add: read_ok_def hub_start_def)
next
  case (step y z)
  then show ?case by (blast intro: audit_step_read)
qed

lemma hub_start_inv: "hub_inv types (hub_start db)"
  by (simp add: hub_inv_def hub_start_def)

lemma audit_reachable_inv:
  assumes "bounded_channel c send" "broadcast_channel d recv"
    and "(audit_step L send recv scan since types)\<^sup>*\<^sup>* (hub_start db) s"
  shows "hub_inv types s"
  using assms(3) by induction (auto intro: hub_start_inv audit_step_inv [OF assms(1,2)])

section \<open>Properties of the stream\<close>

text \<open>
  C15. What a subscriber has been sent, in whatever way publishers and other tasks interleave with it: first the replay,
  which is, of the events stored at one moment between its call and now and not before \<open>since\<close>, read by SQLite in some order \<open>scan\<close>,
  the 100 newest, of these the ones of a type asked for, newest first; then, in the order of the broadcast, events of a type asked for from those
  broadcast after its subscription, each at most once, and all of them once its receiver has caught up unless it lagged.
\<close>

theorem audit_stream_faithful:
  assumes "bounded_channel 64 send" "broadcast_channel 256 recv"
    and "(audit_step L send recv scan since types)\<^sup>*\<^sup>* (hub_start db) s" "ah_phase s = Live pos"
  shows "\<exists>n live. length (audit_events db) \<le> n \<and> n \<le> length (audit_events (ah_db s)) \<and>
    ah_delivered s @ ah_queue s =
      map audit_row_proto (filter (\<lambda>a. types = [] \<or> au_event_type a \<in> set types)
        (take 100 (rev (sort_key au_occurred_at
          (scan (filter (\<lambda>a. case since of None \<Rightarrow> True | Some t \<Rightarrow> t \<le> au_occurred_at a)
            (take n (audit_events (ah_db s))))))))) @ live \<and>
    subseq live (filter (\<lambda>e. types = [] \<or> ae_event_type e \<in> set types) (drop (ah_start s) (ah_log s))) \<and>
    (\<not> ah_lagged s \<and> pos = length (ah_log s) \<longrightarrow>
       live = filter (\<lambda>e. types = [] \<or> ae_event_type e \<in> set types) (drop (ah_start s) (ah_log s)))"
proof -
  have "hub_inv types s" using audit_reachable_inv [OF assms(1-3)] .
  then obtain live where live: "ah_delivered s @ ah_queue s = ah_replay s @ live" "live_ok types s pos live"
    using assms(4) by (auto simp: hub_inv_def)
  then have pos: "pos \<le> length (ah_log s)" and sub: "subseq live (live_window types s pos)"
    and exact: "\<not> ah_lagged s \<Longrightarrow> live = live_window types s pos" by (simp_all add: live_ok_def)
  have full: "live_window types s (length (ah_log s)) =
      filter (\<lambda>e. types = [] \<or> ae_event_type e \<in> set types) (drop (ah_start s) (ah_log s))"
    by (simp add: live_window_def type_wanted_def [abs_def])
  have "subseq live (live_window types s (length (ah_log s)))"
    using subseq_order.trans [OF sub live_window_mono [OF pos]] by simp
  moreover have "live = live_window types s (length (ah_log s))" if "\<not> ah_lagged s" "pos = length (ah_log s)"
    using exact [OF that(1)] that(2) by simp
  moreover obtain n where n: "length (audit_events db) \<le> n" "n \<le> length (audit_events (ah_db s))"
    "ah_replay s = replay_of scan since types (take n (audit_events (ah_db s)))"
    using audit_reachable_read [OF assms(3)] assms(4) by (auto simp: read_ok_def)
  ultimately show ?thesis
    using live(1) unfolding full n(3) replay_of_def by (intro exI [of _ n] exI [of _ live] conjI n(1,2)) simp_all
qed

definition demo_recv :: recv_fn where
  "demo_recv log pos =
     (if pos = length log then None
      else if pos + 256 < length log then Some (Lagged (length log - 256 - pos), length log - 256)
      else Some (Received (log ! pos), Suc pos))"

lemma demo_recv_ok [simp]: "broadcast_channel 256 demo_recv"
  by (simp add: broadcast_channel_def demo_recv_def)

definition demo_row :: audit_row where
  "demo_row = \<lparr>au_id = ''e1'', au_event_type = ''QueryFailed'', au_occurred_at = ''2027'', au_source_service = ''elan-query'',
     au_user_id = ''bob'', au_session_id = Some ''s1'', au_payload_json = ''{}''\<rparr>"

lemma demo_publish:
  "publish_event demo_libs ''2027'' demo_event_proto seeded_iam_db =
     (Ok True, seeded_iam_db\<lparr>audit_events := [demo_row]\<rparr>, [demo_event_proto])"
  by (simp add: publish_event_def store_audit_event_def demo_event_proto_def demo_row_def seeded_iam_db_def)

text \<open>One step of the subscriber of the examples, and the rule that chains such steps.\<close>

abbreviation demo_step :: "audit_hub \<Rightarrow> audit_hub \<Rightarrow> bool" where
  "demo_step \<equiv> audit_step demo_libs demo_channel demo_recv id None []"

lemmas hub_defs = hub_start_def replay_items_def get_recent_audit_events_def type_wanted_def demo_recv_def demo_channel_def
  audit_row_proto_def demo_row_def demo_event_proto_def

text \<open>An event that is published after the stored events were read and before the subscription.\<close>

lemma missed_run:
  "demo_step\<^sup>*\<^sup>* (hub_start seeded_iam_db)
     ((hub_start seeded_iam_db)\<lparr>ah_db := seeded_iam_db\<lparr>audit_events := [demo_row]\<rparr>, ah_log := [demo_event_proto],
        ah_phase := Live 1, ah_start := 1\<rparr>)"
proof -
  let ?s0 = "hub_start seeded_iam_db" and ?db = "seeded_iam_db\<lparr>audit_events := [demo_row]\<rparr>"
  let ?s1 = "?s0\<lparr>ah_phase := Replaying []\<rparr>"
  let ?s2 = "?s1\<lparr>ah_db := ?db, ah_unsent := [demo_event_proto]\<rparr>"
  let ?s3 = "?s1\<lparr>ah_db := ?db, ah_log := [demo_event_proto]\<rparr>"
  have "demo_step ?s0 ?s1"
    using connect [of ?s0 "[]" id None "[]"] by (simp add: hub_defs seeded_iam_db_def)
  moreover have "demo_step ?s1 ?s2"
    using store [of demo_libs "''2027''" demo_event_proto ?s1] by (simp add: hub_start_def demo_publish)
  moreover have "demo_step ?s2 ?s3"
    using broadcast [of ?s2 "[]" demo_event_proto "[]"] by (simp add: hub_start_def)
  moreover have "demo_step ?s3 (?s3\<lparr>ah_phase := Live 1, ah_start := 1\<rparr>)"
    using subscribe [of ?s3] by (simp add: hub_start_def)
  ultimately have "demo_step\<^sup>*\<^sup>* ?s0 (?s3\<lparr>ah_phase := Live 1, ah_start := 1\<rparr>)"
    by (meson rtranclp.rtrancl_refl rtranclp.rtrancl_into_rtrancl)
  then show ?thesis by (simp add: hub_start_def)
qed

text \<open>An event that is stored before the read and broadcast after the subscription.\<close>

lemma repeated_run:
  "demo_step\<^sup>*\<^sup>* (hub_start seeded_iam_db)
     ((hub_start seeded_iam_db)\<lparr>ah_db := seeded_iam_db\<lparr>audit_events := [demo_row]\<rparr>, ah_log := [demo_event_proto],
        ah_phase := Live 1, ah_queue := [demo_event_proto, demo_event_proto], ah_replay := [demo_event_proto]\<rparr>)"
proof -
  let ?s0 = "hub_start seeded_iam_db" and ?db = "seeded_iam_db\<lparr>audit_events := [demo_row]\<rparr>"
  let ?s1 = "?s0\<lparr>ah_db := ?db, ah_unsent := [demo_event_proto]\<rparr>"
  let ?s2 = "?s1\<lparr>ah_phase := Replaying [demo_event_proto], ah_replay := [demo_event_proto]\<rparr>"
  let ?s3 = "?s2\<lparr>ah_phase := Replaying [], ah_queue := [demo_event_proto]\<rparr>"
  let ?s4 = "?s3\<lparr>ah_phase := Live 0, ah_start := 0\<rparr>"
  let ?s5 = "?s4\<lparr>ah_unsent := [], ah_log := [demo_event_proto]\<rparr>"
  let ?s6 = "?s5\<lparr>ah_phase := Forwarding demo_event_proto 1\<rparr>"
  let ?s7 = "?s6\<lparr>ah_phase := Live 1, ah_queue := [demo_event_proto, demo_event_proto]\<rparr>"
  have "demo_step ?s0 ?s1"
    using store [of demo_libs "''2027''" demo_event_proto ?s0] by (simp add: hub_start_def demo_publish)
  moreover have "demo_step ?s1 ?s2"
    using connect [of ?s1 "[demo_event_proto]" id None "[]"] by (simp add: hub_defs)
  moreover have "demo_step ?s2 ?s3"
    using replay [of ?s2 demo_event_proto "[]" demo_channel "[demo_event_proto]"] by (simp add: hub_start_def demo_channel_def)
  moreover have "demo_step ?s3 ?s4"
    using subscribe [of ?s3] by (simp add: hub_start_def)
  moreover have "demo_step ?s4 ?s5"
    using broadcast [of ?s4 "[]" demo_event_proto "[]"] by (simp add: hub_start_def)
  moreover have "demo_step ?s5 ?s6"
    using receive [of ?s5 0 demo_recv demo_event_proto 1 "[]"] by (simp add: hub_start_def demo_recv_def type_wanted_def)
  moreover have "demo_step ?s6 ?s7"
    using forward [of ?s6 demo_event_proto 1 demo_channel] by (simp add: hub_start_def demo_channel_def)
  ultimately have "demo_step\<^sup>*\<^sup>* ?s0 ?s7"
    by (meson rtranclp.rtrancl_refl rtranclp.rtrancl_into_rtrancl)
  then show ?thesis by (simp add: hub_start_def)
qed

theorem audit_stream_faithful_witness:
  "\<exists>n live. n \<le> 1 \<and> [demo_event_proto, demo_event_proto] = map audit_row_proto (take n [demo_row]) @ live \<and> live = [demo_event_proto]"
proof -
  let ?s = "(hub_start seeded_iam_db)\<lparr>ah_db := seeded_iam_db\<lparr>audit_events := [demo_row]\<rparr>, ah_log := [demo_event_proto],
        ah_phase := Live 1, ah_queue := [demo_event_proto, demo_event_proto], ah_replay := [demo_event_proto]\<rparr>"
  have fields: "ah_delivered ?s @ ah_queue ?s = [demo_event_proto, demo_event_proto]" "audit_events (ah_db ?s) = [demo_row]"
    "drop (ah_start ?s) (ah_log ?s) = [demo_event_proto]" "\<not> ah_lagged ?s \<and> 1 = length (ah_log ?s)" "ah_phase ?s = Live 1"
    by (simp_all add: hub_start_def)
  obtain n live where r: "n \<le> length [demo_row]" "\<not> ah_lagged ?s \<and> 1 = length (ah_log ?s) \<longrightarrow> live = [demo_event_proto]"
    "[demo_event_proto, demo_event_proto] = map audit_row_proto (take 100 (rev (sort_key au_occurred_at (take n [demo_row])))) @ live"
    using audit_stream_faithful [OF demo_channel_bounded demo_recv_ok repeated_run fields(5)] unfolding fields(1-3) by auto
  have one: "take n [demo_row] = [] \<or> take n [demo_row] = [demo_row]" by (cases n) auto
  have "take 100 (rev (sort_key au_occurred_at (take n [demo_row]))) = take n [demo_row]" using one by auto
  then show ?thesis using r fields(4) by auto
qed

text \<open>
  The stream has a gap: an event that is stored and broadcast between the subscriber's read of the stored events
  and its subscription is in the database and was broadcast, and the subscriber, though up to date, has neither
  replayed nor received it.
\<close>

theorem audit_stream_gap:
  "\<exists>s. demo_step\<^sup>*\<^sup>* (hub_start seeded_iam_db) s \<and> audit_events (ah_db s) = [demo_row] \<and> ah_log s = [demo_event_proto] \<and>
     ah_phase s = Live (length (ah_log s)) \<and> \<not> ah_lagged s \<and> ah_delivered s @ ah_queue s = []"
  using missed_run by (intro exI conjI) (assumption | simp add: hub_start_def)+

text \<open>
  And it has an overlap: an event that is stored before the read and broadcast after the subscription reaches the
  client twice.
\<close>

theorem audit_stream_duplicate:
  "\<exists>s. demo_step\<^sup>*\<^sup>* (hub_start seeded_iam_db) s \<and> ah_log s = [demo_event_proto] \<and>
     ah_delivered s @ ah_queue s = [demo_event_proto, demo_event_proto]"
  using repeated_run by (intro exI conjI) (assumption | simp add: hub_start_def)+

end
