(* ===== verification/Tui_Audit.thy ===== *)
theory Tui_Audit
  imports Tui Audit_Stream
begin

text \<open>
  The gRPC client of elan-tui (\<open>client/central.rs\<close>) and what its audit pane gets from elan-central's stream.
  Opening a channel and the server's answer to the call are arguments; the request is the code's.
\<close>

section \<open>The client\<close>

text \<open>A client is the endpoint it is connected to.\<close>

definition central_client_connect :: "(string \<Rightarrow> (string, unit) result) \<Rightarrow> string \<Rightarrow> (string, string) result" where
  "central_client_connect dial endpoint = and_then (dial endpoint) (\<lambda>_. Ok endpoint)"

definition central_client_stream ::
  "(stream_request \<Rightarrow> (status, (status, audit_event_proto) result list) result) \<Rightarrow> (status \<Rightarrow> string) \<Rightarrow> string \<Rightarrow>
   (string, (status, audit_event_proto) result list) result" where
  "central_client_stream call text endpoint = map_err text (call \<lparr>sr_since = None, sr_event_types = []\<rparr>)"

definition audit_task_run ::
  "(string \<Rightarrow> (string, unit) result) \<Rightarrow> (stream_request \<Rightarrow> (status, (status, audit_event_proto) result list) result) \<Rightarrow>
   (status \<Rightarrow> string) \<Rightarrow> string \<Rightarrow> app_event list" where
  "audit_task_run dial call text endpoint =
     audit_task (and_then (central_client_connect dial endpoint) (\<lambda>client. Ok (central_client_stream call text client)))"

section \<open>Properties\<close>

lemma audit_messages_Ok: "audit_messages (map Ok evs) = map (\<lambda>e. AuditMessage (audit_line e)) evs"
  by (induction evs) simp_all

text \<open>The stream that a subscriber without a filter has been sent, as the client sees it.\<close>

definition stream_of_hub :: "audit_hub \<Rightarrow> stream_request \<Rightarrow> (status, (status, audit_event_proto) result list) result" where
  "stream_of_hub s req = Ok (map Ok (ah_delivered s))"

lemma hub_items:
  assumes "bounded_channel c send" "broadcast_channel d recv"
    and "(audit_step L send recv scan since types)\<^sup>*\<^sup>* (hub_start db) s"
  shows "set (ah_delivered s) \<subseteq> set (ah_replay s) \<union> set (ah_log s)"
proof -
  have inv: "hub_inv types s" using audit_reachable_inv [OF assms] .
  have win: "set (live_window types s pos) \<subseteq> set (ah_log s)" for pos
    using set_drop_subset set_take_subset unfolding live_window_def by fastforce
  have "set live \<subseteq> set (ah_log s)" if "live_ok types s pos live" for pos live
  proof -
    have "subseq live (live_window types s pos)" using that by (simp add: live_ok_def)
    then have "set live \<subseteq> set (live_window types s pos)" by (auto dest: list_emb_set)
    then show ?thesis using win [of pos] by blast
  qed
  then have ok: "set live \<subseteq> set (ah_log s)" if "live_ok types s pos (live @ es)" for pos live es
    using that by fastforce
  have sub: "set (ah_delivered s) \<subseteq> set (ah_replay s) \<union> set (ah_log s)"
    if "ah_delivered s @ ah_queue s = ah_replay s @ live" "set live \<subseteq> set (ah_log s)" for live
  proof -
    have "set (ah_delivered s) \<union> set (ah_queue s) = set (ah_replay s) \<union> set live"
      using arg_cong [OF that(1), of set] by simp
    then show ?thesis using that(2) by blast
  qed
  show ?thesis
  proof (cases "ah_phase s")
    case (Live pos)
    with inv obtain live where "ah_delivered s @ ah_queue s = ah_replay s @ live" "live_ok types s pos live"
      by (auto simp: hub_inv_def)
    then show ?thesis using sub ok [of pos live "[]"] by simp
  next
    case (Forwarding e pos)
    with inv obtain live where "ah_delivered s @ ah_queue s = ah_replay s @ live" "live_ok types s pos (live @ [e])"
      by (auto simp: hub_inv_def)
    then show ?thesis using sub ok by blast
  qed (use inv in \<open>simp_all add: hub_inv_def\<close>)
qed

lemma replay_untimed:
  assumes "(audit_step L send recv scan since types)\<^sup>*\<^sup>* (hub_start db) s" "e \<in> set (ah_replay s)"
  shows "ae_occurred_at e = None"
proof -
  have "\<forall>e \<in> set (ah_replay s). ae_occurred_at e = None"
    using assms(1)
  proof induction
    case (step s s')
    from step.hyps(2) step.IH show ?case
      by cases (auto simp: replay_items_def audit_row_proto_def)
  qed (simp add: hub_start_def)
  with assms(2) show ?thesis by blast
qed

text \<open>
  No line of the audit pane has a time: when the events come from \<open>CentralAuditSink\<close>, which leaves the timestamp out, so do
  the replay and the live part of the stream, and the pane shows a question mark for each.
\<close>

theorem tui_audit_untimed:
  assumes "bounded_channel 64 send" "broadcast_channel 256 recv"
    and "(audit_step L send recv scan since [])\<^sup>*\<^sup>* (hub_start db) s"
    and "\<forall>e \<in> set (ah_log s). \<exists>ev payload. e = central_proto L ev payload" and "dial endpoint = Ok ()"
  shows "\<forall>m \<in> set (audit_task_run dial (stream_of_hub s) text endpoint). \<exists>line. m = AuditMessage (''[?] '' @ line)"
proof -
  have run: "audit_task_run dial (stream_of_hub s) text endpoint = map (\<lambda>e. AuditMessage (audit_line e)) (ah_delivered s)"
    using assms(5)
    by (simp add: audit_task_run_def central_client_connect_def central_client_stream_def stream_of_hub_def audit_task_def
        audit_messages_Ok)
  have "ae_occurred_at e = None" if "e \<in> set (ah_delivered s)" for e
    using hub_items [OF assms(1-3)] that replay_untimed [OF assms(3)] assms(4) by (fastforce simp: central_proto_def)
  then show ?thesis unfolding run by (simp add: audit_line_def)
qed

end
