(* ===== verification/Tui_View.thy ===== *)
theory Tui_View
  imports Tui
begin

text \<open>
  What elan-tui draws (\<open>app.rs\<close>): the widgets of a frame with the areas they are rendered to, in the order of the
  calls, a later widget over an earlier one. ratatui is a parameter: \<open>split\<close> divides an area by
  constraints and \<open>block_inner\<close> is the area inside a border. \<open>None\<close> is a panic: an index out of range or an
  overflow of a coordinate.
\<close>

section \<open>Widgets\<close>

record rect =
  re_x :: u16
  re_y :: u16
  re_width :: u16
  re_height :: u16

datatype direction = Vertical | Horizontal

datatype constraint = Percentage nat | MinWidth nat

datatype color = Cyan | Gray | Black | DarkGray

record style =
  st_fg :: "color option"
  st_bg :: "color option"
  st_bold :: bool

definition style_default :: style where
  "style_default = \<lparr>st_fg = None, st_bg = None, st_bold = False\<rparr>"

text \<open>A bordered block: its border's style and its title with the title's style.\<close>

record block =
  bl_style :: style
  bl_title :: string
  bl_title_style :: style

text \<open>A cell and a list item are a text and whether it is bold.\<close>

datatype 'e widget =
    BlockWidget block
  | EditorWidget 'e
  | TableWidget "(string \<times> bool) list" "string list list" "constraint list" style block
  | ParagraphWidget string style "block option"
  | ListWidget "(string \<times> bool) list" block

type_synonym 'e frame = "('e widget \<times> rect) list"

record view_env =
  split :: "direction \<Rightarrow> constraint list \<Rightarrow> rect \<Rightarrow> rect list"
  block_inner :: "block \<Rightarrow> rect \<Rightarrow> rect"

section \<open>The panes\<close>

definition pane_style :: "'e app \<Rightarrow> pane \<Rightarrow> style" where
  "pane_style a p =
     (if ap_active_pane a = p then style_default\<lparr>st_fg := Some Cyan, st_bold := True\<rparr>
      else style_default\<lparr>st_fg := Some Gray\<rparr>)"

definition pane_block :: "'e app \<Rightarrow> pane \<Rightarrow> string \<Rightarrow> block" where
  "pane_block a p title = \<lparr>bl_style = pane_style a p, bl_title = title, bl_title_style = pane_style a p\<rparr>"

definition draw_editor :: "view_env \<Rightarrow> 'e app \<Rightarrow> rect \<Rightarrow> 'e frame" where
  "draw_editor V a area =
     (let block = pane_block a EditorPane ('' SQL Editor ['' @ ap_username a @ ''] '')
      in [(BlockWidget block, area), (EditorWidget (ap_editor a), block_inner V block area)])"

definition draw_results :: "libs \<Rightarrow> 'e app \<Rightarrow> rect \<Rightarrow> 'e frame" where
  "draw_results L a area =
     (let block = pane_block a ResultsPane (results_title a)
      in case ap_results a of
           Some resp \<Rightarrow>
             [(TableWidget (map (\<lambda>c. (c, True)) (qp_columns resp)) (results_rows L a resp)
                 (map (\<lambda>_. MinWidth 12) (qp_columns resp)) (style_default\<lparr>st_bg := Some DarkGray\<rparr>) block, area)]
         | None \<Rightarrow> [(ParagraphWidget ''No results yet.'' style_default (Some block), area)])"

definition draw_audit :: "'e app \<Rightarrow> rect \<Rightarrow> 'e frame" where
  "draw_audit a area =
     (let block = pane_block a AuditPane ('' Audit ['' @ nat_str (length (ap_audit_log a)) @ '' events] '')
      in [(ListWidget (map (\<lambda>s. (s, False)) (audit_items (unat (re_height area)) a)) block, area)])"

definition catalog_entries :: "'e app \<Rightarrow> (string \<times> bool) list" where
  "catalog_entries a =
     (case ap_catalog a of
        Some catalog \<Rightarrow>
          concat (map (\<lambda>ns. ([CHR 0xE2, CHR 0x96, CHR 0xBE] @ '' '' @ ni_name ns, True) #
              map (\<lambda>ds. (''  '' @ [CHR 0xE2, CHR 0x94, CHR 0x94] @ '' '' @ sm_name ds @ '' ('' @ sm_source_type ds @ '')'', False))
                (ni_datasets ns)) (cr_namespaces catalog))
      | None \<Rightarrow> [(''(not loaded '' @ [CHR 0xE2, CHR 0x80, CHR 0x94] @ '' press Ctrl+R)'', False)])"

definition draw_catalog :: "'e app \<Rightarrow> rect \<Rightarrow> 'e frame" where
  "draw_catalog a area =
     (let block = pane_block a CatalogPane '' Catalog ''
      in [(ListWidget (catalog_entries a) block, area)])"

definition draw_status_bar :: "bool \<Rightarrow> 'e app \<Rightarrow> rect \<Rightarrow> 'e frame option" where
  "draw_status_bar checks a area =
     (let help = '' Tab:pane  F5/Ctrl+Enter:run  Ctrl+R:refresh  Ctrl+C:quit '';
          status = ParagraphWidget ('' '' @ ap_status_message a @ '' | '' @ help)
                     (style_default\<lparr>st_fg := Some Black, st_bg := Some Cyan\<rparr>) None
      in map_option (\<lambda>y. [(status, \<lparr>re_x = re_x area, re_y = y, re_width = re_width area, re_height = 1\<rparr>)])
           (add_checked checks (re_y area) (saturating_sub (re_height area) 1)))"

definition list_index :: "'a list \<Rightarrow> nat \<Rightarrow> 'a option" where
  "list_index xs i = (if i < length xs then Some (xs ! i) else None)"

definition draw :: "bool \<Rightarrow> libs \<Rightarrow> view_env \<Rightarrow> 'e app \<Rightarrow> rect \<Rightarrow> 'e frame option" where
  "draw checks L V a area =
     (let vertical = split V Vertical [Percentage 40, Percentage 60] area
      in Option.bind (list_index vertical 1) (\<lambda>lower.
         let bottom = split V Horizontal [Percentage 50, Percentage 25, Percentage 25] lower
         in Option.bind (list_index vertical 0) (\<lambda>v0.
            Option.bind (list_index bottom 0) (\<lambda>b0.
            Option.bind (list_index bottom 1) (\<lambda>b1.
            Option.bind (list_index bottom 2) (\<lambda>b2.
            map_option (\<lambda>bar. draw_editor V a v0 @ draw_results L a b0 @ draw_audit a b1 @ draw_catalog a b2 @ bar)
              (draw_status_bar checks a area)))))))"

section \<open>Properties of a frame\<close>

text \<open>\<open>Layout::split\<close> gives one area for each constraint.\<close>

definition splits_all :: "view_env \<Rightarrow> bool" where
  "splits_all V \<longleftrightarrow> (\<forall>d cs area. length (split V d cs area) = length cs)"

fun widget_block :: "'e widget \<Rightarrow> block option" where
  "widget_block (BlockWidget b) = Some b"
| "widget_block (EditorWidget e) = None"
| "widget_block (TableWidget h rows widths st b) = Some b"
| "widget_block (ParagraphWidget t st b) = b"
| "widget_block (ListWidget items b) = Some b"

definition frame_blocks :: "'e frame \<Rightarrow> block list" where
  "frame_blocks f = List.map_filter (\<lambda>(w, area). widget_block w) f"

definition block_highlighted :: "block \<Rightarrow> bool" where
  "block_highlighted b \<longleftrightarrow> bl_style b = style_default\<lparr>st_fg := Some Cyan, st_bold := True\<rparr> \<and> bl_title_style b = bl_style b"

lemma catalog_entries_text: "map fst (catalog_entries a) = catalog_items a"
  by (simp add: catalog_entries_def catalog_items_def map_concat o_def split: option.split)

lemma frame_blocks_simps [simp]:
  "frame_blocks [] = []" "frame_blocks ((w, area) # f) = (case widget_block w of None \<Rightarrow> [] | Some b \<Rightarrow> [b]) @ frame_blocks f"
  "frame_blocks (f @ g) = frame_blocks f @ frame_blocks g"
  by (simp_all add: frame_blocks_def map_filter_simps split: option.split) (simp add: List.map_filter_def)

lemma pane_block_highlighted [simp]: "block_highlighted (pane_block a p t) \<longleftrightarrow> ap_active_pane a = p"
  by (simp add: block_highlighted_def pane_block_def pane_style_def style_default_def)

lemma pane_block_title [simp]: "bl_title (pane_block a p t) = t"
  by (simp add: pane_block_def)

lemma draw_blocks:
  "frame_blocks (draw_editor V a area) = [pane_block a EditorPane ('' SQL Editor ['' @ ap_username a @ ''] '')]"
  "frame_blocks (draw_results L a area) = [pane_block a ResultsPane (results_title a)]"
  "frame_blocks (draw_audit a area) = [pane_block a AuditPane ('' Audit ['' @ nat_str (length (ap_audit_log a)) @ '' events] '')]"
  "frame_blocks (draw_catalog a area) = [pane_block a CatalogPane '' Catalog '']"
  by (simp_all add: draw_editor_def draw_results_def draw_audit_def draw_catalog_def Let_def split: option.split)

lemma draw_status_bar_blocks: "draw_status_bar checks a area = Some bar \<Longrightarrow> frame_blocks bar = []"
  by (auto simp: draw_status_bar_def Let_def)

text \<open>
  Drawing never panics on a terminal whose rows have coordinates below \<open>2^16\<close>: the frame has the four panes, in
  the order editor, results, audit and catalog, of which exactly the active one is highlighted, and last the
  status bar, on the last row.
\<close>

theorem draw_frame:
  assumes "splits_all V" "unat (re_y area) + unat (re_height area) < 2 ^ 16"
  shows "\<exists>frame bar. draw checks L V a area = Some (frame @ [bar]) \<and>
    map bl_title (frame_blocks frame) =
      ['' SQL Editor ['' @ ap_username a @ ''] '', results_title a,
       '' Audit ['' @ nat_str (length (ap_audit_log a)) @ '' events] '', '' Catalog ''] \<and>
    map block_highlighted (frame_blocks (frame @ [bar])) =
      map (\<lambda>p. ap_active_pane a = p) [EditorPane, ResultsPane, AuditPane, CatalogPane] \<and>
    unat (re_y (snd bar)) = unat (re_y area) + (unat (re_height area) - 1)"
proof -
  let ?y = "re_y area + saturating_sub (re_height area) 1"
  have sub: "unat (saturating_sub (re_height area) 1) = unat (re_height area) - 1"
    by (simp add: saturating_sub_def unat_minus_one)
  then have fits: "unat (re_y area) + unat (saturating_sub (re_height area) 1) < 2 ^ LENGTH(16)"
    using assms(2) by simp
  have "length (split V Vertical [Percentage 40, Percentage 60] area) = Suc (Suc 0)"
    using assms(1) by (simp add: splits_all_def)
  then obtain v0 v1 where v: "split V Vertical [Percentage 40, Percentage 60] area = [v0, v1]"
    unfolding length_Suc_conv by auto
  have "length (split V Horizontal [Percentage 50, Percentage 25, Percentage 25] v1) = Suc (Suc (Suc 0))"
    using assms(1) by (simp add: splits_all_def)
  then obtain b0 b1 b2 where b: "split V Horizontal [Percentage 50, Percentage 25, Percentage 25] v1 = [b0, b1, b2]"
    unfolding length_Suc_conv by auto
  let ?bar = "(ParagraphWidget ('' '' @ ap_status_message a @ '' | '' @ '' Tab:pane  F5/Ctrl+Enter:run  Ctrl+R:refresh  Ctrl+C:quit '')
      (style_default\<lparr>st_fg := Some Black, st_bg := Some Cyan\<rparr>) None,
      \<lparr>re_x = re_x area, re_y = ?y, re_width = re_width area, re_height = 1\<rparr>)"
  let ?frame = "draw_editor V a v0 @ draw_results L a b0 @ draw_audit a b1 @ draw_catalog a b2"
  have bar: "draw_status_bar checks a area = Some [?bar]"
    using add_checked_fits [OF fits] by (simp add: draw_status_bar_def)
  then have "draw checks L V a area = Some (?frame @ [?bar])"
    by (simp add: draw_def v b list_index_def)
  moreover have "unat ?y = unat (re_y area) + (unat (re_height area) - 1)"
    using fits sub by (simp add: unat_word_ariths)
  ultimately show ?thesis
    by (intro exI [of _ ?frame] exI [of _ ?bar] conjI) (simp_all add: draw_blocks)
qed

end
