(* ===== verification/Http_Routes.thy ===== *)
theory Http_Routes
  imports Tui Executor Coordinator
begin

text \<open>
  The HTTP routers of the four services and their health endpoints. A router is the list of its routes in the
  order the code adds them; axum serves a request by the route of its path and method. The lemmas say that
  the URLs which the clients build end in paths that the other side serves with the handler they mean.
\<close>

datatype http_method = Get | Post

datatype endpoint = HealthEndpoint | QueryEndpoint | CatalogEndpoint | SqlEndpoint | AuthCheckEndpoint

type_synonym router = "(string \<times> http_method \<times> endpoint) list"

definition query_router :: router where
  "query_router =
     [(''/api/v1/query'', Post, QueryEndpoint), (''/api/v1/catalog'', Get, CatalogEndpoint), (''/health'', Get, HealthEndpoint)]"

definition query_health_router :: router where
  "query_health_router = [(''/health'', Get, HealthEndpoint)]"

definition central_router :: router where
  "central_router = [(''/health'', Get, HealthEndpoint)]"

definition coordinator_router :: router where
  "coordinator_router = [(''/health'', Get, HealthEndpoint), (''/auth/check'', Get, AuthCheckEndpoint)]"

definition executor_router :: router where
  "executor_router = [(''/sql'', Post, SqlEndpoint)]"

text \<open>\<open>health\<close> of every service answers the status \<open>ok\<close>.\<close>

record health_response =
  he_status :: string

definition query_health :: health_response where "query_health = \<lparr>he_status = ''ok''\<rparr>"
definition query_app_health :: health_response where "query_app_health = \<lparr>he_status = ''ok''\<rparr>"
definition central_health :: health_response where "central_health = \<lparr>he_status = ''ok''\<rparr>"
definition coordinator_health :: health_response where "coordinator_health = \<lparr>he_status = ''ok''\<rparr>"

definition route_of :: "router \<Rightarrow> http_method \<Rightarrow> string \<Rightarrow> endpoint option" where
  "route_of r m path = map_option (\<lambda>(p, m', e). e) (find (\<lambda>(p, m', e). p = path \<and> m' = m) r)"

text \<open>A URL is served when it is a base followed by a path with a route.\<close>

definition served_at :: "router \<Rightarrow> http_method \<Rightarrow> string \<Rightarrow> string \<Rightarrow> endpoint \<Rightarrow> bool" where
  "served_at r m base url e \<longleftrightarrow> (\<exists>path. url = base @ path \<and> route_of r m path = Some e)"

lemma client_urls_served:
  "served_at query_router Post base (tr_url (client_query base user sql session)) QueryEndpoint"
  "served_at query_router Get base (tr_url (client_catalog base user)) CatalogEndpoint"
  by (simp_all add: served_at_def client_query_def client_catalog_def route_of_def query_router_def)

lemma scan_url_served:
  "served_at executor_router Post (''http://'' @ host @ '':'' @ nat_str (unat port)) (scan_url host port) SqlEndpoint"
  by (simp add: served_at_def scan_url_def route_of_def executor_router_def)

text \<open>The client of the access check puts its arguments after a question mark, which ends the path.\<close>

lemma auth_url_served:
  "\<exists>url args. auth_url base dataset caller = url @ ''?'' @ args \<and> served_at coordinator_router Get base url AuthCheckEndpoint"
  by (intro exI [of _ "base @ ''/auth/check''"] exI [of _ "''dataset='' @ dataset @ ''&caller='' @ caller"])
    (simp add: served_at_def auth_url_def route_of_def coordinator_router_def)

text \<open>The query service's own router serves the health path, so the one of its module \<open>health\<close> adds nothing.\<close>

lemma query_health_routed:
  "route_of query_health_router m path = Some e \<Longrightarrow> route_of query_router m path = Some e"
  by (auto simp: route_of_def query_health_router_def query_router_def split: if_splits)

end
