(* ===== verification/Federation.thy ===== *)
theory Federation
  imports Central_Start Query_Run
begin

text \<open>
  elan-central and one elan-query together, with everything that happens between a load and a request: calls that
  elan-central serves from anyone, the background task of \<open>SessionFactory::new\<close> (\<open>session.rs\<close>), whose request and
  installation are two steps, sessions that stay open, their cache misses, and the requests that running a
  plan sends. The lock of the catalog client is held by the task from its request to its installation. The
  requests so far and the catalogs so far are ghosts.
\<close>

section \<open>The system\<close>

record open_session =
  os_user :: subject
  os_schemas :: "string \<rightharpoonup> schema_provider"

record federation =
  fd_central :: central_server
  fd_factory :: session_factory
  fd_asked :: "dataset_proto stream_answer option"
  fd_sessions :: "open_session list"
  fd_requests :: "(subject \<times> remote_scan) list"
  fd_past :: "catalog_db list"

abbreviation catalog_of :: "central_server \<Rightarrow> catalog_db" where
  "catalog_of srv \<equiv> sf_catalog (cs_db srv)"

text \<open>
  The start of elan-query: the datasets are loaded first and the policies after that, with other calls to elan-central in
  between.
\<close>

definition federation_start ::
  "libs \<Rightarrow> scan \<Rightarrow> (nat \<Rightarrow> uuid) \<Rightarrow> central_server \<Rightarrow> central_call list \<Rightarrow> (load_error, federation) result" where
  "federation_start L scan fresh srv calls =
     (let srv' = run (server_step L scan) srv calls
      in and_then (session_factory_new L fresh (answer_of (svc_list_datasets L (catalog_of srv) []))
                     (answer_of (svc_list_policies L scan (sf_iam (cs_db srv')) []))) (\<lambda>sf.
         Ok \<lparr>fd_central = srv', fd_factory = sf, fd_asked = None, fd_sessions = [], fd_requests = [],
             fd_past = [catalog_of srv, catalog_of srv']\<rparr>))"

text \<open>The check of every session is that of the factory's engine.\<close>

abbreviation fd_check :: "libs \<Rightarrow> federation \<Rightarrow> check_fn" where
  "fd_check L s \<equiv> snapshot_check L (sf_engine (fd_factory s))"

text \<open>
  The scans of a plan come from tables that the providers of its session hold: DataFusion has no other source of them.
\<close>

definition scan_of_session :: "open_session \<Rightarrow> remote_scan \<Rightarrow> bool" where
  "scan_of_session se sc \<longleftrightarrow>
     (\<exists>ns sp name t projection filters limit. os_schemas se ns = Some sp \<and> sv_datasets sp name = Some t \<and>
        table_scan t projection filters limit = Ok (RemoteTableScanExec sc :: unit plan))"

inductive federation_move ::
  "libs \<Rightarrow> scan \<Rightarrow> (u8 list \<Rightarrow> (string, schema) result) \<Rightarrow> 'n df_ops \<Rightarrow> federation \<Rightarrow> federation \<Rightarrow> bool"
  for L :: libs and scan :: scan and ipc_schema :: "u8 list \<Rightarrow> (string, schema) result" and D :: "'n df_ops" where
  central_serves:
    "srv = server_step L scan (fd_central s) call \<Longrightarrow>
     federation_move L scan ipc_schema D s (s\<lparr>fd_central := srv, fd_past := fd_past s @ [catalog_of srv]\<rparr>)"
| refresh_asks:
    "fd_asked s = None \<Longrightarrow>
     federation_move L scan ipc_schema D s
       (s\<lparr>fd_asked := Some (answer_of (svc_list_datasets L (catalog_of (fd_central s)) []))\<rparr>)"
| refresh_fails:
    "fd_asked s = None \<Longrightarrow> federation_move L scan ipc_schema D s (s\<lparr>fd_asked := Some (Err status)\<rparr>)"
| refresh_installs:
    "fd_asked s = Some answer \<Longrightarrow>
     federation_move L scan ipc_schema D s (s\<lparr>fd_factory := refresh_tick L (fd_factory s) answer, fd_asked := None\<rparr>)"
| session_opens:
    "sx_catalogs (build_for_user L ipc_schema (fd_factory s) subj :: 'n session_context) ''elan'' = Some schemas \<Longrightarrow>
     federation_move L scan ipc_schema D s (s\<lparr>fd_sessions := fd_sessions s @ [\<lparr>os_user = subj, os_schemas = schemas\<rparr>]\<rparr>)"
| table_hit:
    "se \<in> set (fd_sessions s) \<Longrightarrow> catalog_schema (os_schemas se) ns = Some sp \<Longrightarrow>
     \<not> is_visible (fd_check L s) (os_user se) (sv_namespace sp) name \<or> table_exist name sp \<Longrightarrow>
     federation_move L scan ipc_schema D s s"
| table_miss:
    "fd_sessions s = xs @ se # ys \<Longrightarrow> catalog_schema (os_schemas se) ns = Some sp \<Longrightarrow> fd_asked s = None \<Longrightarrow>
     \<not> table_exist name sp \<Longrightarrow>
     sp_table L ipc_schema (svc_get_dataset L (catalog_of (fd_central s))) (fd_check L s) (os_user se) name sp = (r, sp') \<Longrightarrow>
     federation_move L scan ipc_schema D s
       (s\<lparr>fd_sessions := xs @ se\<lparr>os_schemas := (os_schemas se)(ns \<mapsto> sp')\<rparr> # ys\<rparr>)"
| query_runs:
    "se \<in> set (fd_sessions s) \<Longrightarrow> \<forall>sc \<in> set (plan_scans p). scan_of_session se sc \<Longrightarrow>
     iam_optimize D (elan_iam_rule (fd_check L s) (os_user se)) p = Ok q \<Longrightarrow>
     federation_move L scan ipc_schema D s (s\<lparr>fd_requests := fd_requests s @ map (Pair (os_user se)) (plan_scans q)\<rparr>)"
| session_closes:
    "fd_sessions s = xs @ se # ys \<Longrightarrow> federation_move L scan ipc_schema D s (s\<lparr>fd_sessions := xs @ ys\<rparr>)"

section \<open>The invariant\<close>

text \<open>A dataset that some catalog of the past had, as a lookup finds it; a list of datasets that is the listing of one.\<close>

definition past_dataset :: "libs \<Rightarrow> catalog_db list \<Rightarrow> dataset_info \<Rightarrow> bool" where
  "past_dataset L past d \<longleftrightarrow> (\<exists>db \<in> set past. get_dataset L (ds_namespace d) (ds_name d) db = Ok (Some d))"

definition past_view :: "libs \<Rightarrow> catalog_db list \<Rightarrow> (string \<rightharpoonup> dataset_info list) \<Rightarrow> bool" where
  "past_view L past by_ns \<longleftrightarrow>
     (\<exists>db \<in> set past. \<exists>ds. list_datasets L None db = Ok ds \<and> by_ns = foldl push_dataset Map.empty ds)"

definition session_ok :: "libs \<Rightarrow> catalog_db list \<Rightarrow> open_session \<Rightarrow> bool" where
  "session_ok L past se \<longleftrightarrow>
     (\<forall>ns sp. os_schemas se ns = Some sp \<longrightarrow> provider_inv sp \<and>
        (\<forall>name t. sv_datasets sp name = Some t \<longrightarrow> past_dataset L past (et_dataset t)))"

definition request_ok :: "libs \<Rightarrow> catalog_db list \<Rightarrow> snapshot_engine \<Rightarrow> subject \<times> remote_scan \<Rightarrow> bool" where
  "request_ok L past engine r \<longleftrightarrow>
     (let d = rs_dataset (snd r)
      in past_dataset L past d \<and> is_visible (snapshot_check L engine) (fst r) (ds_namespace d) (ds_name d))"

definition federation_inv :: "libs \<Rightarrow> snapshot_engine \<Rightarrow> federation \<Rightarrow> bool" where
  "federation_inv L engine s \<longleftrightarrow>
     catalog_of (fd_central s) \<in> set (fd_past s) \<and> (\<forall>db \<in> set (fd_past s). catalog_inv db) \<and>
     sf_engine (fd_factory s) = engine \<and> past_view L (fd_past s) (sf_datasets (fd_factory s)) \<and>
     (\<forall>answer by_ns. fd_asked s = Some answer \<longrightarrow> load_datasets L answer = Ok by_ns \<longrightarrow> past_view L (fd_past s) by_ns) \<and>
     (\<forall>se \<in> set (fd_sessions s). session_ok L (fd_past s) se) \<and>
     (\<forall>r \<in> set (fd_requests s). request_ok L (fd_past s) engine r)"

lemma past_mono:
  "past_dataset L past d \<Longrightarrow> past_dataset L (past @ later) d" "past_view L past v \<Longrightarrow> past_view L (past @ later) v"
  "session_ok L past se \<Longrightarrow> session_ok L (past @ later) se" "request_ok L past e r \<Longrightarrow> request_ok L (past @ later) e r"
  unfolding past_dataset_def past_view_def session_ok_def request_ok_def Let_def by fastforce+

lemma past_view_dataset:
  assumes "past_view L past by_ns" "\<forall>db \<in> set past. catalog_inv db" "by_ns ns = Some l" "d \<in> set l"
  shows "past_dataset L past d" "ds_namespace d = ns"
proof -
  obtain db ds where db: "db \<in> set past" "list_datasets L None db = Ok ds" "by_ns = foldl push_dataset Map.empty ds"
    using assms(1) by (auto simp: past_view_def)
  then have "l = filter (\<lambda>d. ds_namespace d = ns) ds" using assms(3) by (auto simp: push_datasets split: if_splits)
  then have d: "d \<in> set ds" "ds_namespace d = ns" using assms(4) by auto
  have "get_dataset L (ds_namespace d) (ds_name d) db = Ok (Some d)"
    using list_datasets_members [OF _ db(2), of d] assms(2) db(1) d(1) by simp
  with db(1) d(2) show "past_dataset L past d" "ds_namespace d = ns" by (auto simp: past_dataset_def)
qed

lemma provider_new_datasets:
  assumes "sv_datasets (schema_provider_new ipc_schema ns xs) name = Some t"
  shows "et_dataset t \<in> set xs"
proof -
  have "foldl (\<lambda>m ds. m(ds_name ds \<mapsto> elan_table_of ipc_schema ds)) m xs name = Some t \<Longrightarrow>
      m name = Some t \<or> et_dataset t \<in> set xs" for m
    by (induction xs arbitrary: m) (fastforce split: if_splits)+
  from this [of Map.empty] show ?thesis using assms by (simp add: schema_provider_new_def)
qed

lemma new_session_ok:
  assumes "past_view L past (sf_datasets sf)" "\<forall>db \<in> set past. catalog_inv db"
    and "sx_catalogs (build_for_user L ipc_schema sf subj :: 'n session_context) ''elan'' = Some schemas"
  shows "session_ok L past \<lparr>os_user = subj, os_schemas = schemas\<rparr>"
proof -
  have schemas: "schemas ns = map_option (schema_provider_new ipc_schema ns) (sf_datasets sf ns)" for ns
    using assms(3) by (auto simp: build_for_user_def Let_def)
  have "provider_inv sp \<and> (\<forall>name t. sv_datasets sp name = Some t \<longrightarrow> past_dataset L past (et_dataset t))"
    if "schemas ns = Some sp" for ns sp
  proof -
    from that obtain l where l: "sf_datasets sf ns = Some l" "sp = schema_provider_new ipc_schema ns l"
      by (auto simp: schemas)
    note facts = past_view_dataset [OF assms(1,2) l(1)]
    have "provider_inv sp" unfolding l(2) by (rule schema_provider_new_inv) (use facts(2) in blast)
    then show ?thesis using facts(1) provider_new_datasets [of ipc_schema ns l] l(2) by blast
  qed
  then show ?thesis by (simp add: session_ok_def)
qed

lemma miss_ok:
  assumes "sp_table L ipc_schema (svc_get_dataset L db) check subj name sp = (r, sp')" "provider_inv sp"
    and "\<And>n t. sv_datasets sp n = Some t \<Longrightarrow> past_dataset L past (et_dataset t)"
    and "catalog_inv db" "db \<in> set past" "uuid_codec L" "json_codec L"
  shows "provider_inv sp'" "sv_datasets sp' n = Some t \<Longrightarrow> past_dataset L past (et_dataset t)"
proof -
  have "provider_inv (snd (sp_table L ipc_schema (svc_get_dataset L db) check subj name sp))"
    by (rule catalog_service.sp_table_inv [OF catalog_service_svc [OF assms(4)] assms(2)])
  with assms(1) show "provider_inv sp'" by simp
  show "past_dataset L past (et_dataset t)" if "sv_datasets sp' n = Some t"
  proof (cases "sv_datasets sp n = Some t")
    case False
    with assms(1) that obtain proto d where proto: "svc_get_dataset L db (sv_namespace sp) name = Ok proto"
      and d: "dataset_of_proto L proto = Ok d" "et_dataset t = d"
      by (auto simp: sp_table_def Let_def split: if_splits option.splits sum.splits)
    obtain d' where d': "get_dataset L (sv_namespace sp) name db = Ok (Some d')" "proto = dataset_to_proto L d'"
      using proto by (auto simp: svc_get_Ok)
    then have "d' = d" using d(1) dataset_proto_round_trip [OF assms(6,7), of d'] by simp
    moreover have "ds_namespace d' = sv_namespace sp" "ds_name d' = name" using get_dataset_sel [OF assms(4) d'(1)] by simp_all
    ultimately show ?thesis using assms(5) d(2) d'(1) by (auto simp: past_dataset_def)
  qed (rule assms(3))
qed

lemma session_ok_miss:
  assumes "session_ok L past se" "os_schemas se ns = Some sp"
    and "sp_table L ipc_schema (svc_get_dataset L db) check (os_user se) name sp = (r, sp')"
    and "catalog_inv db" "db \<in> set past" "uuid_codec L" "json_codec L"
  shows "session_ok L past (se\<lparr>os_schemas := (os_schemas se)(ns \<mapsto> sp')\<rparr>)"
proof -
  have sp: "provider_inv sp" "\<And>n t. sv_datasets sp n = Some t \<Longrightarrow> past_dataset L past (et_dataset t)"
    using assms(1,2) by (auto simp: session_ok_def)
  show ?thesis using assms(1) miss_ok [OF assms(3) sp assms(4-7)] by (auto simp: session_ok_def)
qed

lemma scan_of_session_past:
  assumes "scan_of_session se sc" "session_ok L past se"
  shows "past_dataset L past (rs_dataset sc)"
proof -
  obtain ns sp name t projection filters limit where t: "os_schemas se ns = Some sp" "sv_datasets sp name = Some t"
    "table_scan t projection filters limit = Ok (RemoteTableScanExec sc :: unit plan)"
    using assms(1) by (auto simp: scan_of_session_def)
  then have "rs_dataset sc = et_dataset t" by (auto simp: table_scan_def and_then_Ok)
  then show ?thesis using assms(2) t by (auto simp: session_ok_def)
qed

lemma federation_move_inv:
  assumes "federation_move L scan ipc_schema D s s'" "federation_inv L e s" "uuid_codec L" "json_codec L" "df_laws D"
  shows "federation_inv L e s'"
  using assms(1,2)
proof (induction rule: federation_move.induct)
  case (central_serves srv s call)
  have "catalog_inv (catalog_of srv)"
    using central_serves by (cases call) (auto simp: federation_inv_def rpc_step_inv Let_def)
  then show ?case using central_serves.prems past_mono [where later = "[catalog_of srv]"] by (auto simp: federation_inv_def)
next
  case (refresh_asks s)
  have "past_view L (fd_past s) by_ns"
    if "load_datasets L (answer_of (svc_list_datasets L (catalog_of (fd_central s)) [])) = Ok by_ns" for by_ns
    using that load_datasets_central [OF assms(3,4), of "catalog_of (fd_central s)"] refresh_asks.prems
    by (auto simp: past_view_def federation_inv_def split: sum.splits)
  then show ?case using refresh_asks.prems by (auto simp: federation_inv_def)
next
  case (refresh_fails s status)
  then show ?case by (simp add: federation_inv_def load_datasets_def)
next
  case (refresh_installs s answer)
  then show ?case by (auto simp: federation_inv_def refresh_tick_def split: sum.split)
next
  case (session_opens s subj schemas)
  then have "session_ok L (fd_past s) \<lparr>os_user = subj, os_schemas = schemas\<rparr>"
    by (intro new_session_ok) (auto simp: federation_inv_def)
  then show ?case using session_opens.prems by (auto simp: federation_inv_def)
next
  case (table_miss s xs se ys ns sp name r sp')
  have "session_ok L (fd_past s) (se\<lparr>os_schemas := (os_schemas se)(ns \<mapsto> sp')\<rparr>)"
    by (rule session_ok_miss [OF _ _ table_miss.hyps(5)])
      (use table_miss assms(3,4) in \<open>auto simp: federation_inv_def catalog_schema_def\<close>)
  then show ?case using table_miss.prems table_miss.hyps(1) by (auto simp: federation_inv_def)
next
  case (query_runs se s p q)
  have "request_ok L (fd_past s) e (os_user se, sc)" if "sc \<in> set (plan_scans q)" for sc
  proof -
    have sc: "sc \<in> set (plan_scans p)"
      "is_visible (fd_check L s) (os_user se) (ds_namespace (rs_dataset sc)) (ds_name (rs_dataset sc))"
      using that iam_rule_scans(1) [OF assms(5) query_runs.hyps(3)] by auto
    have "past_dataset L (fd_past s) (rs_dataset sc)"
      by (rule scan_of_session_past) (use sc(1) query_runs in \<open>auto simp: federation_inv_def\<close>)
    then show ?thesis using sc(2) query_runs.prems by (simp add: request_ok_def Let_def federation_inv_def)
  qed
  then show ?case using query_runs.prems by (auto simp: federation_inv_def)
qed (auto simp: federation_inv_def)

lemma federation_moves_inv:
  assumes "(federation_move L scan ipc_schema D)\<^sup>*\<^sup>* s s'" "federation_inv L e s" "uuid_codec L" "json_codec L" "df_laws D"
  shows "federation_inv L e s'"
  using assms(1)
proof induction
  case (step s1 s2)
  then show ?case using federation_move_inv assms(3-5) by blast
qed (rule assms(2))

lemma federation_start_inv:
  assumes "federation_start L scan fresh srv calls = Ok s" "server_inv L scan srv" "uuid_codec L" "json_codec L"
  shows "federation_inv L (sf_engine (fd_factory s)) s"
proof -
  let ?srv = "run (server_step L scan) srv calls"
  have inv: "catalog_inv (catalog_of srv)" "catalog_inv (catalog_of ?srv)"
    using assms(2) server.run_keeps [OF assms(2), of calls] by (simp_all add: server_inv_def file_inv_def)
  obtain sf where sf: "session_factory_new L fresh (answer_of (svc_list_datasets L (catalog_of srv) []))
       (answer_of (svc_list_policies L scan (sf_iam (cs_db ?srv)) [])) = Ok sf"
    and s: "s = \<lparr>fd_central = ?srv, fd_factory = sf, fd_asked = None, fd_sessions = [], fd_requests = [],
             fd_past = [catalog_of srv, catalog_of ?srv]\<rparr>"
    using assms(1) by (auto simp: federation_start_def Let_def and_then_Ok)
  have "past_view L [catalog_of srv] (sf_datasets sf)"
    using sf load_datasets_central [OF assms(3,4), of "catalog_of srv"]
    by (auto simp: session_factory_new_def and_then_Ok Let_def past_view_def split: sum.splits)
  then have "past_view L [catalog_of srv, catalog_of ?srv] (sf_datasets sf)"
    using past_mono(2) [of L "[catalog_of srv]" _ "[catalog_of ?srv]"] by simp
  with inv show ?thesis by (simp add: s federation_inv_def)
qed

section \<open>The policies that were loaded\<close>

lemma server_step_no_empty [step_invs]:
  "no_empty_filters (sf_iam (cs_db srv)) \<Longrightarrow> no_empty_filters (sf_iam (cs_db (server_step L scan srv call)))"
  using iam_step_no_empty [of "server_iam srv" L scan] by (cases call) (simp_all add: Let_def)

interpretation server_filters: invariant_step "server_step L scan" "\<lambda>srv. no_empty_filters (sf_iam (cs_db srv))" for L scan
  by unfold_locales (rule server_step_no_empty)

definition disk_filters :: "disk \<Rightarrow> bool" where
  "disk_filters disk \<longleftrightarrow> (\<forall>path f. disk path = Some f \<longrightarrow> no_empty_filters (sf_iam f))"

lemma disk_filtersD: "disk_filters disk \<Longrightarrow> disk path = Some f \<Longrightarrow> no_empty_filters (sf_iam f)"
  by (simp add: disk_filters_def)

lemma db_connect_no_empty:
  assumes "migrator_ok E" "disk_inv L disk" "disk_filters disk"
    and "db_connect E url disk = (r, disk')"
  shows "disk_filters disk'" "r = Ok (path, f) \<Longrightarrow> no_empty_filters (sf_iam f)"
proof -
  have "disk_filters disk' \<and>
      (\<forall>path f. r = Ok (path, f) \<longrightarrow> no_empty_filters (sf_iam f))"
  proof (cases "st_open E url")
    case (Inr p)
    let ?f = "case disk p of None \<Rightarrow> empty_file | Some g \<Rightarrow> g"
    have "file_inv L ?f \<or> ?f = empty_file" using assms(2) by (simp add: disk_inv_def split: option.split)
    then have "st_migrate E migrations ?f = run_pending migrations ?f"
      using migratorD [OF assms(1) file_inv_applied] by blast
    moreover have "\<exists>f'. run_pending migrations ?f = (Ok (), f') \<and> no_empty_filters (sf_iam f')"
    proof (cases "disk p")
      case None
      then show ?thesis by (simp add: migrate_fresh)
    next
      case (Some g)
      then have "file_inv L g" using assms(2) by (simp add: disk_inv_def)
      then show ?thesis using migrate_file_inv [of L g] disk_filtersD [OF assms(3) Some] Some by simp
    qed
    ultimately obtain f' where f': "st_migrate E migrations ?f = (Ok (), f')" "no_empty_filters (sf_iam f')" by auto
    then have "r = Ok (p, f')" "disk' = disk(p \<mapsto> f')" using assms(4) Inr by (simp_all add: db_connect_def)
    then show ?thesis using f'(2) assms(3) by (auto simp: disk_filters_def)
  qed (use assms(3,4) in \<open>auto simp: db_connect_def\<close>)
  then show "disk_filters disk'" "r = Ok (path, f) \<Longrightarrow> no_empty_filters (sf_iam f)" by blast+
qed

lemma central_main_no_empty:
  assumes "migrator_ok E" "disk_inv L disk" "disk_filters disk"
  shows "disk_filters (snd (central_main L scan E args disk))"
    "central_main L scan E args disk = (Ok srv, disk') \<Longrightarrow> no_empty_filters (sf_iam (cs_db srv))"
proof -
  show "disk_filters (snd (central_main L scan E args disk))"
  proof (cases "central_config_load (st_build E) (st_reader E) (arg_value ''--config'' args)")
    case (Inr cfg)
    obtain r d where "db_connect E (ct_database_url cfg) disk = (r, d)" by fastforce
    with db_connect_no_empty(1) [OF assms this] Inr show ?thesis by (simp add: central_main_disk)
  qed (use assms(3) in \<open>simp add: central_main_disk\<close>)
  show "no_empty_filters (sf_iam (cs_db srv))" if main: "central_main L scan E args disk = (Ok srv, disk')"
  proof -
    obtain cfg :: central_config where
      db: "db_connect E (ct_database_url cfg) disk = (Ok (cs_path srv, cs_db srv), disk')"
      using central_main_Ok [OF main] by blast
    show ?thesis by (rule db_connect_no_empty(2) [OF assms db refl])
  qed
qed

lemma elan_disk_no_empty:
  assumes "iam_env L scan" "uuid_parse L seed_policy_id \<noteq> None" "migrator_ok E" "elan_disk L scan E disk"
  shows "disk_filters disk"
  using assms(4)
proof induction
  case (failed_start disk args e disk')
  then show ?case
    using central_main_no_empty(1) [OF assms(3) elan_disk_inv [OF assms(1-3) failed_start.hyps(1)], of scan args] by simp
next
  case (served disk args srv disk' calls)
  note inv = elan_disk_inv [OF assms(1-3) served.hyps(1)]
  have "no_empty_filters (sf_iam (cs_db (run (server_step L scan) srv calls)))"
    using central_main_no_empty(2) [OF assms(3) inv served.IH served.hyps(2)] by (rule server_filters.run_keeps)
  moreover have "disk_filters disk'"
    using central_main_no_empty(1) [OF assms(3) inv served.IH, of scan args] served.hyps(2) by simp
  ultimately show ?case by (simp add: server_stop_def disk_filters_def)
qed (simp add: disk_filters_def)

text \<open>The engine of elan-query holds the policies as they were at its start.\<close>

lemma start_visible:
  assumes "iam_env L scan" "uuid_parse L seed_policy_id \<noteq> None" "migrator_ok E" "elan_disk L scan E disk"
    and "central_main L scan E args disk = (Ok srv, disk')"
    and "federation_start L scan fresh (run (server_step L scan) srv calls0) calls = Ok s0"
  shows "is_visible (snapshot_check L (sf_engine (fd_factory s0))) \<lparr>user_id = u, groups = gs\<rparr> ns n \<longleftrightarrow>
    rows_allow L \<lparr>aq_user_id = u, aq_groups = gs, aq_namespace = ns, aq_dataset = n, aq_action = ''SELECT''\<rparr>
      (set (policy_rows (sf_iam (cs_db (run (server_step L scan) (run (server_step L scan) srv calls0) calls)))))"
proof -
  let ?srv = "run (server_step L scan) (run (server_step L scan) srv calls0) calls"
  have disk: "disk_inv L disk" using assms(1-4) by (rule elan_disk_inv)
  have "server_inv L scan ?srv"
    using central_main_inv(1) [OF assms(1-3) disk assms(5)] by (intro server.run_keeps)
  then have sync: "iam_sync L scan (server_iam ?srv)" by (simp add: server_inv_def)
  have "no_empty_filters (sf_iam (cs_db srv))"
    using central_main_no_empty(2) [OF assms(3) disk elan_disk_no_empty [OF assms(1-4)] assms(5)] .
  then have filters: "no_empty_filters (ic_db (server_iam ?srv))"
    by (simp add: server_filters.run_keeps)
  have "sf_engine (fd_factory s0) = cs_engine ?srv"
    using assms(6) load_policies_central [OF assms(1) sync filters]
    by (auto simp: federation_start_def session_factory_new_def and_then_Ok Let_def)
  then show ?thesis
    using check_access_rows [OF assms(1) sync, of "\<lparr>aq_user_id = u, aq_groups = gs, aq_namespace = ns, aq_dataset = n, aq_action = ''SELECT''\<rparr>"]
    by (simp add: svc_check_access_def is_visible_def)
qed

section \<open>Properties of the federation\<close>

lemma federation_reachable_inv:
  assumes "iam_env L scan" "json_codec L" "uuid_parse L seed_policy_id \<noteq> None" "migrator_ok E" "elan_disk L scan E disk"
    and "central_main L scan E args disk = (Ok srv, disk')"
    and "federation_start L scan fresh (run (server_step L scan) srv calls0) calls = Ok s0"
    and "df_laws D" "(federation_move L scan ipc_schema D)\<^sup>*\<^sup>* s0 s"
  shows "federation_inv L (sf_engine (fd_factory s0)) s"
proof -
  have codec: "uuid_codec L" using assms(1) by (simp add: iam_env_def)
  have "disk_inv L disk" using assms(1,3-5) by (rule elan_disk_inv)
  then have "server_inv L scan (run (server_step L scan) srv calls0)"
    using central_main_inv(1) [OF assms(1,3,4) _ assms(6)] by (intro server.run_keeps)
  then have "federation_inv L (sf_engine (fd_factory s0)) s0"
    by (rule federation_start_inv [OF assms(7) _ codec assms(2)])
  then show ?thesis
    by (rule federation_moves_inv [OF assms(9) _ codec assms(2,8)])
qed

lemma request_possible:
  fixes D :: "'n df_ops"
  assumes "se \<in> set (fd_sessions s)" "scan_of_session se sc"
    and "is_visible (fd_check L s) (os_user se) (ds_namespace (rs_dataset sc)) (ds_name (rs_dataset sc))"
  shows "federation_move L scan ipc_schema D s (s\<lparr>fd_requests := fd_requests s @ [(os_user se, sc)]\<rparr>)"
proof -
  have "iam_optimize D (elan_iam_rule (fd_check L s) (os_user se)) (RemoteTableScanExec sc) = Ok (RemoteTableScanExec sc)"
    using assms(3) by (simp add: elan_iam_rule_optimize apply_iam_scan)
  from query_runs [OF assms(1) _ this] assms(2) show ?thesis by simp
qed

text \<open>
  C3. Whatever happens between a load and a request, elan-query asks only what was allowed and where it was: in every
  interleaving of elan-central's calls, refreshes, open sessions, cache misses and queries, each request is a
  scan of a dataset exactly as elan-central's catalog had it at some moment since elan-query began to load, its executor
  included, and on which the policies stored when elan-query loaded them grant the user SELECT.
\<close>

theorem federation_requests_sound:
  assumes "iam_env L scan" "json_codec L" "uuid_parse L seed_policy_id \<noteq> None" "migrator_ok E" "elan_disk L scan E disk"
    and "central_main L scan E args disk = (Ok srv, disk')"
    and "federation_start L scan fresh (run (server_step L scan) srv calls0) calls = Ok s0"
    and "df_laws D" "(federation_move L scan ipc_schema D)\<^sup>*\<^sup>* s0 s"
    and "(\<lparr>user_id = u, groups = gs\<rparr>, sc) \<in> set (fd_requests s)"
  shows "(\<exists>db \<in> set (fd_past s). get_dataset L (ds_namespace (rs_dataset sc)) (ds_name (rs_dataset sc)) db = Ok (Some (rs_dataset sc))) \<and>
    rows_allow L \<lparr>aq_user_id = u, aq_groups = gs, aq_namespace = ds_namespace (rs_dataset sc),
                  aq_dataset = ds_name (rs_dataset sc), aq_action = ''SELECT''\<rparr>
      (set (policy_rows (sf_iam (cs_db (run (server_step L scan) (run (server_step L scan) srv calls0) calls)))))"
proof -
  have "federation_inv L (sf_engine (fd_factory s0)) s" using assms(1-9) by (rule federation_reachable_inv)
  then have "request_ok L (fd_past s) (sf_engine (fd_factory s0)) (\<lparr>user_id = u, groups = gs\<rparr>, sc)"
    using assms(10) by (simp add: federation_inv_def)
  then show ?thesis
    using start_visible [OF assms(1,3-7)] by (simp add: request_ok_def Let_def past_dataset_def)
qed

text \<open>A coordinator registers three datasets, elan-query starts, and bob queries one of them.\<close>

definition demo_fed_calls :: "central_call list" where
  "demo_fed_calls = map CatalogCall
     [Register ''t0'' \<lparr>rg_coordinator_id = ''c1'', rg_environment = ''eu'', rg_hostname = ''host-1'', rg_executor_endpoint = ''lb:50055''\<rparr>,
      RegisterDataset ''t1'' \<lparr>dg_coordinator_id = ''c1'', dg_dataset_id = ''7'', dg_name = ''customers'', dg_namespace = ''crm'',
        dg_source_type = ''csv'', dg_arrow_schema_ipc = [], dg_metadata_json = []\<rparr>,
      RegisterDataset ''t2'' \<lparr>dg_coordinator_id = ''c1'', dg_dataset_id = ''8'', dg_name = ''orders'', dg_namespace = ''crm'',
        dg_source_type = ''parquet'', dg_arrow_schema_ipc = [], dg_metadata_json = []\<rparr>,
      RegisterDataset ''t3'' \<lparr>dg_coordinator_id = ''c1'', dg_dataset_id = ''9'', dg_name = ''ledger'', dg_namespace = ''acct'',
        dg_source_type = ''delta'', dg_arrow_schema_ipc = [], dg_metadata_json = []\<rparr>]"

abbreviation demo_fed_server :: central_server where
  "demo_fed_server \<equiv> run (server_step demo_libs id) demo_server demo_fed_calls"

lemma demo_fed_server_db:
  "catalog_of demo_fed_server = demo_catalog" "sf_iam (cs_db demo_fed_server) = seeded_iam_db"
  by (simp_all add: demo_fed_calls_def rpc_step_run demo_server_def demo_file_def migrate_fresh demo_catalog_def demo_catalog_ops_def)

definition demo_fed_datasets :: "string \<rightharpoonup> dataset_info list" where
  "demo_fed_datasets = foldl push_dataset Map.empty
     [demo_dataset 9 ''acct'' ''ledger'' Delta, demo_dataset 7 ''crm'' ''customers'' Csv, demo_dataset 8 ''crm'' ''orders'' Parquet]"

definition demo_federation :: federation where
  "demo_federation =
     \<lparr>fd_central = demo_fed_server, fd_factory = \<lparr>sf_engine = ic_engine demo_central, sf_datasets = demo_fed_datasets\<rparr>,
      fd_asked = None, fd_sessions = [], fd_requests = [], fd_past = [demo_catalog, demo_catalog]\<rparr>"

lemma demo_federation_start:
  "federation_start demo_libs id (\<lambda>_. 0) demo_fed_server [] = Ok demo_federation"
proof -
  have "no_empty_filters (ic_db demo_central)" by (simp add: demo_central_def)
  from load_policies_central [OF demo_iam_env demo_central_sync this]
  have "load_iam_policies demo_libs (\<lambda>_. 0) (answer_of (svc_list_policies demo_libs id seeded_iam_db [])) = Ok (ic_engine demo_central)"
    by (simp add: demo_central_def)
  moreover have "load_datasets demo_libs (answer_of (svc_list_datasets demo_libs demo_catalog [])) = Ok demo_fed_datasets"
    using load_datasets_central [OF demo_uuid_codec demo_json_codec, of demo_catalog] by (simp add: demo_list demo_fed_datasets_def)
  ultimately show ?thesis
    by (simp add: federation_start_def session_factory_new_def demo_fed_server_db demo_federation_def)
qed

definition demo_fed_scan :: remote_scan where
  "demo_fed_scan = \<lparr>rs_dataset = demo_dataset 7 ''crm'' ''customers'' Csv, rs_schema = [], rs_pushed_filters = [], rs_limit = None\<rparr>"

definition demo_fed_session :: open_session where
  "demo_fed_session =
     \<lparr>os_user = \<lparr>user_id = ''bob'', groups = []\<rparr>,
      os_schemas = (\<lambda>ns. map_option (schema_provider_new (\<lambda>_. Ok []) ns) (demo_fed_datasets ns))\<rparr>"

lemma demo_fed_session_scan: "scan_of_session demo_fed_session demo_fed_scan"
proof -
  have crm: "demo_fed_datasets ''crm'' = Some [demo_dataset 7 ''crm'' ''customers'' Csv, demo_dataset 8 ''crm'' ''orders'' Parquet]"
    by (simp add: demo_fed_datasets_def push_dataset_def demo_dataset_def)
  let ?sp = "schema_provider_new (\<lambda>_. Ok []) ''crm'' [demo_dataset 7 ''crm'' ''customers'' Csv, demo_dataset 8 ''crm'' ''orders'' Parquet]"
  let ?t = "elan_table_of (\<lambda>_. Ok []) (demo_dataset 7 ''crm'' ''customers'' Csv)"
  have "os_schemas demo_fed_session ''crm'' = Some ?sp" by (simp add: demo_fed_session_def crm)
  moreover have "sv_datasets ?sp ''customers'' = Some ?t"
    by (simp add: schema_provider_new_def demo_dataset_def)
  moreover have "table_scan ?t None [] None = Ok (RemoteTableScanExec demo_fed_scan :: unit plan)"
    by (simp add: table_scan_def elan_table_of_def demo_fed_scan_def decode_schema_def demo_dataset_def)
  ultimately show ?thesis unfolding scan_of_session_def by blast
qed

lemma demo_fed_visible: "is_visible (fd_check demo_libs demo_federation) \<lparr>user_id = ''bob'', groups = []\<rparr> ''crm'' ''customers''"
  using check_access_rows [OF demo_iam_env demo_central_sync, of "\<lparr>aq_user_id = ''bob'', aq_groups = [], aq_namespace = ''crm'',
      aq_dataset = ''customers'', aq_action = ''SELECT''\<rparr>"] demo_central_allows
  by (simp add: svc_check_access_def is_visible_def demo_federation_def)

lemma demo_fed_opens:
  "federation_move demo_libs id (\<lambda>_. Ok []) (D :: 'n df_ops) demo_federation (demo_federation\<lparr>fd_sessions := [demo_fed_session]\<rparr>)"
proof -
  have "sx_catalogs (build_for_user demo_libs (\<lambda>_. Ok []) (fd_factory demo_federation) \<lparr>user_id = ''bob'', groups = []\<rparr> :: 'n session_context) ''elan'' =
      Some (os_schemas demo_fed_session)"
    by (simp add: build_for_user_def Let_def demo_federation_def demo_fed_session_def)
  from session_opens [OF this] show ?thesis by (simp add: demo_federation_def demo_fed_session_def)
qed

theorem federation_requests_sound_witness:
  "\<exists>s. (federation_move demo_libs id (\<lambda>_. Ok []) demo_ops)\<^sup>*\<^sup>* demo_federation s \<and>
     (\<lparr>user_id = ''bob'', groups = []\<rparr>, demo_fed_scan) \<in> set (fd_requests s) \<and>
     (\<exists>db \<in> set (fd_past s). get_dataset demo_libs ''crm'' ''customers'' db = Ok (Some (rs_dataset demo_fed_scan)))"
proof -
  let ?s1 = "demo_federation\<lparr>fd_sessions := [demo_fed_session]\<rparr>"
  let ?s2 = "?s1\<lparr>fd_requests := [(\<lparr>user_id = ''bob'', groups = []\<rparr>, demo_fed_scan)]\<rparr>"
  have step: "federation_move demo_libs id (\<lambda>_. Ok []) demo_ops ?s1 ?s2"
    using request_possible [of demo_fed_session ?s1 demo_fed_scan demo_libs id "\<lambda>_. Ok []" demo_ops] demo_fed_session_scan demo_fed_visible
    by (simp add: demo_fed_session_def demo_fed_scan_def demo_dataset_def demo_federation_def)
  have moves: "(federation_move demo_libs id (\<lambda>_. Ok []) demo_ops)\<^sup>*\<^sup>* demo_federation ?s2"
    by (intro converse_rtranclp_into_rtranclp [where r = "federation_move demo_libs id (\<lambda>_. Ok []) demo_ops", OF demo_fed_opens]
        r_into_rtranclp [where r = "federation_move demo_libs id (\<lambda>_. Ok []) demo_ops"] step)
  have "(\<exists>db \<in> set (fd_past ?s2). get_dataset demo_libs (ds_namespace (rs_dataset demo_fed_scan)) (ds_name (rs_dataset demo_fed_scan)) db =
      Ok (Some (rs_dataset demo_fed_scan)))"
    using federation_requests_sound [OF demo_iam_env demo_json_codec demo_seed(2) demo_migrator new_disk demo_central_main
        demo_federation_start demo_df_laws moves, of "''bob''" "[]" demo_fed_scan] by simp
  with moves show ?thesis by (intro exI [of _ ?s2]) (simp add: demo_fed_scan_def demo_dataset_def)
qed

lemma central_moves:
  fixes D :: "'n df_ops"
  shows "\<exists>past. (federation_move L scan ipc_schema D)\<^sup>*\<^sup>* s
    (s\<lparr>fd_central := run (server_step L scan) (fd_central s) calls, fd_past := past\<rparr>)"
proof (induction calls arbitrary: s)
  case Nil
  have "s\<lparr>fd_central := run (server_step L scan) (fd_central s) [], fd_past := fd_past s\<rparr> = s" by simp
  then show ?case by (metis rtranclp.rtrancl_refl)
next
  case (Cons x calls)
  let ?srv = "server_step L scan (fd_central s) x"
  let ?s1 = "s\<lparr>fd_central := ?srv, fd_past := fd_past s @ [catalog_of ?srv]\<rparr>"
  have step: "federation_move L scan ipc_schema D s ?s1" by (rule central_serves [OF refl])
  obtain past where "(federation_move L scan ipc_schema D)\<^sup>*\<^sup>* ?s1
      (?s1\<lparr>fd_central := run (server_step L scan) (fd_central ?s1) calls, fd_past := past\<rparr>)"
    using Cons.IH [of ?s1] by blast
  then have "(federation_move L scan ipc_schema D)\<^sup>*\<^sup>* s
      (?s1\<lparr>fd_central := run (server_step L scan) (fd_central ?s1) calls, fd_past := past\<rparr>)"
    by (rule converse_rtranclp_into_rtranclp [where r = "federation_move L scan ipc_schema D", OF step])
  then show ?case by (intro exI [of _ past]) simp
qed

text \<open>
  The background task holds the lock of the catalog client while it waits for elan-central: until its answer is there, or the
  call fails, no cache is filled, so every table that is not in a session's cache makes its query wait.
\<close>

lemma hung_refresh_blocks:
  assumes "federation_move L scan ipc_schema (D :: 'n df_ops) s s'" "fd_asked s = Some answer" "fd_asked s' = Some answer"
    and "se \<in> set (fd_sessions s')"
  shows "se \<in> set (fd_sessions s) \<or>
    os_schemas se = (\<lambda>ns. map_option (schema_provider_new ipc_schema ns) (sf_datasets (fd_factory s) ns))"
  using assms by (induction rule: federation_move.induct) (auto simp: build_for_user_def Let_def)

end
