(* ===== verification/Sql_Text.thy ===== *)
theory Sql_Text
  imports Remote_Scan
begin

text \<open>
  What the SQL text of a remote scan (\<open>build_sql\<close> and \<open>expr_to_sql\<close> of \<open>planner/remote_scan.rs\<close>) says to the
  executor that reads it. The reader here is the grammar of SQL for the statements of that shape, as a reference:
  tokens, then expressions with the precedences of SQL (\<open>OR\<close>, \<open>AND\<close>, \<open>NOT\<close>, comparison), then the statement.
  Sequences of \<open>AND\<close> and of \<open>OR\<close> are read as nested to the right; the fuel of the parser is five
  times the number of tokens.
\<close>

section \<open>Tokens\<close>

datatype token =
    LParen | RParen | Star | Minus | Comparison operator | Word string | Quoted string | Text string

definition word_char :: "char \<Rightarrow> bool" where
  "word_char c \<longleftrightarrow>
     (let n = of_char c :: nat in 48 \<le> n \<and> n \<le> 57 \<or> 65 \<le> n \<and> n \<le> 90 \<or> n = 95 \<or> 97 \<le> n \<and> n \<le> 122)"

text \<open>The rest of a quoted token: up to the delimiter, which is written twice to stand for itself.\<close>

fun quoted :: "char \<Rightarrow> string \<Rightarrow> (string \<times> string) option" where
  "quoted d [] = None"
| "quoted d [c] = (if c = d then Some ([], []) else None)"
| "quoted d (c # c' # s) =
     (if c \<noteq> d then map_option (\<lambda>(n, r). (c # n, r)) (quoted d (c' # s))
      else if c' = d then map_option (\<lambda>(n, r). (d # n, r)) (quoted d s)
      else Some ([], c' # s))"

definition symbol :: "char \<Rightarrow> string \<Rightarrow> (token \<times> string) option" where
  "symbol c s =
     (if c = CHR ''('' then Some (LParen, s)
      else if c = CHR '')'' then Some (RParen, s)
      else if c = CHR ''*'' then Some (Star, s)
      else if c = CHR ''-'' then Some (Minus, s)
      else if c = CHR ''='' then Some (Comparison Eq, s)
      else case s of
        d # s' \<Rightarrow>
          if c = CHR ''!'' then (if d = CHR ''='' then Some (Comparison NotEq, s') else None)
          else if c = CHR ''<'' then (if d = CHR ''='' then Some (Comparison LtEq, s') else Some (Comparison Lt, s))
          else if c = CHR ''>'' then (if d = CHR ''='' then Some (Comparison GtEq, s') else Some (Comparison Gt, s))
          else None
      | [] \<Rightarrow> None)"

lemma quoted_shorter: "quoted d s = Some (n, r) \<Longrightarrow> length r < length s"
  by (induction d s arbitrary: n r rule: quoted.induct) (fastforce split: if_splits)+

lemma symbol_shorter: "symbol c s = Some (t, r) \<Longrightarrow> length r < Suc (length s)"
  by (auto simp: symbol_def split: if_splits list.splits)

lemma length_dropWhile_Suc: "length (dropWhile P s) < Suc (length s)"
  using length_dropWhile_le [of P s] by simp

function lex :: "string \<Rightarrow> token list option" where
  "lex [] = Some []"
| "lex (c # s) =
     (if c = CHR '' '' then lex s
      else if word_char c then map_option ((#) (Word (c # takeWhile word_char s))) (lex (dropWhile word_char s))
      else if c = CHR 0x22 then (case quoted c s of None \<Rightarrow> None | Some (n, r) \<Rightarrow> map_option ((#) (Quoted n)) (lex r))
      else if c = CHR 0x27 then (case quoted c s of None \<Rightarrow> None | Some (n, r) \<Rightarrow> map_option ((#) (Text n)) (lex r))
      else (case symbol c s of None \<Rightarrow> None | Some (t, r) \<Rightarrow> map_option ((#) t) (lex r)))"
  by pat_completeness auto

termination
  by (relation "measure length")
    (auto simp: length_dropWhile_Suc symbol_shorter dest: quoted_shorter intro: less_SucI)

declare lex.simps(2) [simp del]

section \<open>Expressions\<close>

definition keyword :: "string \<Rightarrow> string \<Rightarrow> bool" where
  "keyword k w = (map ascii_lower w = k)"

text \<open>The keywords that the reader knows, and the words that SQL or the executor's dialect keeps for itself.\<close>

definition reader_keywords :: "string list" where
  "reader_keywords = [''select'', ''from'', ''where'', ''limit'', ''and'', ''or'', ''not'', ''true'', ''false'', ''null'']"

definition reserved_words :: "string list" where
  "reserved_words =
   [''abs'', ''absolute'', ''acos'', ''action'', ''add'', ''admin'', ''after'', ''aggregate'', ''alias'', ''all'',
    ''allocate'', ''alter'', ''analyze'', ''any'', ''are'', ''array'', ''array_agg'', ''as'', ''asc'', ''asensitive'',
    ''asin'', ''asof'', ''assertion'', ''asymmetric'', ''at'', ''atan'', ''atomic'', ''attach'', ''authorization'', ''avg'',
    ''before'', ''begin'', ''between'', ''bigint'', ''binary'', ''bit'', ''blob'', ''boolean'', ''both'', ''breadth'',
    ''by'', ''bytea'', ''call'', ''called'', ''cardinality'', ''cascade'', ''cascaded'', ''case'', ''cast'', ''catalog'',
    ''ceil'', ''ceiling'', ''char'', ''character'', ''check'', ''class'', ''classifier'', ''clob'', ''close'', ''cluster'',
    ''coalesce'', ''collate'', ''collation'', ''collect'', ''column'', ''commit'', ''completion'', ''condition'',
    ''connect'', ''connection'', ''constraint'', ''constraints'', ''constructor'', ''contains'', ''continue'', ''convert'',
    ''copy'', ''corr'', ''corresponding'', ''cos'', ''cosh'', ''count'', ''create'', ''cross'', ''cube'', ''current'',
    ''current_catalog'', ''current_date'', ''current_path'', ''current_role'', ''current_row'', ''current_schema'',
    ''current_time'', ''current_timestamp'', ''current_user'', ''cursor'', ''cycle'', ''data'', ''database'', ''date'',
    ''datetime'', ''day'', ''days'', ''deallocate'', ''dec'', ''decade'', ''decimal'', ''declare'', ''default'',
    ''deferrable'', ''deferred'', ''define'', ''delete'', ''dense_rank'', ''depth'', ''deref'', ''desc'', ''describe'',
    ''descriptor'', ''destroy'', ''destructor'', ''deterministic'', ''diagnostics'', ''dictionary'', ''disconnect'',
    ''distinct'', ''distribute'', ''div'', ''domain'', ''double'', ''drop'', ''dynamic'', ''each'', ''element'', ''else'',
    ''empty'', ''end'', ''equals'', ''escape'', ''every'', ''except'', ''exception'', ''exclude'', ''exec'', ''execute'',
    ''exists'', ''exp'', ''explain'', ''external'', ''extract'', ''fetch'', ''filter'', ''final'', ''first'', ''float'',
    ''floor'', ''for'', ''foreign'', ''found'', ''free'', ''full'', ''function'', ''fusion'', ''general'', ''get'',
    ''global'', ''glob'', ''go'', ''goto'', ''grant'', ''group'', ''grouping'', ''groups'', ''having'', ''hold'', ''hour'',
    ''hours'', ''identity'', ''ignore'', ''ilike'', ''immediate'', ''in'', ''indicator'', ''initial'', ''initialize'',
    ''initially'', ''inner'', ''inout'', ''input'', ''insensitive'', ''insert'', ''int'', ''integer'', ''intersect'',
    ''intersection'', ''interval'', ''into'', ''is'', ''isolation'', ''iterate'', ''join'', ''key'', ''lag'', ''lambda'',
    ''language'', ''large'', ''last'', ''lateral'', ''lead'', ''leading'', ''left'', ''less'', ''level'', ''like'',
    ''listagg'', ''ln'', ''local'', ''localtime'', ''localtimestamp'', ''locator'', ''log'', ''lower'', ''map'', ''match'',
    ''matches'', ''max'', ''measures'', ''member'', ''merge'', ''method'', ''microsecond'', ''millisecond'', ''min'',
    ''minus'', ''minute'', ''minutes'', ''mod'', ''modifies'', ''modify'', ''module'', ''month'', ''months'', ''multiset'',
    ''names'', ''nanosecond'', ''national'', ''natural'', ''nchar'', ''nclob'', ''new'', ''next'', ''no'', ''none'',
    ''normalize'', ''nullif'', ''numeric'', ''object'', ''octet_length'', ''of'', ''off'', ''offset'', ''old'', ''on'',
    ''one'', ''only'', ''open'', ''operation'', ''option'', ''order'', ''ordinality'', ''out'', ''outer'', ''output'',
    ''over'', ''overlaps'', ''overlay'', ''overwrite'', ''pad'', ''parameter'', ''parameters'', ''partial'', ''partition'',
    ''path'', ''pattern'', ''per'', ''percent'', ''percent_rank'', ''period'', ''pivot'', ''placing'', ''portion'',
    ''position'', ''postfix'', ''power'', ''precedes'', ''precision'', ''prefix'', ''preorder'', ''prepare'', ''preserve'',
    ''primary'', ''prior'', ''privileges'', ''procedure'', ''public'', ''qualify'', ''quarter'', ''range'', ''rank'',
    ''read'', ''reads'', ''real'', ''recursive'', ''ref'', ''references'', ''referencing'', ''regexp'', ''relative'',
    ''release'', ''replace'', ''reset'', ''respect'', ''restrict'', ''result'', ''return'', ''returning'', ''returns'',
    ''revoke'', ''right'', ''rlike'', ''role'', ''rollback'', ''rollup'', ''routine'', ''row'', ''row_number'', ''rows'',
    ''running'', ''safe_cast'', ''savepoint'', ''schema'', ''scope'', ''scroll'', ''search'', ''second'', ''seconds'',
    ''section'', ''seek'', ''semi'', ''sensitive'', ''sequence'', ''session'', ''session_user'', ''set'', ''sets'',
    ''settings'', ''show'', ''similar'', ''sin'', ''sinh'', ''size'', ''skip'', ''smallint'', ''some'', ''sort'', ''space'',
    ''specific'', ''sql'', ''sqlexception'', ''sqlstate'', ''sqlwarning'', ''sqrt'', ''start'', ''state'', ''statement'',
    ''static'', ''structure'', ''struct'', ''submultiset'', ''subset'', ''substring'', ''succeeds'', ''sum'', ''symmetric'',
    ''system'', ''system_user'', ''table'', ''tablesample'', ''tan'', ''tanh'', ''temporary'', ''terminate'', ''than'',
    ''then'', ''time'', ''timestamp'', ''timestamptz'', ''tinyint'', ''to'', ''top'', ''trailing'', ''transaction'',
    ''translate'', ''translation'', ''treat'', ''trigger'', ''trim'', ''truncate'', ''try_cast'', ''uescape'', ''under'',
    ''union'', ''unique'', ''unknown'', ''unload'', ''unnest'', ''unpivot'', ''update'', ''upper'', ''usage'', ''use'',
    ''user'', ''using'', ''uuid'', ''value'', ''values'', ''varbinary'', ''varchar'', ''variable'', ''varying'',
    ''versioning'', ''view'', ''week'', ''weeks'', ''when'', ''whenever'', ''window'', ''with'', ''within'', ''without'',
    ''work'', ''write'', ''xor'', ''year'', ''years'', ''zone'']"

definition reserved :: "string \<Rightarrow> bool" where
  "reserved w \<longleftrightarrow> map ascii_lower w \<in> set reader_keywords \<or> map ascii_lower w \<in> set reserved_words"

text \<open>A word: a number, a constant or, where it is not reserved, the name of a column without its case.\<close>

definition word_expr :: "string \<Rightarrow> expr option" where
  "word_expr w =
     (case read_nat 0 w of
        Some n \<Rightarrow> Some (Literal (ScalarInt (int n)))
      | None \<Rightarrow>
          if keyword ''true'' w then Some (Literal (ScalarBool True))
          else if keyword ''false'' w then Some (Literal (ScalarBool False))
          else if keyword ''null'' w then Some (Literal ScalarNull)
          else if reserved w then None
          else Some (Column None (map ascii_lower w)))"

datatype level = OrLevel | AndLevel | NotLevel | ComparisonLevel | Primary

definition next_keyword :: "string \<Rightarrow> token list \<Rightarrow> token list option" where
  "next_keyword k ts = (case ts of Word w # r \<Rightarrow> if keyword k w then Some r else None | _ \<Rightarrow> None)"

definition next_comparison :: "token list \<Rightarrow> (operator \<times> token list) option" where
  "next_comparison ts = (case ts of Comparison op # r \<Rightarrow> Some (op, r) | _ \<Rightarrow> None)"

fun parse_sql :: "nat \<Rightarrow> level \<Rightarrow> token list \<Rightarrow> (expr \<times> token list) option" where
  "parse_sql 0 l ts = None"
| "parse_sql (Suc n) OrLevel ts =
     Option.bind (parse_sql n AndLevel ts) (\<lambda>(a, r).
     case next_keyword ''or'' r of
       None \<Rightarrow> Some (a, r)
     | Some r1 \<Rightarrow> map_option (\<lambda>(b, r2). (BinaryExpr a Or b, r2)) (parse_sql n OrLevel r1))"
| "parse_sql (Suc n) AndLevel ts =
     Option.bind (parse_sql n NotLevel ts) (\<lambda>(a, r).
     case next_keyword ''and'' r of
       None \<Rightarrow> Some (a, r)
     | Some r1 \<Rightarrow> map_option (\<lambda>(b, r2). (BinaryExpr a And b, r2)) (parse_sql n AndLevel r1))"
| "parse_sql (Suc n) NotLevel ts =
     (case next_keyword ''not'' ts of
        None \<Rightarrow> parse_sql n ComparisonLevel ts
      | Some r \<Rightarrow> map_option (\<lambda>(a, r1). (Not a, r1)) (parse_sql n NotLevel r))"
| "parse_sql (Suc n) ComparisonLevel ts =
     Option.bind (parse_sql n Primary ts) (\<lambda>(a, r).
     case next_comparison r of
       None \<Rightarrow> Some (a, r)
     | Some (op, r1) \<Rightarrow> map_option (\<lambda>(b, r2). (BinaryExpr a op b, r2)) (parse_sql n Primary r1))"
| "parse_sql (Suc n) Primary ts =
     (case ts of
        LParen # r \<Rightarrow> (case parse_sql n OrLevel r of Some (e, RParen # r') \<Rightarrow> Some (e, r') | _ \<Rightarrow> None)
      | Quoted c # r \<Rightarrow> Some (Column None c, r)
      | Text s # r \<Rightarrow> Some (Literal (ScalarUtf8 s), r)
      | Minus # Word w # r \<Rightarrow> map_option (\<lambda>k. (Literal (ScalarInt (- int k)), r)) (read_nat 0 w)
      | Word w # r \<Rightarrow> map_option (\<lambda>e. (e, r)) (word_expr w)
      | _ \<Rightarrow> None)"

section \<open>The statement\<close>

record select_statement =
  sel_table :: string
  sel_where :: "expr option"
  sel_limit :: "nat option"

definition read_limit :: "token list \<Rightarrow> nat option option" where
  "read_limit ts =
     (case next_keyword ''limit'' ts of
        Some [Word k] \<Rightarrow> map_option Some (read_nat 0 k)
      | _ \<Rightarrow> if ts = [] then Some None else None)"

definition read_tail :: "string \<Rightarrow> token list \<Rightarrow> select_statement option" where
  "read_tail t ts =
     (case next_keyword ''where'' ts of
        None \<Rightarrow> map_option (\<lambda>k. \<lparr>sel_table = t, sel_where = None, sel_limit = k\<rparr>) (read_limit ts)
      | Some r \<Rightarrow>
          Option.bind (parse_sql (5 * length r + 5) OrLevel r) (\<lambda>(e, r').
          map_option (\<lambda>k. \<lparr>sel_table = t, sel_where = Some e, sel_limit = k\<rparr>) (read_limit r')))"

definition read_statement :: "string \<Rightarrow> select_statement option" where
  "read_statement s =
     (case lex s of
        Some (Word a # Star # Word b # Quoted t # r) \<Rightarrow>
          if keyword ''select'' a \<and> keyword ''from'' b then read_tail t r else None
      | _ \<Rightarrow> None)"

text \<open>
  A text that leaves no room for another reading: every word in it is one of the reader's keywords or a number below
  \<open>2 ^ 63\<close>, so every name is a quoted one.
\<close>

definition plain_token :: "token \<Rightarrow> bool" where
  "plain_token t =
     (case t of
        Word w \<Rightarrow> (case read_nat 0 w of Some n \<Rightarrow> n < 2 ^ 63 | None \<Rightarrow> map ascii_lower w \<in> set reader_keywords)
      | _ \<Rightarrow> True)"

definition plain_text :: "string \<Rightarrow> bool" where
  "plain_text s = (case lex s of None \<Rightarrow> False | Some ts \<Rightarrow> list_all plain_token ts)"

section \<open>Tokens of the text of an expression\<close>

text \<open>What \<open>Display\<close> of DataFusion's \<open>ScalarValue\<close> documents: a value as it is, a string without quotes.\<close>

definition int_text :: "int \<Rightarrow> string" where
  "int_text i = (if i < 0 then ''-'' @ nat_str (nat (- i)) else nat_str (nat i))"

definition display_text :: "(scalar \<Rightarrow> string) \<Rightarrow> bool" where
  "display_text text \<longleftrightarrow>
     (\<forall>s. text (ScalarUtf8 s) = s) \<and> (\<forall>i. text (ScalarInt i) = int_text i) \<and>
     text (ScalarBool True) = ''true'' \<and> text (ScalarBool False) = ''false'' \<and> text ScalarNull = ''NULL''"

definition comparison_op :: "operator \<Rightarrow> bool" where
  "comparison_op op \<longleftrightarrow> op \<in> {Eq, NotEq, Lt, LtEq, Gt, GtEq}"

definition op_token :: "operator \<Rightarrow> token" where
  "op_token op = (case op of And \<Rightarrow> Word ''AND'' | Or \<Rightarrow> Word ''OR'' | _ \<Rightarrow> Comparison op)"

fun scalar_tokens :: "scalar \<Rightarrow> token list" where
  "scalar_tokens (ScalarInt i) = (if i < 0 then [Minus, Word (nat_str (nat (- i)))] else [Word (nat_str (nat i))])"
| "scalar_tokens (ScalarBool b) = [Word (if b then ''true'' else ''false'')]"
| "scalar_tokens ScalarNull = [Word ''NULL'']"
| "scalar_tokens _ = []"

fun expr_tokens :: "expr \<Rightarrow> token list" where
  "expr_tokens (BinaryExpr l op r) = LParen # expr_tokens l @ op_token op # expr_tokens r @ [RParen]"
| "expr_tokens (Column q c) = [Quoted c]"
| "expr_tokens (Literal v) = scalar_tokens v"
| "expr_tokens (Not e) = Word ''NOT'' # LParen # expr_tokens e @ [RParen]"
| "expr_tokens (OtherExpr t) = []"

definition is_not :: "expr \<Rightarrow> bool" where
  "is_not e = (case e of Not _ \<Rightarrow> True | _ \<Rightarrow> False)"

text \<open>
  The expressions whose text reads back: no string literal, no double quote in a column's name, and no negation as the
  operand of a comparison.
\<close>

fun scalar_safe :: "scalar \<Rightarrow> bool" where
  "scalar_safe (ScalarUtf8 s) = False"
| "scalar_safe (ScalarOther s) = False"
| "scalar_safe v = True"

fun sql_safe :: "expr \<Rightarrow> bool" where
  "sql_safe (BinaryExpr l op r) \<longleftrightarrow>
     sql_safe l \<and> sql_safe r \<and> operator_sql op \<noteq> None \<and> (comparison_op op \<longrightarrow> \<not> is_not l \<and> \<not> is_not r)"
| "sql_safe (Column q c) \<longleftrightarrow> CHR 0x22 \<notin> set c"
| "sql_safe (Literal v) \<longleftrightarrow> scalar_safe v"
| "sql_safe (Not e) \<longleftrightarrow> sql_safe e"
| "sql_safe (OtherExpr t) \<longleftrightarrow> False"

text \<open>Its integers are below \<open>2 ^ 63\<close> and above \<open>- 2 ^ 63\<close>.\<close>

fun small_ints :: "expr \<Rightarrow> bool" where
  "small_ints (BinaryExpr l op r) \<longleftrightarrow> small_ints l \<and> small_ints r"
| "small_ints (Column q c) \<longleftrightarrow> True"
| "small_ints (Literal v) \<longleftrightarrow> (case v of ScalarInt i \<Rightarrow> \<bar>i\<bar> < 2 ^ 63 | _ \<Rightarrow> True)"
| "small_ints (Not e) \<longleftrightarrow> small_ints e"
| "small_ints (OtherExpr t) \<longleftrightarrow> True"

text \<open>The text names columns without their relation.\<close>

fun unqualified :: "expr \<Rightarrow> expr" where
  "unqualified (BinaryExpr l op r) = BinaryExpr (unqualified l) op (unqualified r)"
| "unqualified (Column q c) = Column None c"
| "unqualified (Literal v) = Literal v"
| "unqualified (Not e) = Not (unqualified e)"
| "unqualified (OtherExpr t) = OtherExpr t"

section \<open>Lexing what was printed\<close>

lemma lex_space [simp]: "lex (CHR '' '' # s) = lex s"
  by (simp add: lex.simps(2))

lemma word_char_cases [simp]:
  "word_char CHR '' '' = False" "word_char CHR ''('' = False" "word_char CHR '')'' = False" "word_char CHR ''*'' = False"
  "word_char CHR ''-'' = False" "word_char CHR ''='' = False" "word_char CHR ''!'' = False" "word_char CHR ''<'' = False"
  "word_char CHR ''>'' = False" "word_char CHR 0x22 = False"
  by (simp_all add: word_char_def)

lemma lex_symbols [simp]:
  "lex (CHR ''('' # s) = map_option ((#) LParen) (lex s)"
  "lex (CHR '')'' # s) = map_option ((#) RParen) (lex s)"
  "lex (CHR ''*'' # s) = map_option ((#) Star) (lex s)"
  "lex (CHR ''-'' # s) = map_option ((#) Minus) (lex s)"
  by (simp_all add: lex.simps(2) symbol_def)

text \<open>What may follow a word or a quoted name: the end, a space or a closing parenthesis.\<close>

definition boundary :: "string \<Rightarrow> bool" where
  "boundary s \<longleftrightarrow> s = [] \<or> hd s = CHR '' '' \<or> hd s = CHR '')''"

lemma boundary_simps [simp]:
  "boundary []" "boundary (c # s) \<longleftrightarrow> c = CHR '' '' \<or> c = CHR '')''"
  by (simp_all add: boundary_def)

lemma lex_word:
  assumes "w \<noteq> []" "\<forall>c \<in> set w. word_char c" "boundary s"
  shows "lex (w @ s) = map_option ((#) (Word w)) (lex s)"
proof -
  obtain c w' where w: "w = c # w'" using assms(1) by (cases w) auto
  have "s = [] \<or> \<not> word_char (hd s)" using assms(3) by (auto simp: boundary_def)
  then have "takeWhile word_char (w' @ s) = w'" "dropWhile word_char (w' @ s) = s"
    using assms(2) w by (cases s; simp)+
  moreover have "c \<noteq> CHR '' ''" "word_char c" using assms(2) w by auto
  ultimately show ?thesis by (simp add: w lex.simps(2))
qed

lemma quoted_name: "d \<notin> set n \<Longrightarrow> s = [] \<or> hd s \<noteq> d \<Longrightarrow> quoted d (n @ d # s) = Some (n, s)"
proof (induction n)
  case Nil
  then show ?case by (cases s) auto
next
  case (Cons c n)
  then show ?case by (cases "n @ d # s") auto
qed

lemma lex_quoted:
  assumes "CHR 0x22 \<notin> set n" "boundary s"
  shows "lex (CHR 0x22 # n @ CHR 0x22 # s) = map_option ((#) (Quoted n)) (lex s)"
proof -
  have "quoted CHR 0x22 (n @ CHR 0x22 # s) = Some (n, s)"
    using assms by (intro quoted_name) (auto simp: boundary_def)
  then show ?thesis by (simp add: lex.simps(2))
qed

lemma digit_word_char: "n < 10 \<Longrightarrow> word_char (digit_char n)"
  by (simp add: word_char_def of_char_digit_char Let_def)

lemma lex_nat: "boundary s \<Longrightarrow> lex (nat_str n @ s) = map_option ((#) (Word (nat_str n))) (lex s)"
  by (rule lex_word) (auto dest: nat_str_chars simp: digit_word_char)

lemma lex_constants:
  assumes "boundary s"
  shows "lex (''true'' @ s) = map_option ((#) (Word ''true'')) (lex s)"
    "lex (''false'' @ s) = map_option ((#) (Word ''false'')) (lex s)"
    "lex (''NULL'' @ s) = map_option ((#) (Word ''NULL'')) (lex s)"
  by (rule lex_word [OF _ _ assms]; simp add: word_char_def)+

lemma lex_keywords [simp]:
  "lex (CHR ''N'' # CHR ''O'' # CHR ''T'' # CHR '' '' # s) = map_option ((#) (Word ''NOT'')) (lex s)"
  "lex (CHR ''S'' # CHR ''E'' # CHR ''L'' # CHR ''E'' # CHR ''C'' # CHR ''T'' # CHR '' '' # s) = map_option ((#) (Word ''SELECT'')) (lex s)"
  "lex (CHR ''F'' # CHR ''R'' # CHR ''O'' # CHR ''M'' # CHR '' '' # s) = map_option ((#) (Word ''FROM'')) (lex s)"
  "lex (CHR ''W'' # CHR ''H'' # CHR ''E'' # CHR ''R'' # CHR ''E'' # CHR '' '' # s) = map_option ((#) (Word ''WHERE'')) (lex s)"
  "lex (CHR ''L'' # CHR ''I'' # CHR ''M'' # CHR ''I'' # CHR ''T'' # CHR '' '' # s) = map_option ((#) (Word ''LIMIT'')) (lex s)"
  "lex (CHR ''A'' # CHR ''N'' # CHR ''D'' # CHR '' '' # s) = map_option ((#) (Word ''AND'')) (lex s)"
  using lex_word [of "''NOT''" "CHR '' '' # s"] lex_word [of "''SELECT''" "CHR '' '' # s"] lex_word [of "''FROM''" "CHR '' '' # s"]
     lex_word [of "''WHERE''" "CHR '' '' # s"] lex_word [of "''LIMIT''" "CHR '' '' # s"] lex_word [of "''AND''" "CHR '' '' # s"]
  by (simp_all add: word_char_def)

lemma lex_op:
  assumes "operator_sql op = Some t"
  shows "lex (t @ CHR '' '' # s) = map_option ((#) (op_token op)) (lex s)"
  using assms lex_word [of "''AND''" "CHR '' '' # s"] lex_word [of "''OR''" "CHR '' '' # s"]
  by (cases op) (auto simp: operator_sql_def op_token_def lex.simps(2) symbol_def word_char_def)

lemma lex_scalar:
  assumes "display_text text" "scalar_safe v" "boundary s"
  shows "lex (text v @ s) = map_option ((@) (scalar_tokens v)) (lex s)"
proof -
  have "map_option ((@) [t]) = map_option ((#) t)" for t :: token by (rule arg_cong [where f = map_option]) auto
  moreover have "map_option ((@) [t, u]) x = map_option ((#) t) (map_option ((#) u) x)" for t u :: token and x
    by (cases x) auto
  ultimately show ?thesis
    using assms lex_constants [OF assms(3)] lex_nat [OF assms(3)]
    by (cases v) (auto simp: display_text_def int_text_def)
qed

lemma lex_expr:
  assumes "display_text text"
  shows "sql_safe e \<Longrightarrow> expr_to_sql text e = Some t \<Longrightarrow> boundary s \<Longrightarrow> lex (t @ s) = map_option ((@) (expr_tokens e)) (lex s)"
proof (induction e arbitrary: t s)
  case (BinaryExpr l op r)
  from BinaryExpr.prems(2) obtain tl to tr where
    t: "expr_to_sql text l = Some tl" "expr_to_sql text r = Some tr" "operator_sql op = Some to"
      "t = ''('' @ tl @ '' '' @ to @ '' '' @ tr @ '')''"
    by (auto simp: bind_eq_Some_conv)
  then have "lex (t @ s) = map_option ((#) LParen) (lex (tl @ CHR '' '' # to @ CHR '' '' # tr @ CHR '')'' # s))" by simp
  also have "\<dots> = map_option ((#) LParen) (map_option ((@) (expr_tokens l)) (lex (to @ CHR '' '' # tr @ CHR '')'' # s)))"
    using BinaryExpr.IH(1) [OF _ t(1)] BinaryExpr.prems(1) by simp
  also have "\<dots> = map_option ((#) LParen) (map_option ((@) (expr_tokens l)) (map_option ((#) (op_token op))
      (map_option ((@) (expr_tokens r)) (map_option ((#) RParen) (lex s)))))"
    using lex_op [OF t(3)] BinaryExpr.IH(2) [OF _ t(2)] BinaryExpr.prems(1) by simp
  finally show ?case by (simp add: option.map_comp o_def)
next
  case (Column q c)
  then show ?case using lex_quoted [of c s] by (auto simp: append_eq_Cons_conv cong: option.map_cong)
next
  case (Literal v)
  then show ?case using lex_scalar [OF assms] by auto
next
  case (Not e)
  from Not.prems(2) obtain ti where t: "expr_to_sql text e = Some ti" "t = ''NOT ('' @ ti @ '')''"
    by (auto simp: bind_eq_Some_conv)
  have "lex (t @ s) = map_option ((#) (Word ''NOT'')) (lex (CHR ''('' # ti @ CHR '')'' # s))"
    using lex_keywords(1) [of "CHR ''('' # ti @ CHR '')'' # s"] t(2) by simp
  also have "\<dots> = map_option ((#) (Word ''NOT'')) (map_option ((#) LParen) (map_option ((@) (expr_tokens e))
      (map_option ((#) RParen) (lex s))))"
    using Not.IH [OF _ t(1)] Not.prems(1) by simp
  finally show ?case by (simp add: option.map_comp o_def)
qed auto

section \<open>Parsing what was printed\<close>

lemma keyword_simps [simp]:
  "keyword ''not'' ''NOT''" "keyword ''and'' ''AND''" "keyword ''or'' ''OR''" "keyword ''where'' ''WHERE''"
  "keyword ''limit'' ''LIMIT''" "keyword ''select'' ''SELECT''" "keyword ''from'' ''FROM''" "keyword ''true'' ''true''"
  "keyword ''false'' ''false''" "keyword ''null'' ''NULL''"
  "\<not> keyword ''and'' ''OR''" "\<not> keyword ''or'' ''AND''" "\<not> keyword ''and'' ''LIMIT''" "\<not> keyword ''or'' ''LIMIT''"
  "\<not> keyword ''where'' ''LIMIT''" "\<not> keyword ''not'' ''true''" "\<not> keyword ''not'' ''false''" "\<not> keyword ''not'' ''NULL''"
  "\<not> keyword ''true'' ''false''" "\<not> keyword ''true'' ''NULL''" "\<not> keyword ''false'' ''NULL''"
  by (simp_all add: keyword_def ascii_lower_def char_of_conv)

lemma keyword_nat_str [simp]: "\<not> keyword ''not'' (nat_str n)"
proof
  assume k: "keyword ''not'' (nat_str n)"
  obtain c cs where s: "nat_str n = c # cs" by (cases "nat_str n") auto
  then obtain d where "d < 10" "c = digit_char d" using nat_str_chars [of c n] by auto
  then have "ascii_lower c = c" by (simp add: ascii_lower_def of_char_digit_char)
  with k s have "c = CHR ''n''" by (simp add: keyword_def)
  then have "(of_char c :: nat) = 110" by simp
  with \<open>d < 10\<close> \<open>c = digit_char d\<close> of_char_digit_char [of d] show False by simp
qed

lemma read_nat_constants [simp]:
  "read_nat 0 ''true'' = None" "read_nat 0 ''false'' = None" "read_nat 0 ''NULL'' = None"
  by (simp_all add: char_digit_def)

declare read_nat.simps [simp del]

lemma word_expr_simps [simp]:
  "word_expr (nat_str n) = Some (Literal (ScalarInt (int n)))"
  "word_expr ''true'' = Some (Literal (ScalarBool True))" "word_expr ''false'' = Some (Literal (ScalarBool False))"
  "word_expr ''NULL'' = Some (Literal ScalarNull)"
  by (simp_all add: word_expr_def)

text \<open>Fuel enough for \<open>k\<close> levels down.\<close>

lemma fuel_Suc: "Suc k \<le> n \<Longrightarrow> \<exists>m. n = Suc m \<and> k \<le> m"
  by (cases n) auto

lemma next_simps [simp]:
  "next_keyword k (Word w # r) = (if keyword k w then Some r else None)" "next_keyword k [] = None"
  "next_keyword k (RParen # r) = None" "next_keyword k (LParen # r) = None" "next_keyword k (Comparison op # r) = None"
  "next_keyword k (Quoted c # r) = None" "next_keyword k (Minus # r) = None"
  "next_comparison (Comparison op # r) = Some (op, r)" "next_comparison [] = None" "next_comparison (RParen # r) = None"
  "next_comparison (Word w # r) = None"
  by (simp_all add: next_keyword_def next_comparison_def)

lemma next_not_tokens: "sql_safe e \<Longrightarrow> \<not> is_not e \<Longrightarrow> next_keyword ''not'' (expr_tokens e @ r) = None"
proof (cases e)
  case (Literal v)
  then show "sql_safe e \<Longrightarrow> next_keyword ''not'' (expr_tokens e @ r) = None" by (cases v) auto
qed (auto simp: is_not_def)

text \<open>
  An expression that is no negation is read at the level of primary expressions, and any one at the level of
  \<open>NOT\<close> where no comparison follows.
\<close>

definition reads_primary :: "expr \<Rightarrow> bool" where
  "reads_primary e \<longleftrightarrow>
     (\<forall>n r. 5 * length (expr_tokens e) \<le> n \<longrightarrow> parse_sql n Primary (expr_tokens e @ r) = Some (unqualified e, r))"

definition reads_not :: "expr \<Rightarrow> bool" where
  "reads_not e \<longleftrightarrow>
     (\<forall>n r. 5 * length (expr_tokens e) + 2 \<le> n \<longrightarrow> next_comparison r = None \<longrightarrow>
        parse_sql n NotLevel (expr_tokens e @ r) = Some (unqualified e, r))"

lemma reads_primary_not:
  assumes "sql_safe e" "\<not> is_not e" "reads_primary e"
  shows "reads_not e"
  unfolding reads_not_def
proof (intro allI impI)
  fix n r assume n: "5 * length (expr_tokens e) + 2 \<le> n" and r: "next_comparison r = None"
  obtain m where m: "n = Suc (Suc m)" "5 * length (expr_tokens e) \<le> m"
    using n by (metis Suc_le_D add_2_eq_Suc' Suc_le_mono)
  with assms(3) have "parse_sql m Primary (expr_tokens e @ r) = Some (unqualified e, r)" by (simp add: reads_primary_def)
  then show "parse_sql n NotLevel (expr_tokens e @ r) = Some (unqualified e, r)"
    using r by (simp add: m(1) next_not_tokens [OF assms(1,2)])
qed

lemma reads_or_paren:
  assumes "reads_not e" "5 * length (expr_tokens e) + 4 \<le> n"
  shows "parse_sql n OrLevel (expr_tokens e @ RParen # r) = Some (unqualified e, RParen # r)"
proof -
  obtain m where m: "n = Suc (Suc m)" "5 * length (expr_tokens e) + 2 \<le> m"
    using assms(2) by (cases n; simp; rename_tac k, case_tac k; simp)
  with assms(1) have "parse_sql m NotLevel (expr_tokens e @ RParen # r) = Some (unqualified e, RParen # r)"
    by (simp add: reads_not_def)
  then show ?thesis by (simp add: m(1))
qed

lemma peel: "Suc k \<le> n \<Longrightarrow> (\<And>m. n = Suc m \<Longrightarrow> k \<le> m \<Longrightarrow> thesis) \<Longrightarrow> thesis"
  by (cases n) auto

lemma reads_binary:
  assumes "sql_safe (BinaryExpr l op r)" "reads_not l" "reads_not r"
    and "comparison_op op \<Longrightarrow> reads_primary l \<and> reads_primary r"
  shows "reads_primary (BinaryExpr l op r)"
  unfolding reads_primary_def
proof (intro allI impI)
  fix n rest assume "5 * length (expr_tokens (BinaryExpr l op r)) \<le> n"
  then have "Suc (Suc (Suc (Suc (Suc (5 * length (expr_tokens l) + 5 * length (expr_tokens r) + 10))))) \<le> n" by simp
  then obtain m where n: "n = Suc (Suc (Suc (Suc (Suc m))))" and m: "5 * length (expr_tokens l) + 5 * length (expr_tokens r) + 10 \<le> m"
    by (elim peel) blast
  let ?rest = "expr_tokens r @ RParen # rest"
  have left: "parse_sql k NotLevel (expr_tokens l @ Word w # ?rest) = Some (unqualified l, Word w # ?rest)"
    if "m \<le> k" for k w
    using assms(2) m that by (simp add: reads_not_def)
  have right: "parse_sql k OrLevel ?rest = Some (unqualified r, RParen # rest)" if "m \<le> k" for k
    using assms(3) m that by (intro reads_or_paren) simp_all
  consider (cmp) "comparison_op op" "op_token op = Comparison op" | (conj) "op = And" | (disj) "op = Or"
    using assms(1) by (cases op) (auto simp: operator_sql_def comparison_op_def op_token_def)
  then have "parse_sql (Suc (Suc (Suc (Suc m)))) OrLevel (expr_tokens l @ op_token op # ?rest) =
      Some (BinaryExpr (unqualified l) op (unqualified r), RParen # rest)"
  proof cases
    case cmp
    have "sql_safe l" "\<not> is_not l" using assms(1) cmp(1) by simp_all
    then show ?thesis
      using assms(4) [OF cmp(1)] m by (simp add: cmp(2) reads_primary_def next_not_tokens)
  next
    case conj
    have not: "parse_sql (Suc m) NotLevel ?rest = Some (unqualified r, RParen # rest)"
      using assms(3) m by (simp add: reads_not_def del: parse_sql.simps)
    have "parse_sql (Suc (Suc m)) AndLevel ?rest = Some (unqualified r, RParen # rest)"
      by (simp only: parse_sql.simps(3) [of "Suc m"] not) simp
    with left [of "Suc (Suc m)"] show ?thesis by (simp only: parse_sql.simps conj op_token_def operator.case) simp
  next
    case disj
    with left [of "Suc (Suc m)"] right [of "Suc (Suc (Suc m))"] show ?thesis
      by (simp only: parse_sql.simps disj op_token_def operator.case) simp
  qed
  then show "parse_sql n Primary (expr_tokens (BinaryExpr l op r) @ rest) = Some (unqualified (BinaryExpr l op r), rest)"
    by (simp add: n)
qed

lemma reads_negation:
  assumes "reads_not e"
  shows "reads_not (Not e)"
  unfolding reads_not_def
proof (intro allI impI)
  fix n r assume "5 * length (expr_tokens (Not e)) + 2 \<le> n" and r: "next_comparison r = None"
  then have "Suc (Suc (Suc (Suc (5 * length (expr_tokens e) + 4)))) \<le> n" by simp
  then obtain m where n: "n = Suc (Suc (Suc (Suc m)))" "5 * length (expr_tokens e) + 4 \<le> m" by (elim peel) blast
  have "parse_sql m OrLevel (expr_tokens e @ RParen # r) = Some (unqualified e, RParen # r)"
    using reads_or_paren [OF assms n(2)] .
  then show "parse_sql n NotLevel (expr_tokens (Not e) @ r) = Some (unqualified (Not e), r)"
    using r by (simp add: n(1))
qed

lemma reads_literal:
  assumes "scalar_safe v"
  shows "reads_primary (Literal v)"
  unfolding reads_primary_def
proof (intro allI impI)
  fix n r assume "5 * length (expr_tokens (Literal v)) \<le> n"
  moreover have "expr_tokens (Literal v) \<noteq> []" using assms by (cases v) auto
  ultimately obtain m where n: "n = Suc m" by (cases n) auto
  show "parse_sql n Primary (expr_tokens (Literal v) @ r) = Some (unqualified (Literal v), r)"
    using assms by (cases v) (auto simp: n)
qed

lemma reads_column: "reads_primary (Column q c)"
  unfolding reads_primary_def
proof (intro allI impI)
  fix n r assume "5 * length (expr_tokens (Column q c)) \<le> n"
  then obtain m where "n = Suc m" by (cases n) auto
  then show "parse_sql n Primary (expr_tokens (Column q c) @ r) = Some (unqualified (Column q c), r)" by simp
qed

lemma reads_expr: "sql_safe e \<Longrightarrow> reads_not e \<and> (\<not> is_not e \<longrightarrow> reads_primary e)"
proof (induction e)
  case (BinaryExpr l op r)
  then have "reads_primary (BinaryExpr l op r)" by (intro reads_binary) auto
  with BinaryExpr.prems show ?case using reads_primary_not by (simp add: is_not_def)
next
  case (Column q c)
  then show ?case using reads_column reads_primary_not by (simp add: is_not_def)
next
  case (Literal v)
  then show ?case using reads_literal reads_primary_not by (simp add: is_not_def)
next
  case (Not e)
  then show ?case using reads_negation by (simp add: is_not_def)
qed simp

section \<open>The whole statement\<close>

fun conj_expr :: "expr list \<Rightarrow> expr" where
  "conj_expr [] = Literal (ScalarBool True)"
| "conj_expr [e] = e"
| "conj_expr (e # e' # es) = BinaryExpr e And (conj_expr (e' # es))"

fun conj_tokens :: "expr list \<Rightarrow> token list" where
  "conj_tokens [] = []"
| "conj_tokens [e] = expr_tokens e"
| "conj_tokens (e # e' # es) = expr_tokens e @ Word ''AND'' # conj_tokens (e' # es)"

lemma lex_conj:
  assumes "display_text text"
  shows "es \<noteq> [] \<Longrightarrow> (\<And>e. e \<in> set es \<Longrightarrow> sql_safe e \<and> expr_to_sql text e = Some (tx e)) \<Longrightarrow> boundary s \<Longrightarrow>
    lex (str_join '' AND '' (map tx es) @ s) = map_option ((@) (conj_tokens es)) (lex s)"
proof (induction es rule: conj_tokens.induct)
  case (2 e)
  then show ?case using lex_expr [OF assms, of e "tx e" s] by simp
next
  case (3 e e' es)
  let ?rest = "str_join '' AND '' (map tx (e' # es)) @ s"
  have e: "sql_safe e" "expr_to_sql text e = Some (tx e)" using "3.prems"(2) [of e] by simp_all
  have "lex (str_join '' AND '' (map tx (e # e' # es)) @ s) = lex (tx e @ CHR '' '' # ''AND '' @ ?rest)" by simp
  also have "\<dots> = map_option ((@) (expr_tokens e)) (lex (CHR '' '' # ''AND '' @ ?rest))"
    by (rule lex_expr [OF assms e]) simp
  also have "\<dots> = map_option ((@) (expr_tokens e)) (map_option ((#) (Word ''AND'')) (lex ?rest))" by simp
  also have "\<dots> = map_option ((@) (expr_tokens e)) (map_option ((#) (Word ''AND'')) (map_option ((@) (conj_tokens (e' # es))) (lex s)))"
    using "3.IH" "3.prems" by simp
  finally show ?case by (simp add: option.map_comp o_def)
qed simp

lemma parse_conj:
  assumes "next_comparison r = None" "next_keyword ''and'' r = None"
  shows "es \<noteq> [] \<Longrightarrow> (\<And>e. e \<in> set es \<Longrightarrow> sql_safe e) \<Longrightarrow> 5 * length (conj_tokens es) + 3 \<le> n \<Longrightarrow>
    parse_sql n AndLevel (conj_tokens es @ r) = Some (conj_expr (map unqualified es), r)"
proof (induction es arbitrary: n rule: conj_tokens.induct)
  case (2 e)
  then have "Suc (5 * length (expr_tokens e) + 2) \<le> n" by simp
  then obtain m where m: "n = Suc m" "5 * length (expr_tokens e) + 2 \<le> m" by (elim peel)
  then have "parse_sql m NotLevel (expr_tokens e @ r) = Some (unqualified e, r)"
    using reads_expr [of e] "2.prems"(2) assms(1) by (simp add: reads_not_def del: parse_sql.simps)
  then show ?case using assms(2) by (simp add: m(1))
next
  case (3 e e' es)
  then have "Suc (5 * length (expr_tokens e) + 5 * length (conj_tokens (e' # es)) + 7) \<le> n" by simp
  then obtain m where m: "n = Suc m" "5 * length (expr_tokens e) + 5 * length (conj_tokens (e' # es)) + 7 \<le> m" by (elim peel)
  have "parse_sql m NotLevel (expr_tokens e @ Word ''AND'' # conj_tokens (e' # es) @ r) =
      Some (unqualified e, Word ''AND'' # conj_tokens (e' # es) @ r)"
    using reads_expr [of e] "3.prems"(2) m(2) by (simp add: reads_not_def del: parse_sql.simps)
  moreover have "parse_sql m AndLevel (conj_tokens (e' # es) @ r) = Some (conj_expr (map unqualified (e' # es)), r)"
    using "3.IH" [of m] "3.prems"(2) m(2) by simp
  ultimately show ?case by (simp add: m(1))
qed simp

definition limit_tokens :: "64 word option \<Rightarrow> token list" where
  "limit_tokens l = (case l of None \<Rightarrow> [] | Some k \<Rightarrow> [Word ''LIMIT'', Word (nat_str (unat k))])"

definition limit_text :: "64 word option \<Rightarrow> string" where
  "limit_text l = (case l of None \<Rightarrow> [] | Some k \<Rightarrow> '' LIMIT '' @ nat_str (unat k))"

lemma lex_limit: "lex (limit_text l) = Some (limit_tokens l)"
  using lex_nat [of "[]"] by (simp add: limit_text_def limit_tokens_def split: option.split)

lemma read_limit_tokens [simp]: "read_limit (limit_tokens l) = Some (map_option unat l)"
  by (simp add: read_limit_def limit_tokens_def split: option.split)

lemma limit_stops [simp]:
  "boundary (limit_text l)" "next_comparison (limit_tokens l) = None" "next_keyword ''and'' (limit_tokens l) = None"
  "next_keyword ''or'' (limit_tokens l) = None" "next_keyword ''where'' (limit_tokens l) = None"
  by (simp_all add: limit_text_def limit_tokens_def split: option.split)

text \<open>The filters that have a text, in their order, and the condition of the statement.\<close>

definition sent_filters :: "(scalar \<Rightarrow> string) \<Rightarrow> remote_scan \<Rightarrow> expr list" where
  "sent_filters text sc = filter (\<lambda>e. expr_to_sql text e \<noteq> None) (rs_pushed_filters sc)"

definition sent_condition :: "(scalar \<Rightarrow> string) \<Rightarrow> remote_scan \<Rightarrow> expr option" where
  "sent_condition text sc =
     (if sent_filters text sc = [] then None else Some (conj_expr (map unqualified (sent_filters text sc))))"

lemma build_sql_text:
  "build_sql text sc =
     ''SELECT * FROM '' @ dquote @ ds_name (rs_dataset sc) @ dquote @
     (if sent_filters text sc = [] then []
      else '' WHERE '' @ str_join '' AND '' (map (\<lambda>e. the (expr_to_sql text e)) (sent_filters text sc))) @
     limit_text (rs_limit sc)"
proof -
  have "List.map_filter (expr_to_sql text) (rs_pushed_filters sc) = map (\<lambda>e. the (expr_to_sql text e)) (sent_filters text sc)"
    by (simp add: List.map_filter_def sent_filters_def o_def)
  moreover have "sent_filters text sc = [] \<Longrightarrow> rs_pushed_filters sc = [] \<or> sent_filters text sc = []" by blast
  ultimately show ?thesis
    by (auto simp: build_sql_def Let_def limit_text_def sent_filters_def split: option.split)
qed

lemma read_conj_tail:
  assumes "es \<noteq> []" "\<And>e. e \<in> set es \<Longrightarrow> sql_safe e"
  shows "read_tail t (Word ''WHERE'' # conj_tokens es @ limit_tokens l) =
    Some \<lparr>sel_table = t, sel_where = Some (conj_expr (map unqualified es)), sel_limit = map_option unat l\<rparr>"
proof -
  have "parse_sql n OrLevel (conj_tokens es @ limit_tokens l) = Some (conj_expr (map unqualified es), limit_tokens l)"
    if "Suc (5 * length (conj_tokens es) + 3) \<le> n" for n
  proof -
    from that obtain m where m: "n = Suc m" "5 * length (conj_tokens es) + 3 \<le> m" by (elim peel)
    have "parse_sql m AndLevel (conj_tokens es @ limit_tokens l) = Some (conj_expr (map unqualified es), limit_tokens l)"
      using assms m(2) by (intro parse_conj) simp_all
    then show ?thesis by (simp add: m(1))
  qed
  from this [of "5 * length (conj_tokens es @ limit_tokens l) + 5"] show ?thesis by (simp add: read_tail_def)
qed

lemma read_select:
  assumes "CHR 0x22 \<notin> set t" "boundary s" "lex s = Some ts"
  shows "read_statement (''SELECT * FROM '' @ dquote @ t @ dquote @ s) = read_tail t ts"
  using lex_quoted [OF assms(1,2)] assms(3) by (simp add: read_statement_def)

section \<open>Properties of the text\<close>

text \<open>The tokens of the text of a scan.\<close>

lemma scan_tail_tokens:
  assumes "display_text text" "\<And>e. e \<in> set (sent_filters text sc) \<Longrightarrow> sql_safe e" "sent_filters text sc \<noteq> []"
  shows "lex ('' WHERE '' @ str_join '' AND '' (map (\<lambda>e. the (expr_to_sql text e)) (sent_filters text sc)) @ limit_text (rs_limit sc)) =
    Some (Word ''WHERE'' # conj_tokens (sent_filters text sc) @ limit_tokens (rs_limit sc))"
proof -
  have "lex (str_join '' AND '' (map (\<lambda>e. the (expr_to_sql text e)) (sent_filters text sc)) @ limit_text (rs_limit sc)) =
      Some (conj_tokens (sent_filters text sc) @ limit_tokens (rs_limit sc))"
    using lex_conj [OF assms(1,3), of "\<lambda>e. the (expr_to_sql text e)" "limit_text (rs_limit sc)"] assms(2) lex_limit
    by (auto simp: sent_filters_def)
  then show ?thesis by simp
qed

lemma plain_words [simp]:
  "plain_token (Word ''SELECT'')" "plain_token (Word ''FROM'')" "plain_token (Word ''WHERE'')" "plain_token (Word ''LIMIT'')"
  "plain_token (Word ''AND'')" "plain_token (Word ''OR'')" "plain_token (Word ''NOT'')" "plain_token (Word ''true'')"
  "plain_token (Word ''false'')" "plain_token (Word ''NULL'')"
  "plain_token (Word (nat_str n)) \<longleftrightarrow> n < 2 ^ 63"
  by (simp_all add: plain_token_def read_nat.simps char_digit_def reader_keywords_def ascii_lower_def char_of_conv)

lemma plain_symbols [simp]:
  "plain_token LParen" "plain_token RParen" "plain_token Star" "plain_token Minus" "plain_token (Comparison op)" "plain_token (Quoted n)"
  by (simp_all add: plain_token_def)

lemma plain_expr_tokens: "sql_safe e \<Longrightarrow> small_ints e \<Longrightarrow> list_all plain_token (expr_tokens e)"
proof (induction e)
  case (BinaryExpr l op r)
  then show ?case by (cases op) (auto simp: op_token_def operator_sql_def)
next
  case (Literal v)
  then show ?case by (cases v) auto
qed auto

lemma plain_conj_tokens:
  "(\<And>e. e \<in> set es \<Longrightarrow> sql_safe e \<and> small_ints e) \<Longrightarrow> list_all plain_token (conj_tokens es)"
  by (induction es rule: conj_tokens.induct) (simp_all add: plain_expr_tokens)

lemma plain_scan_text:
  assumes "display_text text" "CHR 0x22 \<notin> set (ds_name (rs_dataset sc))"
    and "\<And>e. e \<in> set (sent_filters text sc) \<Longrightarrow> sql_safe e \<and> small_ints e"
    and "\<And>k. rs_limit sc = Some k \<Longrightarrow> unat k < 2 ^ 63"
  shows "plain_text (build_sql text sc)"
proof -
  let ?s = "(if sent_filters text sc = [] then []
      else '' WHERE '' @ str_join '' AND '' (map (\<lambda>e. the (expr_to_sql text e)) (sent_filters text sc))) @ limit_text (rs_limit sc)"
  let ?ts = "(if sent_filters text sc = [] then [] else Word ''WHERE'' # conj_tokens (sent_filters text sc)) @ limit_tokens (rs_limit sc)"
  have "lex ?s = Some ?ts" using scan_tail_tokens [OF assms(1)] assms(3) lex_limit by simp
  then have "lex (build_sql text sc) =
      Some (Word ''SELECT'' # Star # Word ''FROM'' # Quoted (ds_name (rs_dataset sc)) # ?ts)"
    unfolding build_sql_text using lex_quoted [OF assms(2), of ?s] by simp
  moreover have "list_all plain_token (conj_tokens (sent_filters text sc))" using assms(3) by (rule plain_conj_tokens)
  moreover have "list_all plain_token (limit_tokens (rs_limit sc))"
    using assms(4) by (simp add: limit_tokens_def split: option.split)
  ultimately show ?thesis by (simp add: plain_text_def)
qed

lemma scan_text_reads:
  assumes "display_text text" "CHR 0x22 \<notin> set (ds_name (rs_dataset sc))"
    and "\<And>e. e \<in> set (sent_filters text sc) \<Longrightarrow> sql_safe e"
  shows "read_statement (build_sql text sc) =
    Some \<lparr>sel_table = ds_name (rs_dataset sc), sel_where = sent_condition text sc, sel_limit = map_option unat (rs_limit sc)\<rparr>"
proof (cases "sent_filters text sc = []")
  case True
  have "read_statement (build_sql text sc) = read_tail (ds_name (rs_dataset sc)) (limit_tokens (rs_limit sc))"
    unfolding build_sql_text using True lex_limit by (simp only: if_True append_Nil) (rule read_select [OF assms(2)]; simp)
  then show ?thesis by (simp add: read_tail_def sent_condition_def True)
next
  case False
  let ?es = "sent_filters text sc" and ?tx = "\<lambda>e. the (expr_to_sql text e)"
  have "lex ('' WHERE '' @ str_join '' AND '' (map ?tx ?es) @ limit_text (rs_limit sc)) =
      Some (Word ''WHERE'' # conj_tokens ?es @ limit_tokens (rs_limit sc))"
    using assms(1,3) False by (rule scan_tail_tokens)
  then have "read_statement (build_sql text sc) =
      read_tail (ds_name (rs_dataset sc)) (Word ''WHERE'' # conj_tokens ?es @ limit_tokens (rs_limit sc))"
    unfolding build_sql_text using False by (simp only: if_False append_assoc) (rule read_select [OF assms(2)]; simp)
  then show ?thesis using read_conj_tail [OF False assms(3)] False by (simp add: sent_condition_def)
qed

text \<open>
  C9. The executor reads what elan-query means: the text of a scan reads back as the selection from the dataset's
  table of the conjunction of the filters that have a text, with the scan's limit, for every table and
  column name without a double quote and every nesting of comparisons, AND, OR and NOT over columns, integers,
  booleans and NULL, but a negation as operand of a comparison.
\<close>

theorem scan_text_reads_back:
  assumes "display_text text" "CHR 0x22 \<notin> set (ds_name (rs_dataset sc))"
    and "\<And>e. e \<in> set (sent_filters text sc) \<Longrightarrow> sql_safe e"
  shows "read_statement (build_sql text sc) =
    Some \<lparr>sel_table = ds_name (rs_dataset sc), sel_where = sent_condition text sc, sel_limit = map_option unat (rs_limit sc)\<rparr>"
  using assms by (rule scan_text_reads)

definition demo_text :: "scalar \<Rightarrow> string" where
  "demo_text v = (case v of ScalarUtf8 s \<Rightarrow> s | ScalarInt i \<Rightarrow> int_text i | ScalarBool b \<Rightarrow> if b then ''true'' else ''false''
     | ScalarNull \<Rightarrow> ''NULL'' | ScalarOther s \<Rightarrow> s)"

lemma demo_text_display: "display_text demo_text"
  by (simp add: display_text_def demo_text_def)

definition demo_filtered_scan :: remote_scan where
  "demo_filtered_scan = demo_table_scan\<lparr>rs_pushed_filters :=
     [BinaryExpr (Column (Some ''customers'') ''id'') Lt (Literal (ScalarInt (- 5))), OtherExpr ''name LIKE x'',
      Not (Column None ''name'')]\<rparr>"

theorem scan_text_reads_back_witness:
  "read_statement (build_sql demo_text demo_filtered_scan) =
     Some \<lparr>sel_table = ''customers'',
           sel_where = Some (BinaryExpr (BinaryExpr (Column None ''id'') Lt (Literal (ScalarInt (- 5)))) And (Not (Column None ''name''))),
           sel_limit = None\<rparr>"
proof -
  have sent: "sent_filters demo_text demo_filtered_scan =
      [BinaryExpr (Column (Some ''customers'') ''id'') Lt (Literal (ScalarInt (- 5))), Not (Column None ''name'')]"
    by (simp add: sent_filters_def demo_filtered_scan_def operator_sql_def)
  have "read_statement (build_sql demo_text demo_filtered_scan) =
      Some \<lparr>sel_table = ds_name (rs_dataset demo_filtered_scan), sel_where = sent_condition demo_text demo_filtered_scan,
            sel_limit = map_option unat (rs_limit demo_filtered_scan)\<rparr>"
  proof (rule scan_text_reads_back [OF demo_text_display])
    show "CHR 0x22 \<notin> set (ds_name (rs_dataset demo_filtered_scan))"
      by (simp add: demo_filtered_scan_def demo_table_scan_def demo_table_def)
    show "sql_safe e" if "e \<in> set (sent_filters demo_text demo_filtered_scan)" for e
      using that by (auto simp: sent operator_sql_def is_not_def)
  qed
  then show ?thesis
    by (simp add: sent_condition_def sent) (simp add: demo_filtered_scan_def demo_table_scan_def demo_table_def)
qed

end
