(* ===== verification/Pushdown.thy ===== *)
theory Pushdown
  imports Sql_Text Iam_Optimizer
begin

text \<open>
  What a scan with pushed-down filters returns. A statement is run on tables of rows, with the three-valued
  \<open>AND\<close>, \<open>OR\<close> and \<open>NOT\<close> of SQL; comparisons and the expressions that have no text are arguments. An error of one
  row is an error of the statement. \<open>table.rs\<close> announces every filter as inexact, so DataFusion filters the rows again.
\<close>

section \<open>Values of expressions\<close>

type_synonym row = "string \<rightharpoonup> scalar"

record sql_semantics =
  compare_values :: "operator \<Rightarrow> scalar \<Rightarrow> scalar \<Rightarrow> scalar option"
  other_value :: "string \<Rightarrow> row \<Rightarrow> scalar option"

fun and3 :: "scalar \<Rightarrow> scalar \<Rightarrow> scalar option" where
  "and3 (ScalarBool a) (ScalarBool b) = Some (ScalarBool (a \<and> b))"
| "and3 (ScalarBool a) ScalarNull = Some (if a then ScalarNull else ScalarBool False)"
| "and3 ScalarNull (ScalarBool b) = Some (if b then ScalarNull else ScalarBool False)"
| "and3 ScalarNull ScalarNull = Some ScalarNull"
| "and3 _ _ = None"

fun not3 :: "scalar \<Rightarrow> scalar option" where
  "not3 (ScalarBool a) = Some (ScalarBool (\<not> a))"
| "not3 ScalarNull = Some ScalarNull"
| "not3 _ = None"

definition or3 :: "scalar \<Rightarrow> scalar \<Rightarrow> scalar option" where
  "or3 a b = Option.bind (not3 a) (\<lambda>x. Option.bind (not3 b) (\<lambda>y. Option.bind (and3 x y) not3))"

fun eval_expr :: "sql_semantics \<Rightarrow> row \<Rightarrow> expr \<Rightarrow> scalar option" where
  "eval_expr S row (BinaryExpr l op r) =
     Option.bind (eval_expr S row l) (\<lambda>a.
     Option.bind (eval_expr S row r) (\<lambda>b.
     if op = And then and3 a b else if op = Or then or3 a b else compare_values S op a b))"
| "eval_expr S row (Column q c) = row c"
| "eval_expr S row (Literal v) = Some v"
| "eval_expr S row (Not e) = Option.bind (eval_expr S row e) not3"
| "eval_expr S row (OtherExpr t) = other_value S t row"

text \<open>A condition: true, not true, or an error, as for a value that is no boolean.\<close>

definition condition :: "sql_semantics \<Rightarrow> row \<Rightarrow> expr \<Rightarrow> bool option" where
  "condition S row e =
     (case eval_expr S row e of
        Some (ScalarBool b) \<Rightarrow> Some b
      | Some ScalarNull \<Rightarrow> Some False
      | _ \<Rightarrow> None)"

abbreviation holds :: "sql_semantics \<Rightarrow> expr list \<Rightarrow> row \<Rightarrow> bool" where
  "holds S es row \<equiv> (\<forall>e \<in> set es. condition S row e = Some True)"

section \<open>Running a statement\<close>

definition select_rows :: "sql_semantics \<Rightarrow> expr \<Rightarrow> row list \<Rightarrow> row list option" where
  "select_rows S e rows =
     (if \<exists>row \<in> set rows. condition S row e = None then None
      else Some (filter (\<lambda>row. condition S row e = Some True) rows))"

definition run_select :: "sql_semantics \<Rightarrow> (string \<rightharpoonup> row list) \<Rightarrow> select_statement \<Rightarrow> row list option" where
  "run_select S tables st =
     Option.bind (tables (sel_table st)) (\<lambda>rows.
     map_option (\<lambda>kept. case sel_limit st of None \<Rightarrow> kept | Some k \<Rightarrow> take k kept)
       (case sel_where st of None \<Rightarrow> Some rows | Some e \<Rightarrow> select_rows S e rows))"

definition run_text :: "sql_semantics \<Rightarrow> (string \<rightharpoonup> row list) \<Rightarrow> string \<Rightarrow> row list option" where
  "run_text S tables text = Option.bind (read_statement text) (run_select S tables)"

section \<open>Lemmas\<close>

lemma eval_unqualified [simp]: "eval_expr S row (unqualified e) = eval_expr S row e"
  by (induction e) simp_all

lemma condition_unqualified [simp]: "condition S row (unqualified e) = condition S row e"
  by (simp add: condition_def)

lemma condition_and:
  "condition S row (BinaryExpr a And b) =
     Option.bind (condition S row a) (\<lambda>x. map_option (\<lambda>y. x \<and> y) (condition S row b))"
  by (cases "eval_expr S row a"; cases "eval_expr S row b"; simp add: condition_def;
      rename_tac x y; case_tac x; case_tac y; simp)

lemma condition_conj:
  "es \<noteq> [] \<Longrightarrow> condition S row (conj_expr es) =
     (if \<exists>e \<in> set es. condition S row e = None then None else Some (holds S es row))"
proof (induction es rule: conj_expr.induct)
  case (3 e e' es)
  then show ?case by (cases "condition S row e") (auto simp: condition_and)
qed auto

definition take_limit :: "64 word option \<Rightarrow> 'a list \<Rightarrow> 'a list" where
  "take_limit l xs = (case l of None \<Rightarrow> xs | Some k \<Rightarrow> take (unat k) xs)"

lemma run_sent:
  assumes "tables t = Some rows" "\<forall>row \<in> set rows. \<forall>e \<in> set (sent_filters text sc). condition S row e \<noteq> None"
  shows "run_select S tables \<lparr>sel_table = t, sel_where = sent_condition text sc, sel_limit = map_option unat (rs_limit sc)\<rparr> =
    Some (take_limit (rs_limit sc) (filter (holds S (sent_filters text sc)) rows))"
proof (cases "sent_filters text sc = []")
  case True
  then show ?thesis using assms(1) by (simp add: run_select_def sent_condition_def take_limit_def split: option.split)
next
  case False
  let ?e = "conj_expr (map unqualified (sent_filters text sc))"
  have "condition S row ?e = Some (holds S (sent_filters text sc) row)" if "row \<in> set rows" for row
    using condition_conj [of "map unqualified (sent_filters text sc)" S row] False assms(2) that by auto
  then have "select_rows S ?e rows = Some (filter (holds S (sent_filters text sc)) rows)"
    by (auto simp: select_rows_def intro: filter_cong)
  then show ?thesis
    using assms(1) False by (simp add: run_select_def sent_condition_def take_limit_def split: option.split)
qed

section \<open>Properties of the pushdown\<close>

lemma pushdown_run:
  assumes "display_text text" "CHR 0x22 \<notin> set (ds_name (rs_dataset sc))"
    and "\<forall>e \<in> set (sent_filters text sc). sql_safe e"
    and "tables (ds_name (rs_dataset sc)) = Some rows"
    and "\<forall>row \<in> set rows. \<forall>e \<in> set (sent_filters text sc). condition S row e \<noteq> None"
  shows "\<exists>got. run_text S tables (build_sql text sc) = Some got \<and>
    got = take_limit (rs_limit sc) (filter (holds S (sent_filters text sc)) rows) \<and>
    (rs_limit sc = None \<or> sent_filters text sc = rs_pushed_filters sc \<longrightarrow>
      filter (holds S (rs_pushed_filters sc)) got = take_limit (rs_limit sc) (filter (holds S (rs_pushed_filters sc)) rows))"
proof -
  let ?all = "rs_pushed_filters sc" and ?sent = "sent_filters text sc"
  let ?got = "take_limit (rs_limit sc) (filter (holds S ?sent) rows)"
  have "run_text S tables (build_sql text sc) = Some ?got"
    using scan_text_reads [OF assms(1,2)] assms(3-5) run_sent [of tables "ds_name (rs_dataset sc)" rows "text" sc S] by (simp add: run_text_def)
  moreover have "filter (holds S ?all) ?got = take_limit (rs_limit sc) (filter (holds S ?all) rows)"
    if "rs_limit sc = None \<or> ?sent = ?all"
  proof (cases "rs_limit sc")
    case None
    have "set ?sent \<subseteq> set ?all" by (auto simp: sent_filters_def)
    then have "holds S ?sent row \<and> holds S ?all row \<longleftrightarrow> holds S ?all row" for row by blast
    then show ?thesis by (simp add: take_limit_def None)
  next
    case (Some k)
    with that have "?sent = ?all" by simp
    moreover have "holds S ?all row" if "row \<in> set (take (unat k) (filter (holds S ?all) rows))" for row
      using in_set_takeD [OF that] by simp
    then have "filter (holds S ?all) (take (unat k) (filter (holds S ?all) rows)) = take (unat k) (filter (holds S ?all) rows)"
      by (intro filter_True) blast
    ultimately show ?thesis by (simp add: take_limit_def Some)
  qed
  ultimately show ?thesis by blast
qed

text \<open>
  C8. Pushing filters down loses and adds nothing where the text of the scan has one reading: no double quote is in the name of the
  table or of a column, and the filters with a text have no string literal and no negation under a comparison and can be evaluated on every row.
  Then reading that text by the reference grammar of \<open>Sql_Text\<close> and running it as SQL's selection gives the first rows of
  the table, up to the limit, that satisfy the filters with a text; and without a limit, or when every filter has a text,
  DataFusion's second filtering leaves of them exactly the rows that all filters and the limit select from the table. (C24 is
  the case of a string literal; C4 is about the executor's rows.)
\<close>

theorem pushdown_exact:
  assumes "display_text text" "CHR 0x22 \<notin> set (ds_name (rs_dataset sc))"
    and "\<forall>e \<in> set (sent_filters text sc). sql_safe e"
    and "tables (ds_name (rs_dataset sc)) = Some rows"
    and "\<forall>row \<in> set rows. \<forall>e \<in> set (sent_filters text sc). condition S row e \<noteq> None"
  shows "\<exists>got. run_text S tables (build_sql text sc) = Some got \<and>
    got = take_limit (rs_limit sc) (filter (holds S (sent_filters text sc)) rows) \<and>
    (rs_limit sc = None \<or> sent_filters text sc = rs_pushed_filters sc \<longrightarrow>
      filter (holds S (rs_pushed_filters sc)) got = take_limit (rs_limit sc) (filter (holds S (rs_pushed_filters sc)) rows))"
  using assms by (rule pushdown_run)

text \<open>Three rows, of which the executor's condition keeps two and DataFusion's second filtering one.\<close>

fun demo_compare :: "operator \<Rightarrow> scalar \<Rightarrow> scalar \<Rightarrow> scalar option" where
  "demo_compare op ScalarNull b = Some ScalarNull"
| "demo_compare op a ScalarNull = Some ScalarNull"
| "demo_compare Lt (ScalarInt i) (ScalarInt j) = Some (ScalarBool (i < j))"
| "demo_compare Eq (ScalarInt i) (ScalarInt j) = Some (ScalarBool (i = j))"
| "demo_compare Eq (ScalarUtf8 s) (ScalarUtf8 t) = Some (ScalarBool (s = t))"
| "demo_compare op a b = None"

definition demo_semantics :: sql_semantics where
  "demo_semantics =
     \<lparr>compare_values = demo_compare,
      other_value = (\<lambda>t row. map_option (\<lambda>v. ScalarBool (v = ScalarUtf8 ''Ann'')) (row ''name''))\<rparr>"

definition demo_customer :: "int \<Rightarrow> string \<Rightarrow> row" where
  "demo_customer i n = [''id'' \<mapsto> ScalarInt i, ''name'' \<mapsto> ScalarUtf8 n]"

definition demo_rows :: "row list" where
  "demo_rows = [demo_customer 1 ''Ann'', demo_customer 2 ''Bob'', demo_customer 9 ''Ann'']"

definition demo_pushed :: remote_scan where
  "demo_pushed = demo_table_scan\<lparr>rs_pushed_filters :=
     [BinaryExpr (Column None ''id'') Lt (Literal (ScalarInt 5)), OtherExpr ''name LIKE Ann'']\<rparr>"

lemma demo_pushed_sent: "sent_filters demo_text demo_pushed = [BinaryExpr (Column None ''id'') Lt (Literal (ScalarInt 5))]"
  by (simp add: sent_filters_def demo_pushed_def operator_sql_def)

lemma demo_pushed_table: "ds_name (rs_dataset demo_pushed) = ''customers''" "rs_limit demo_pushed = None"
  by (simp_all add: demo_pushed_def demo_table_scan_def demo_table_def)

theorem pushdown_exact_witness:
  "\<exists>got. run_text demo_semantics [''customers'' \<mapsto> demo_rows] (build_sql demo_text demo_pushed) = Some got \<and>
     got = [demo_customer 1 ''Ann'', demo_customer 2 ''Bob''] \<and>
     filter (holds demo_semantics (rs_pushed_filters demo_pushed)) got = [demo_customer 1 ''Ann'']"
proof -
  have safe: "\<forall>e \<in> set (sent_filters demo_text demo_pushed). sql_safe e"
    by (simp add: demo_pushed_sent is_not_def operator_sql_def)
  have cond: "\<forall>row \<in> set demo_rows. \<forall>e \<in> set (sent_filters demo_text demo_pushed). condition demo_semantics row e \<noteq> None"
    by (auto simp: demo_pushed_sent demo_rows_def demo_customer_def condition_def demo_semantics_def)
  have "\<exists>got. run_text demo_semantics [''customers'' \<mapsto> demo_rows] (build_sql demo_text demo_pushed) = Some got \<and>
      got = take_limit (rs_limit demo_pushed) (filter (holds demo_semantics (sent_filters demo_text demo_pushed)) demo_rows) \<and>
      (rs_limit demo_pushed = None \<or> sent_filters demo_text demo_pushed = rs_pushed_filters demo_pushed \<longrightarrow>
        filter (holds demo_semantics (rs_pushed_filters demo_pushed)) got =
          take_limit (rs_limit demo_pushed) (filter (holds demo_semantics (rs_pushed_filters demo_pushed)) demo_rows))"
    by (rule pushdown_exact [OF demo_text_display _ safe _ cond]) (simp_all add: demo_pushed_table)
  moreover have "filter (holds demo_semantics (sent_filters demo_text demo_pushed)) demo_rows = [demo_customer 1 ''Ann'', demo_customer 2 ''Bob'']"
    by (simp add: demo_pushed_sent demo_rows_def demo_customer_def condition_def demo_semantics_def)
  moreover have "filter (holds demo_semantics (rs_pushed_filters demo_pushed)) demo_rows = [demo_customer 1 ''Ann'']"
    by (simp add: demo_pushed_def demo_rows_def demo_customer_def condition_def demo_semantics_def)
  ultimately show ?thesis by (simp add: demo_pushed_table take_limit_def)
qed

section \<open>Texts that are read differently\<close>

text \<open>A lower-case word that is no keyword and no number: as a bare word it is the name of a column.\<close>

definition plain_word :: "string \<Rightarrow> bool" where
  "plain_word s \<longleftrightarrow>
     s \<noteq> [] \<and> (\<forall>c \<in> set s. 97 \<le> (of_char c :: nat) \<and> (of_char c :: nat) \<le> 122) \<and> \<not> reserved s"

lemma plain_word_expr:
  assumes "plain_word s"
  shows "word_expr s = Some (Column None s)"
proof -
  obtain c cs where s: "s = c # cs" using assms by (cases s) (auto simp: plain_word_def)
  have "read_nat 0 s = None"
    using assms by (auto simp: s plain_word_def read_nat.simps char_digit_def)
  moreover have "map ascii_lower s = s"
    using assms by (intro map_idI) (auto simp: plain_word_def ascii_lower_def)
  moreover have "\<not> keyword ''true'' s" "\<not> keyword ''false'' s" "\<not> keyword ''null'' s" "\<not> reserved s"
    using assms by (auto simp: plain_word_def reserved_def reader_keywords_def keyword_def)
  ultimately show ?thesis by (simp add: word_expr_def)
qed

lemma plain_word_lex: "plain_word s \<Longrightarrow> boundary r \<Longrightarrow> lex (s @ r) = map_option ((#) (Word s)) (lex r)"
  by (rule lex_word) (auto simp: plain_word_def word_char_def Let_def)

lemma plain_word_not: "plain_word s \<Longrightarrow> \<not> keyword ''not'' s"
  by (auto simp: plain_word_def reserved_def reader_keywords_def keyword_def)

text \<open>
  C24. A string literal is sent without quotes, so a filter that compares a column with a string of lower-case letters that is no
  reserved word of SQL is a comparison of two columns by the reference grammar: run by its semantics, the
  statement fails on every non-empty table without a column of that name, and with one it
  loses a row that the filter selects where the two columns differ.
\<close>

theorem string_filter_misread:
  assumes "display_text text" "plain_word w" "CHR 0x22 \<notin> set c" "CHR 0x22 \<notin> set (ds_name (rs_dataset sc))"
    and "rs_pushed_filters sc = [BinaryExpr (Column q c) Eq (Literal (ScalarUtf8 w))]"
  shows "read_statement (build_sql text sc) =
      Some \<lparr>sel_table = ds_name (rs_dataset sc), sel_where = Some (BinaryExpr (Column None c) Eq (Column None w)),
            sel_limit = map_option unat (rs_limit sc)\<rparr> \<and>
    (tables (ds_name (rs_dataset sc)) = Some (row # rows) \<and> row w = None \<longrightarrow> run_text S tables (build_sql text sc) = None) \<and>
    (tables (ds_name (rs_dataset sc)) = Some [row] \<and> row c = Some (ScalarUtf8 w) \<and> row w = Some v \<and>
       compare_values S Eq (ScalarUtf8 w) v = Some (ScalarBool False) \<longrightarrow> run_text S tables (build_sql text sc) = Some [])"
proof -
  let ?l = "rs_limit sc" and ?t = "ds_name (rs_dataset sc)"
  have sql: "build_sql text sc = ''SELECT * FROM '' @ dquote @ ?t @ dquote @
      '' WHERE ('' @ dquote @ c @ dquote @ '' = '' @ w @ '')'' @ limit_text ?l"
    using assms(1,5) unfolding build_sql_text by (simp add: sent_filters_def operator_sql_def display_text_def)
  have "lex (w @ CHR '')'' # limit_text ?l) = Some (Word w # RParen # limit_tokens ?l)"
    using plain_word_lex [OF assms(2), of "CHR '')'' # limit_text ?l"] lex_limit by simp
  then have "lex (dquote @ c @ dquote @ '' = '' @ w @ '')'' @ limit_text ?l) =
      Some (Quoted c # Comparison Eq # Word w # RParen # limit_tokens ?l)"
    using lex_quoted [OF assms(3), of "'' = '' @ w @ '')'' @ limit_text ?l"] by (simp add: lex.simps(2) symbol_def)
  then have "lex ('' WHERE ('' @ dquote @ c @ dquote @ '' = '' @ w @ '')'' @ limit_text ?l) =
      Some (Word ''WHERE'' # LParen # Quoted c # Comparison Eq # Word w # RParen # limit_tokens ?l)" by simp
  then have "read_statement (build_sql text sc) =
      read_tail ?t (Word ''WHERE'' # LParen # Quoted c # Comparison Eq # Word w # RParen # limit_tokens ?l)"
    unfolding sql by (intro read_select assms(4)) simp_all
  also have "\<dots> = Some \<lparr>sel_table = ?t, sel_where = Some (BinaryExpr (Column None c) Eq (Column None w)), sel_limit = map_option unat ?l\<rparr>"
    using plain_word_expr [OF assms(2)] plain_word_not [OF assms(2)]
    by (simp add: read_tail_def eval_nat_numeral)
  finally have read: "read_statement (build_sql text sc) = \<dots>" .
  then show ?thesis by (auto simp: run_text_def run_select_def select_rows_def condition_def split: option.split)
qed

definition demo_string_scan :: remote_scan where
  "demo_string_scan = demo_table_scan\<lparr>rs_pushed_filters := [BinaryExpr (Column None ''name'') Eq (Literal (ScalarUtf8 ''bob''))]\<rparr>"

lemma demo_word: "plain_word ''bob''"
  by (simp add: plain_word_def reserved_def reader_keywords_def reserved_words_def ascii_lower_def)

theorem string_filter_misread_witness:
  "run_text demo_semantics [''customers'' \<mapsto> [demo_customer 1 ''bob'']] (build_sql demo_text demo_string_scan) = None"
  using string_filter_misread [OF demo_text_display demo_word, of "''name''" demo_string_scan None
      "[''customers'' \<mapsto> [demo_customer 1 ''bob'']]" "demo_customer 1 ''bob''" "[]" demo_semantics]
  by (simp add: demo_string_scan_def demo_table_scan_def demo_table_def demo_customer_def)

text \<open>
  A negation is written without parentheses around it, and a comparison binds tighter: a comparison whose left
  operand is a negation is read as the negation of the comparison.
\<close>

theorem negation_misread:
  assumes "display_text text" "CHR 0x22 \<notin> set (ds_name (rs_dataset sc))"
    and "sql_safe a" "\<not> is_not a" "sql_safe b" "\<not> is_not b" "comparison_op op"
    and "sent_filters text sc = [BinaryExpr (Not a) op b]"
  shows "read_statement (build_sql text sc) =
    Some \<lparr>sel_table = ds_name (rs_dataset sc), sel_where = Some (Not (BinaryExpr (unqualified a) op (unqualified b))),
          sel_limit = map_option unat (rs_limit sc)\<rparr>"
proof -
  let ?l = "rs_limit sc" and ?t = "ds_name (rs_dataset sc)"
  let ?ts = "LParen # Word ''NOT'' # LParen # expr_tokens a @ RParen # op_token op # expr_tokens b @ [RParen]"
  have "BinaryExpr (Not a) op b \<in> set (sent_filters text sc)" using assms(8) by simp
  then have "expr_to_sql text (BinaryExpr (Not a) op b) \<noteq> None" unfolding sent_filters_def set_filter mem_Collect_eq by (rule conjunct2)
  then obtain ta to tb where t: "expr_to_sql text a = Some ta" "operator_sql op = Some to" "expr_to_sql text b = Some tb"
    by (auto simp: bind_eq_Some_conv)
  have "build_sql text sc = ''SELECT * FROM '' @ dquote @ ?t @ dquote @
      '' WHERE (NOT ('' @ ta @ '') '' @ to @ '' '' @ tb @ '')'' @ limit_text ?l"
    using t assms(8) unfolding build_sql_text by simp
  moreover have "lex ('' WHERE (NOT ('' @ ta @ '') '' @ to @ '' '' @ tb @ '')'' @ limit_text ?l) = Some (Word ''WHERE'' # ?ts @ limit_tokens ?l)"
    using lex_limit lex_expr [OF assms(1,3) t(1), of "'') '' @ to @ '' '' @ tb @ '')'' @ limit_text ?l"] lex_op [OF t(2), of "tb @ '')'' @ limit_text ?l"]
      lex_expr [OF assms(1,5) t(3), of "'')'' @ limit_text ?l"]
    by simp
  ultimately have "read_statement (build_sql text sc) = read_tail ?t (Word ''WHERE'' # ?ts @ limit_tokens ?l)"
    using read_select [OF assms(2)] by simp
  moreover have "parse_sql n OrLevel (?ts @ limit_tokens ?l) = Some (Not (BinaryExpr (unqualified a) op (unqualified b)), limit_tokens ?l)"
    if "5 * length ?ts + 5 \<le> n" for n
  proof -
    let ?k = "5 * length (expr_tokens a) + 5 * length (expr_tokens b) + 4"
    let ?rest = "RParen # limit_tokens ?l"
    have op: "op_token op = Comparison op" using assms(7) by (auto simp: comparison_op_def op_token_def)
    from that have "Suc (Suc (Suc (Suc (Suc (Suc (Suc (Suc (Suc (Suc (Suc ?k)))))))))) \<le> n" by simp
    then obtain m where n: "n = Suc (Suc (Suc (Suc (Suc (Suc (Suc (Suc (Suc (Suc (Suc m))))))))))" and m: "?k \<le> m"
      by (elim peel) blast
    have "parse_sql (Suc m) Primary (LParen # expr_tokens a @ RParen # Comparison op # expr_tokens b @ ?rest) =
        Some (unqualified a, Comparison op # expr_tokens b @ ?rest)"
      using reads_or_paren [of a m] reads_expr [OF assms(3)] m by simp
    moreover have "parse_sql (Suc m) Primary (expr_tokens b @ ?rest) = Some (unqualified b, ?rest)"
      using reads_expr [OF assms(5)] assms(6) m by (simp add: reads_primary_def del: parse_sql.simps)
    ultimately have "parse_sql (Suc (Suc m)) ComparisonLevel (LParen # expr_tokens a @ RParen # Comparison op # expr_tokens b @ ?rest) =
        Some (BinaryExpr (unqualified a) op (unqualified b), ?rest)" by (simp only: parse_sql.simps(5)) simp
    then have "parse_sql (Suc (Suc (Suc (Suc (Suc (Suc m)))))) OrLevel
        (Word ''NOT'' # LParen # expr_tokens a @ RParen # Comparison op # expr_tokens b @ ?rest) =
        Some (Not (BinaryExpr (unqualified a) op (unqualified b)), ?rest)" by simp
    then show ?thesis by (simp add: n op)
  qed
  ultimately show ?thesis by (simp add: read_tail_def)
qed

lemma redirected_text:
  assumes "ds_name (rs_dataset sc) = t @ dquote @ '' WHERE '' @ dquote @ c @ dquote @ '' = '' @ dquote @ c"
    and "CHR 0x22 \<notin> set t" "CHR 0x22 \<notin> set c" "rs_pushed_filters sc = []"
  shows "read_statement (build_sql text sc) =
    Some \<lparr>sel_table = t, sel_where = Some (BinaryExpr (Column None c) Eq (Column None c)), sel_limit = map_option unat (rs_limit sc)\<rparr>"
proof -
  let ?l = "rs_limit sc"
  have "build_sql text sc = ''SELECT * FROM '' @ dquote @ t @ dquote @
      '' WHERE '' @ dquote @ c @ dquote @ '' = '' @ dquote @ c @ dquote @ limit_text ?l"
    unfolding build_sql_text using assms(1,4) by (simp add: sent_filters_def)
  moreover have "lex ('' WHERE '' @ dquote @ c @ dquote @ '' = '' @ dquote @ c @ dquote @ limit_text ?l) =
      Some (Word ''WHERE'' # Quoted c # Comparison Eq # Quoted c # limit_tokens ?l)"
    using lex_limit lex_quoted [OF assms(3), of "'' = '' @ dquote @ c @ dquote @ limit_text ?l"] lex_quoted [OF assms(3), of "limit_text ?l"]
    by (simp add: lex.simps(2) [of "CHR ''=''"] symbol_def)
  ultimately have "read_statement (build_sql text sc) =
      read_tail t (Word ''WHERE'' # Quoted c # Comparison Eq # Quoted c # limit_tokens ?l)"
    using read_select [OF assms(2)] by simp
  then show ?thesis by (simp add: read_tail_def eval_nat_numeral)
qed

text \<open>
  C23. The name of a dataset is copied into the text as it is, so the access rule can be led around: a dataset registered
  under the name \<open>t" WHERE "c" = "c\<close>, which the user may read, is read as the table \<open>t\<close> of that executor, which
  the user may not: the optimized plan keeps the scan, and the executor answers with the rows of \<open>t\<close> on which
  comparing \<open>c\<close> with itself is true.
\<close>

theorem name_redirects_scan:
  assumes "ds_name (rs_dataset sc) = t @ dquote @ '' WHERE '' @ dquote @ c @ dquote @ '' = '' @ dquote @ c"
    and "CHR 0x22 \<notin> set t" "CHR 0x22 \<notin> set c" "rs_pushed_filters sc = []" "rs_limit sc = None"
    and "is_visible check subj (ds_namespace (rs_dataset sc)) (ds_name (rs_dataset sc))" "\<not> is_visible check subj ns t"
    and "df_laws D" "iam_optimize D (elan_iam_rule check subj) (RemoteTableScanExec sc) = Ok q"
    and "tables t = Some rows" "\<forall>row \<in> set rows. condition S row (BinaryExpr (Column None c) Eq (Column None c)) \<noteq> None"
  shows "plan_scans q = [sc] \<and> run_text S tables (build_sql text sc) =
    Some (filter (\<lambda>row. condition S row (BinaryExpr (Column None c) Eq (Column None c)) = Some True) rows)"
  using iam_rule_scans(1) [OF assms(8,9)] redirected_text [OF assms(1-4), of "text"] assms(5,6,10,11)
  by (simp add: run_text_def run_select_def select_rows_def)

definition demo_redirect :: remote_scan where
  "demo_redirect = demo_scan ''crm'' (''transactions'' @ dquote @ '' WHERE '' @ dquote @ ''id'' @ dquote @ '' = '' @ dquote @ ''id'')"

lemma demo_redirect_visible:
  "is_visible demo_check (demo_subject ''bob'') ''crm'' (''transactions'' @ dquote @ '' WHERE '' @ dquote @ ''id'' @ dquote @ '' = '' @ dquote @ ''id'')"
  by (simp add: is_visible_def snapshot_allowed_iff demo_policy_defs matching_defs)

theorem name_redirects_scan_witness:
  "run_text demo_semantics [''transactions'' \<mapsto> [demo_customer 1 ''Ann'']] (build_sql demo_text demo_redirect) = Some [demo_customer 1 ''Ann''] \<and>
   \<not> is_visible demo_check (demo_subject ''bob'') ''finance'' ''transactions''"
proof -
  have "\<exists>q. iam_optimize demo_ops (elan_iam_rule demo_check (demo_subject ''bob'')) (RemoteTableScanExec demo_redirect) = Ok q"
    by (rule iam_rule_returns) (auto simp: demo_ops_def split: plan.split)
  then obtain q where q: "iam_optimize demo_ops (elan_iam_rule demo_check (demo_subject ''bob'')) (RemoteTableScanExec demo_redirect) = Ok q" by blast
  have "plan_scans q = [demo_redirect] \<and> run_text demo_semantics [''transactions'' \<mapsto> [demo_customer 1 ''Ann'']] (build_sql demo_text demo_redirect) =
      Some (filter (\<lambda>row. condition demo_semantics row (BinaryExpr (Column None ''id'') Eq (Column None ''id'')) = Some True) [demo_customer 1 ''Ann''])"
    by (rule name_redirects_scan [OF _ _ _ _ _ _ _ demo_df_laws q, where t = "''transactions''" and ns = "''finance''"])
      (use demo_redirect_visible in \<open>simp_all add: demo_redirect_def demo_scan_def condition_def demo_semantics_def demo_customer_def\<close>)
  then show ?thesis by (simp add: condition_def demo_semantics_def demo_customer_def)
qed

end
