(* ===== verification/Federated_Scan.thy ===== *)
theory Federated_Scan
  imports Pushdown Executor
begin

text \<open>
  A scan from elan-query to the rows of the executor's table and back: the text of the scan
  (\<open>planner/remote_scan.rs\<close>), the SQL service that runs it (\<open>elan-executor/src/sql_service.rs\<close>) and
  the filters that DataFusion applies again.
\<close>

section \<open>The executor's SQL\<close>

definition limited_rows :: "nat option \<Rightarrow> 'a multiset \<Rightarrow> 'a multiset \<Rightarrow> bool" where
  "limited_rows l whole got \<longleftrightarrow>
     got \<subseteq># whole \<and> size got = (case l of None \<Rightarrow> size whole | Some k \<Rightarrow> min k (size whole))"

lemma limited_rows_None [simp]: "limited_rows None whole got \<longleftrightarrow> got = whole"
  using mset_subset_size [of got whole] by (auto simp: limited_rows_def subset_mset.le_less)

lemma limited_rows_take: "limited_rows (Some k) (mset xs) (mset (take k xs))"
proof -
  have "mset (take k xs) \<subseteq># mset (take k xs) + mset (drop k xs)" by simp
  then have "mset (take k xs) \<subseteq># mset xs" by (metis append_take_drop_id mset_append)
  then show ?thesis by (simp add: limited_rows_def min.commute)
qed

text \<open>
  What is relied on of DataFusion at the executor is what SQL says of a selection: where it runs a statement in which every name
  is quoted, on a table with rows that the condition can be evaluated on, it returns the rows on which the condition is true,
  or, when there are more than the limit, that many of them; in some order and cut into batches in some way. Nothing is
  said of a statement that it rejects.
\<close>

definition answers_select ::
  "('x, 't, 'c) df_engine \<Rightarrow> ('c batch list \<Rightarrow> row list) \<Rightarrow> sql_semantics \<Rightarrow> 'x \<Rightarrow> (string \<rightharpoonup> row list) \<Rightarrow> bool" where
  "answers_select D rows_of S ctx tables \<longleftrightarrow>
     (\<forall>sql st bs rows. plain_text sql \<longrightarrow> read_statement sql = Some st \<longrightarrow> run_statement D ctx sql = Ok bs \<longrightarrow>
        run_select S tables (st\<lparr>sel_limit := None\<rparr>) = Some rows \<longrightarrow>
        limited_rows (sel_limit st) (mset rows) (mset (rows_of bs)))"

lemma answers_selectD:
  "answers_select D rows_of S ctx tables \<Longrightarrow> plain_text sql \<Longrightarrow> read_statement sql = Some st \<Longrightarrow> run_statement D ctx sql = Ok bs \<Longrightarrow>
   run_select S tables (st\<lparr>sel_limit := None\<rparr>) = Some rows \<Longrightarrow> limited_rows (sel_limit st) (mset rows) (mset (rows_of bs))"
  by (simp add: answers_select_def)

text \<open>
  What a scan must be for its text to have one reading: no double quote in the name of its table; filters over columns
  whose names have none, integers of 64 bits, booleans and NULL, with no string literal and no negation under a
  comparison, which every row of the table has a value for; a limit below \<open>2 ^ 63\<close>. Filters without a text may be any.
\<close>

definition scan_plain :: "(scalar \<Rightarrow> string) \<Rightarrow> sql_semantics \<Rightarrow> remote_scan \<Rightarrow> row list \<Rightarrow> bool" where
  "scan_plain text S sc rows \<longleftrightarrow>
     CHR 0x22 \<notin> set (ds_name (rs_dataset sc)) \<and>
     (\<forall>e \<in> set (sent_filters text sc). sql_safe e \<and> small_ints e \<and> (\<forall>row \<in> set rows. condition S row e \<noteq> None)) \<and>
     (\<forall>k. rs_limit sc = Some k \<longrightarrow> unat k < 2 ^ 63)"

text \<open>
  The scan is served from the rows of a table: its endpoint is that of an executor's configuration, the executor answers,
  its session has the table, DataFusion runs the statement and its batches can be written.
\<close>

definition scan_served ::
  "bool \<Rightarrow> 'c scan_env \<Rightarrow> ('x, 't, 'c) df_engine \<Rightarrow> ('c batch list \<Rightarrow> row list) \<Rightarrow> sql_semantics \<Rightarrow> remote_scan \<Rightarrow> row list \<Rightarrow> bool" where
  "scan_served checks E D rows_of S sc rows \<longleftrightarrow>
     (\<exists>host cfg port utf8_error st ctx tables bs bytes.
        let sql = build_sql (scalar_text E) sc in
        ds_executor_endpoint (rs_dataset sc) = host @ '':'' @ nat_str (unat (xc_bind_port cfg)) \<and> executor_http_port checks cfg = Some port \<and>
        utf8_valid (map of_char sql) \<and>
        http_post E (scan_url host port) sql = Ok (reply_of (handle_sql D utf8_error st (bytes_of sql))) \<and>
        service_session D st = Ok ctx \<and> answers_select D rows_of S ctx tables \<and> tables (ds_name (rs_dataset sc)) = Some rows \<and>
        run_statement D ctx sql = Ok bs \<and> write_stream D (case bs of [] \<Rightarrow> [] | b # _ \<Rightarrow> b_schema b) bs = Ok bytes)"

section \<open>Properties of a scan\<close>

lemma sent_unlimited:
  "sent_filters text (sc\<lparr>rs_limit := l\<rparr>) = sent_filters text sc" "sent_condition text (sc\<lparr>rs_limit := l\<rparr>) = sent_condition text sc"
  by (simp_all add: sent_filters_def sent_condition_def)

lemma federated_scan:
  assumes "display_text (scalar_text E)" "ipc_round_trip D E" "scan_plain (scalar_text E) S sc rows" "scan_served checks E D rows_of S sc rows"
  shows "\<exists>bs schema. scan_execute checks E sc = Some (Ok (bs, schema)) \<and>
    limited_rows (map_option unat (rs_limit sc)) (mset (filter (holds S (sent_filters (scalar_text E) sc)) rows)) (mset (rows_of bs)) \<and>
    (rs_limit sc = None \<or> sent_filters (scalar_text E) sc = rs_pushed_filters sc \<longrightarrow>
      limited_rows (map_option unat (rs_limit sc)) (mset (filter (holds S (rs_pushed_filters sc)) rows))
        (mset (filter (holds S (rs_pushed_filters sc)) (rows_of bs))))"
proof -
  let ?sent = "sent_filters (scalar_text E) sc" and ?t = "ds_name (rs_dataset sc)" and ?l = "map_option unat (rs_limit sc)"
  let ?all = "rs_pushed_filters sc" and ?st = "\<lparr>sel_table = ?t, sel_where = sent_condition (scalar_text E) sc, sel_limit = ?l\<rparr>"
  let ?sql = "build_sql (scalar_text E) sc"
  have plain: "CHR 0x22 \<notin> set ?t" "\<And>e. e \<in> set ?sent \<Longrightarrow> sql_safe e \<and> small_ints e"
    "\<forall>row \<in> set rows. \<forall>e \<in> set ?sent. condition S row e \<noteq> None" "\<And>k. rs_limit sc = Some k \<Longrightarrow> unat k < 2 ^ 63"
    using assms(3) by (auto simp: scan_plain_def)
  obtain host cfg port utf8_error st ctx tables bs bytes where served:
    "ds_executor_endpoint (rs_dataset sc) = host @ '':'' @ nat_str (unat (xc_bind_port cfg))" "executor_http_port checks cfg = Some port"
    "utf8_valid (map of_char ?sql)" "http_post E (scan_url host port) ?sql = Ok (reply_of (handle_sql D utf8_error st (bytes_of ?sql)))"
    "service_session D st = Ok ctx" "answers_select D rows_of S ctx tables" "tables ?t = Some rows"
    "run_statement D ctx ?sql = Ok bs" "write_stream D (case bs of [] \<Rightarrow> [] | b # _ \<Rightarrow> b_schema b) bs = Ok bytes"
    using assms(4) unfolding scan_served_def Let_def by blast
  have read: "read_statement ?sql = Some ?st" using scan_text_reads [OF assms(1) plain(1)] plain(2) by simp
  have "run_select S tables (?st\<lparr>sel_limit := None\<rparr>) = Some (filter (holds S ?sent) rows)"
    using run_sent [of tables ?t rows "scalar_text E" "sc\<lparr>rs_limit := None\<rparr>" S] served(7) plain(3)
    by (simp add: take_limit_def sent_unlimited)
  then have got: "limited_rows ?l (mset (filter (holds S ?sent) rows)) (mset (rows_of bs))"
    using answers_selectD [OF served(6) plain_scan_text [OF assms(1) plain(1,2,4)] read served(8)] by simp
  have "fetch_batches E (scan_url host port) ?sql = Ok bs"
    using service_transparent [OF assms(2) served(3,4,5)] served(8,9) by auto
  moreover have "parse_endpoint (ds_executor_endpoint (rs_dataset sc)) = Ok (host, xc_bind_port cfg)"
    using parse_endpoint_addr served(1) by simp
  ultimately have run: "scan_execute checks E sc = Some (Ok (bs, case bs of [] \<Rightarrow> rs_schema sc | b # _ \<Rightarrow> b_schema b))"
    using served(2) by (simp add: scan_execute_def executor_http_port_def Let_def)
  have exact: "limited_rows ?l (mset (filter (holds S ?all) rows)) (mset (filter (holds S ?all) (rows_of bs)))"
    if "rs_limit sc = None \<or> ?sent = ?all"
    using that
  proof
    assume none: "rs_limit sc = None"
    have "set ?sent \<subseteq> set ?all" by (auto simp: sent_filters_def)
    then have "holds S ?sent row \<and> holds S ?all row \<longleftrightarrow> holds S ?all row" for row by blast
    then have "filter (holds S ?all) (filter (holds S ?sent) rows) = filter (holds S ?all) rows" by simp
    moreover have "mset (filter (holds S ?all) (rows_of bs)) = mset (filter (holds S ?all) (filter (holds S ?sent) rows))"
      using got none by (simp only: mset_filter option.map limited_rows_None)
    ultimately show ?thesis using none by simp
  next
    assume same: "?sent = ?all"
    have "mset (rows_of bs) \<subseteq># mset (filter (holds S ?all) rows)"
      using got unfolding same limited_rows_def by (rule conjunct1)
    from set_mset_mono [OF this] have "filter (holds S ?all) (rows_of bs) = rows_of bs" by (intro filter_True) auto
    with got same show ?thesis by simp
  qed
  show ?thesis
    by (intro exI [of _ bs] exI [of _ "case bs of [] \<Rightarrow> rs_schema sc | b # _ \<Rightarrow> b_schema b"] conjI impI run got exact)
qed

text \<open>
  C4. A federated scan computes what it means, where its text has one reading (\<open>scan_plain\<close>: no double quote in a name, no
  string literal, no negation under a comparison and no integer beyond 64 bits in a filter that has a text, conditions that every row has a
  value for, and a limit, if any, below \<open>2 ^ 63\<close>) and an executor serves it from a table (\<open>scan_served\<close>: it answers, has the table, runs
  the statement as SQL and can write its batches, which Arrow reads back): the scan returns the rows of the table that satisfy the filters with a text,
  or as many of them as its limit. Without a limit, or when every filter has a text, DataFusion's second filtering
  makes of them exactly the rows that satisfy all the pushed-down filters, or as many of those as the limit.
\<close>

theorem federated_scan_exact:
  assumes "display_text (scalar_text E)" "ipc_round_trip D E" "scan_plain (scalar_text E) S sc rows" "scan_served checks E D rows_of S sc rows"
  shows "\<exists>bs schema. scan_execute checks E sc = Some (Ok (bs, schema)) \<and>
    limited_rows (map_option unat (rs_limit sc)) (mset (filter (holds S (sent_filters (scalar_text E) sc)) rows)) (mset (rows_of bs)) \<and>
    (rs_limit sc = None \<or> sent_filters (scalar_text E) sc = rs_pushed_filters sc \<longrightarrow>
      limited_rows (map_option unat (rs_limit sc)) (mset (filter (holds S (rs_pushed_filters sc)) rows))
        (mset (filter (holds S (rs_pushed_filters sc)) (rows_of bs))))"
  using assms by (rule federated_scan)

text \<open>An executor that runs the reference and can send the one batch of the witness.\<close>

abbreviation demo_tables :: "string \<rightharpoonup> row list" where
  "demo_tables \<equiv> [''customers'' \<mapsto> demo_rows]"

definition demo_batch :: "row list \<Rightarrow> row batch" where
  "demo_batch rows = \<lparr>b_schema = demo_schema, b_columns = rows, b_num_rows = length rows\<rparr>"

definition demo_sql_engine :: "(unit, unit, row) df_engine" where
  "demo_sql_engine =
     \<lparr>new_context = (), register_store = (\<lambda>c x. Ok x), register_parquet = (\<lambda>n p x. Ok x), register_csv = (\<lambda>n p h x. Ok x),
      deregister_table = (\<lambda>n x. Ok (Some (), x)), register_table = (\<lambda>n t x. Ok x),
      run_statement = (\<lambda>x sql. case Option.bind (read_statement sql) (run_select demo_semantics demo_tables) of
        None \<Rightarrow> Err ''error'' | Some rows \<Rightarrow> Ok [demo_batch rows]),
      ipc_start = (\<lambda>s. Ok []),
      ipc_write = (\<lambda>buf b. if buf = [] \<and> b = demo_batch [demo_customer 1 ''Ann'', demo_customer 2 ''Bob''] then Ok [1] else Err ''not written''),
      ipc_finish = (\<lambda>buf. Ok buf)\<rparr>"

definition demo_sql_service :: "unit sql_service_state" where
  "demo_sql_service = \<lparr>ss_providers = [(''customers'', ())], ss_object_store = None\<rparr>"

definition demo_sql_world :: "row scan_env" where
  "demo_sql_world =
     \<lparr>scalar_text = demo_text,
      http_post = (\<lambda>url sql. Ok (reply_of (handle_sql demo_sql_engine (\<lambda>_. []) demo_sql_service (bytes_of sql)))),
      ipc_read = (\<lambda>bytes. Ok (if bytes = [] then [] else [Ok (demo_batch [demo_customer 1 ''Ann'', demo_customer 2 ''Bob''])]))\<rparr>"

lemma demo_sql_text: "scalar_text demo_sql_world = demo_text"
  by (simp add: demo_sql_world_def)

lemma run_select_limit:
  "run_select S tables st =
     map_option (\<lambda>rows. case sel_limit st of None \<Rightarrow> rows | Some k \<Rightarrow> take k rows) (run_select S tables (st\<lparr>sel_limit := None\<rparr>))"
  by (simp add: run_select_def option.map_comp comp_def map_option_bind)

lemma demo_answers_select: "answers_select demo_sql_engine (\<lambda>bs. concat (map b_columns bs)) demo_semantics () demo_tables"
proof -
  have "limited_rows (sel_limit st) (mset rows) (mset (concat (map b_columns bs)))"
    if "read_statement sql = Some st" "run_select demo_semantics demo_tables (st\<lparr>sel_limit := None\<rparr>) = Some rows"
      "run_statement demo_sql_engine () sql = Ok bs" for sql st rows bs
    using that run_select_limit [of demo_semantics demo_tables st]
    by (auto simp: demo_sql_engine_def demo_batch_def limited_rows_take split: option.splits)
  then show ?thesis by (simp add: answers_select_def)
qed

lemma demo_sql_round_trip: "ipc_round_trip demo_sql_engine demo_sql_world"
proof -
  have "ipc_read demo_sql_world bytes = Ok (map Ok bs)" if w: "write_stream demo_sql_engine s bs = Ok bytes" for s bs bytes
  proof (cases bs)
    case (Cons b bs')
    then have "b = demo_batch [demo_customer 1 ''Ann'', demo_customer 2 ''Bob''] \<and> bs' = [] \<and> bytes = [1]"
      using w by (cases bs') (auto simp: write_stream_def demo_sql_engine_def and_then_Ok split: if_splits)
    with Cons show ?thesis by (simp add: demo_sql_world_def)
  qed (use w in \<open>simp add: write_stream_def demo_sql_engine_def demo_sql_world_def\<close>)
  then show ?thesis by (simp add: ipc_round_trip_def)
qed

lemma demo_pushed_sql: "build_sql demo_text demo_pushed = ''SELECT * FROM '' @ dquote @ ''customers'' @ dquote @ '' WHERE ('' @ dquote @ ''id'' @ dquote @ '' < 5)''"
  by (simp add: build_sql_text demo_pushed_sent demo_pushed_table operator_sql_def demo_text_def int_text_def limit_text_def
      nat_str.simps digit_char_def char_of_conv)

lemma demo_pushed_run: "Option.bind (read_statement (build_sql demo_text demo_pushed)) (run_select demo_semantics demo_tables) =
    Some [demo_customer 1 ''Ann'', demo_customer 2 ''Bob'']"
proof -
  have safe: "\<forall>e \<in> set (sent_filters demo_text demo_pushed). sql_safe e"
    by (simp add: demo_pushed_sent is_not_def operator_sql_def)
  have "run_select demo_semantics demo_tables \<lparr>sel_table = ''customers'', sel_where = sent_condition demo_text demo_pushed,
      sel_limit = map_option unat (rs_limit demo_pushed)\<rparr> = Some [demo_customer 1 ''Ann'', demo_customer 2 ''Bob'']"
    by (subst run_sent [where rows = demo_rows])
      (auto simp: demo_pushed_sent demo_pushed_table demo_rows_def demo_customer_def condition_def demo_semantics_def take_limit_def)
  then show ?thesis using scan_text_reads [OF demo_text_display] safe by (simp add: demo_pushed_table)
qed

lemma demo_scan_plain: "scan_plain demo_text demo_semantics (demo_pushed\<lparr>rs_schema := s\<rparr>) demo_rows"
proof -
  have "sent_filters demo_text (demo_pushed\<lparr>rs_schema := s\<rparr>) = sent_filters demo_text demo_pushed" by (simp add: sent_filters_def)
  then show ?thesis
    by (auto simp: scan_plain_def demo_pushed_table demo_pushed_sent operator_sql_def is_not_def demo_rows_def demo_customer_def
        condition_def demo_semantics_def)
qed

lemma demo_scan_served:
  "scan_served True demo_sql_world demo_sql_engine (\<lambda>bs. concat (map b_columns bs)) demo_semantics (demo_pushed\<lparr>rs_schema := s\<rparr>) demo_rows"
proof -
  let ?sc = "demo_pushed\<lparr>rs_schema := s\<rparr>" and ?batch = "demo_batch [demo_customer 1 ''Ann'', demo_customer 2 ''Bob'']"
  have sql: "build_sql (scalar_text demo_sql_world) ?sc = build_sql demo_text demo_pushed"
    by (simp add: demo_sql_world_def build_sql_def)
  have endpoint: "ds_executor_endpoint (rs_dataset ?sc) = ''lb'' @ '':'' @ nat_str (unat (xc_bind_port executor_config_default))"
    by (simp add: executor_config_default_def demo_port demo_pushed_def demo_table_scan_def demo_table_def)
  have port: "executor_http_port True executor_config_default = Some 50056"
    by (simp add: executor_http_port_def executor_config_default_def add_checked_port)
  have utf8: "utf8_valid (map of_char (build_sql demo_text demo_pushed))" unfolding demo_pushed_sql by simp
  have post: "http_post demo_sql_world u q = Ok (reply_of (handle_sql demo_sql_engine (\<lambda>_. []) demo_sql_service (bytes_of q)))" for u q
    by (simp add: demo_sql_world_def)
  have session: "service_session demo_sql_engine demo_sql_service = Ok ()"
    by (simp add: service_session_def with_object_store_def demo_sql_engine_def demo_sql_service_def)
  have run: "run_statement demo_sql_engine () (build_sql demo_text demo_pushed) = Ok [?batch]"
    by (simp only: demo_sql_engine_def df_engine.simps demo_pushed_run option.case)
  have bytes: "write_stream demo_sql_engine (case [?batch] of [] \<Rightarrow> [] | b # _ \<Rightarrow> b_schema b) [?batch] = Ok [1]"
    by (simp add: write_stream_def) (simp add: demo_sql_engine_def)
  show ?thesis
    unfolding scan_served_def Let_def sql
    by (intro exI conjI, rule endpoint, rule port, rule utf8, rule post, rule session, rule demo_answers_select, simp add: demo_pushed_table,
        rule run, rule bytes)
qed

lemma demo_same_scan: "demo_pushed\<lparr>rs_schema := rs_schema demo_pushed\<rparr> = demo_pushed"
  by simp

theorem federated_scan_exact_witness:
  "\<exists>bs schema. scan_execute True demo_sql_world demo_pushed = Some (Ok (bs, schema)) \<and>
     mset (filter (holds demo_semantics (rs_pushed_filters demo_pushed)) (concat (map b_columns bs))) = {#demo_customer 1 ''Ann''#}"
proof -
  have "display_text (scalar_text demo_sql_world)" by (simp add: demo_sql_text demo_text_display)
  from federated_scan_exact [OF this demo_sql_round_trip demo_scan_plain [folded demo_sql_text, of "rs_schema demo_pushed"]
      demo_scan_served [of "rs_schema demo_pushed"], unfolded demo_same_scan]
  show ?thesis
    by (auto simp: demo_pushed_table) (auto simp: demo_pushed_def demo_rows_def demo_customer_def condition_def demo_semantics_def)
qed

end
