(* ===== verification/Query_Answer.thy ===== *)
theory Query_Answer
  imports Federated_Scan Query_Run
begin

text \<open>
  The answer of a query: elan-query's plan over the rows that its scans fetch from the executors, under the policies
  of elan-central. The operators above the scans are DataFusion's; an operator is taken as a function from the bags
  of rows of its children to a bag of rows.
\<close>

section \<open>Plans over bags of rows\<close>

fun plan_meaning :: "('n \<Rightarrow> row multiset list \<Rightarrow> row multiset) \<Rightarrow> (remote_scan \<Rightarrow> row multiset) \<Rightarrow> 'n plan \<Rightarrow> row multiset" where
  "plan_meaning ev f (RemoteTableScanExec sc) = f sc"
| "plan_meaning ev f (PlanNode n cs) = ev n (map (plan_meaning ev f) cs)"

text \<open>
  What is relied on of DataFusion's operators: an \<open>EmptyExec\<close> has no rows, an operator over new children computes what
  it did before, and the plan filters again what it pushed down as inexact, so that only the rows of a scan which
  satisfy its filters matter.
\<close>

definition operators_run :: "('n \<Rightarrow> row multiset list \<Rightarrow> row multiset) \<Rightarrow> 'n df_ops \<Rightarrow> bool" where
  "operators_run ev D \<longleftrightarrow>
     (\<forall>s. ev (empty_exec D s) [] = {#}) \<and>
     (\<forall>n cs cs' n' cs''. rebuild D (PlanNode n cs) cs' = Ok (PlanNode n' cs'') \<longrightarrow> ev n' = ev n)"

definition refilters :: "('n \<Rightarrow> row multiset list \<Rightarrow> row multiset) \<Rightarrow> sql_semantics \<Rightarrow> 'n plan \<Rightarrow> bool" where
  "refilters ev S p \<longleftrightarrow>
     (\<forall>f g. (\<forall>sc \<in> set (plan_scans p). filter_mset (holds S (rs_pushed_filters sc)) (f sc) = filter_mset (holds S (rs_pushed_filters sc)) (g sc)) \<longrightarrow>
        plan_meaning ev f p = plan_meaning ev g p)"

lemma refiltersD:
  assumes "refilters ev S p"
    and "\<And>sc. sc \<in> set (plan_scans p) \<Longrightarrow>
      filter_mset (holds S (rs_pushed_filters sc)) (f sc) = filter_mset (holds S (rs_pushed_filters sc)) (g sc)"
  shows "plan_meaning ev f p = plan_meaning ev g p"
  using assms by (simp add: refilters_def)

text \<open>The optimized plan means the original one with the scans of hidden datasets empty.\<close>

lemma iam_rule_meaning:
  assumes laws: "df_laws D" and ev: "operators_run ev D"
    and "iam_optimize D (elan_iam_rule check subject) p = Ok q"
  shows "plan_meaning ev f q =
    plan_meaning ev (\<lambda>sc. if is_visible check subject (ds_namespace (rs_dataset sc)) (ds_name (rs_dataset sc)) then f sc else {#}) p"
  using assms(3) unfolding elan_iam_rule_optimize
proof (induction p arbitrary: q)
  case (RemoteTableScanExec sc)
  then show ?case using ev by (auto simp: apply_iam_scan operators_run_def split: if_splits)
next
  case (PlanNode n cs)
  let ?ap = "apply_iam D check subject ''RemoteTableScanExec'' elan_extract"
  let ?g = "\<lambda>sc. if is_visible check subject (ds_namespace (rs_dataset sc)) (ds_name (rs_dataset sc)) then f sc else {#}"
  from PlanNode.prems obtain cs' where tr: "traverse ?ap cs = Ok cs'" and rb: "rebuild D (PlanNode n cs) cs' = Ok q"
    by (auto simp: apply_iam_node and_then_Ok)
  have "list_all2 (\<lambda>c c'. ?ap c = Ok c') cs cs'" using tr by (simp add: traverse_Ok_iff)
  then have "list_all2 (\<lambda>c c'. plan_meaning ev f c' = plan_meaning ev ?g c) cs cs'"
    using PlanNode.IH by (auto simp: list_all2_conv_all_nth)
  then have "map (plan_meaning ev f) cs' = map (plan_meaning ev ?g) cs" by (rule map_all2)
  moreover obtain n' where q: "q = PlanNode n' cs'" using df_laws_rebuild [OF laws rb] by metis
  moreover have "ev n' = ev n" using ev rb unfolding operators_run_def q by blast
  ultimately show ?case by simp
qed

section \<open>The answer of a query\<close>

text \<open>
  The rows that executing a scan streams to the operators above it. These address columns by their positions in the schema that the
  scan announced, so batches of another schema, as under a projection, which the scan announces and does not apply, count as no rows.
\<close>

definition announced :: "remote_scan \<Rightarrow> 'c batch list \<Rightarrow> bool" where
  "announced sc bs \<longleftrightarrow> list_all (\<lambda>b. b_schema b = rs_schema sc) bs"

definition scanned_rows :: "bool \<Rightarrow> 'c scan_env \<Rightarrow> ('c batch list \<Rightarrow> row list) \<Rightarrow> remote_scan \<Rightarrow> row multiset" where
  "scanned_rows checks E rows_of sc =
     (case scan_execute checks E sc of Some (Inr (bs, schema)) \<Rightarrow> if announced sc bs then mset (rows_of bs) else {#} | _ \<Rightarrow> {#})"

text \<open>
  C2. A query answers what it asks about the data that the user may read. Take a session built from elan-central's policies
  and a plan whose granted scans have no limit, a text with one reading (\<open>scan_plain\<close>: no double quote in a
  name, no string literal, no negation under a comparison and no integer beyond 64 bits in a filter with a text, conditions that every
  row has a value for), batches of the schema that the plan expects, as without a projection, and an executor that serves them from a table and runs
  their statement (\<open>scan_served\<close>), with DataFusion's operators as in \<open>operators_run\<close> and every pushed-down filter applied again (\<open>refilters\<close>). Then every scan of the
  optimized plan succeeds, and running that plan on what the scans stream gives the same rows as the original plan on the
  tables, with those on which the stored policies do not grant the user SELECT taken as empty.
\<close>

theorem query_answers_granted_data:
  assumes "iam_env L scan" "uuid_parse L seed_policy_id \<noteq> None" "central_start L scan seeded_iam_db = Ok st0"
    and "st = run (iam_step L scan) st0 calls"
    and "session_factory_new L fresh ds_answer (answer_of (svc_list_policies L scan (ic_db st) [])) = Ok sf"
    and "df_laws D" "operators_run ev D" "refilters ev S p" "display_text (scalar_text E)" "ipc_round_trip X E"
    and "iam_optimize D (sx_rule (build_for_user L ipc_schema sf \<lparr>user_id = u, groups = gs\<rparr>)) p = Ok q"
    and granted: "granted = (\<lambda>sc. rows_allow L \<lparr>aq_user_id = u, aq_groups = gs, aq_namespace = ds_namespace (rs_dataset sc),
           aq_dataset = ds_name (rs_dataset sc), aq_action = ''SELECT''\<rparr> (set (policy_rows (ic_db st))))"
    and "\<And>sc. sc \<in> set (plan_scans p) \<Longrightarrow> granted sc \<Longrightarrow>
      rs_limit sc = None \<and> scan_plain (scalar_text E) S sc (rows sc) \<and> scan_served checks E X rows_of S sc (rows sc) \<and>
      (\<forall>bs schema. scan_execute checks E sc = Some (Ok (bs, schema)) \<longrightarrow> announced sc bs)"
  shows "(\<forall>sc \<in> set (plan_scans q). \<exists>bs schema. scan_execute checks E sc = Some (Ok (bs, schema))) \<and>
    plan_meaning ev (scanned_rows checks E rows_of) q = plan_meaning ev (\<lambda>sc. if granted sc then mset (rows sc) else {#}) p"
proof -
  let ?check = "snapshot_check L (sf_engine sf)" and ?subj = "\<lparr>user_id = u, groups = gs\<rparr>"
  have visible: "is_visible ?check ?subj (ds_namespace (rs_dataset sc)) (ds_name (rs_dataset sc)) = granted sc" for sc
    unfolding granted by (rule session_visible [OF assms(1-5)])
  have q: "iam_optimize D (elan_iam_rule ?check ?subj) p = Ok q" using assms(11) by simp
  have exact: "\<exists>bs schema. scan_execute checks E sc = Some (Ok (bs, schema)) \<and>
      mset (filter (holds S (rs_pushed_filters sc)) (rows_of bs)) = mset (filter (holds S (rs_pushed_filters sc)) (rows sc))"
    if "sc \<in> set (plan_scans p)" "granted sc" for sc
    using federated_scan [OF assms(9,10)] assms(13) [OF that] by force
  have "\<forall>sc \<in> set (plan_scans q). \<exists>bs schema. scan_execute checks E sc = Some (Ok (bs, schema))"
    using exact by (simp add: iam_rule_scans(1) [OF assms(6) q] visible) blast
  moreover have "plan_meaning ev (\<lambda>sc. if granted sc then scanned_rows checks E rows_of sc else {#}) p =
      plan_meaning ev (\<lambda>sc. if granted sc then mset (rows sc) else {#}) p"
  proof (rule refiltersD [OF assms(8)])
    fix sc
    assume sc: "sc \<in> set (plan_scans p)"
    show "filter_mset (holds S (rs_pushed_filters sc)) (if granted sc then scanned_rows checks E rows_of sc else {#}) =
        filter_mset (holds S (rs_pushed_filters sc)) (if granted sc then mset (rows sc) else {#})"
      using exact [OF sc] assms(13) [OF sc] by (auto simp: scanned_rows_def)
  qed
  ultimately show ?thesis by (simp add: iam_rule_meaning [OF assms(6,7) q] visible)
qed

text \<open>A filter above the scan of \<open>Federated_Scan\<close>'s world.\<close>

abbreviation demo_answer_scan :: remote_scan where
  "demo_answer_scan \<equiv> demo_pushed\<lparr>rs_schema := demo_schema\<rparr>"

definition demo_answer_plan :: "(string \<times> schema) plan" where
  "demo_answer_plan = PlanNode (''FilterExec'', demo_schema) [RemoteTableScanExec demo_answer_scan]"

definition demo_run :: "string \<times> schema \<Rightarrow> row multiset list \<Rightarrow> row multiset" where
  "demo_run n rs =
     (if fst n = ''FilterExec'' then filter_mset (holds demo_semantics (rs_pushed_filters demo_pushed)) (sum_list rs) else {#})"

lemma demo_operators_run: "operators_run demo_run demo_ops"
  by (auto simp: operators_run_def demo_run_def demo_ops_def)

lemma demo_refilters: "refilters demo_run demo_semantics demo_answer_plan"
  by (simp add: refilters_def demo_answer_plan_def demo_run_def)

lemma demo_answer_announced:
  assumes "scan_execute True demo_sql_world demo_answer_scan = Some (Ok (bs, schema))"
  shows "announced demo_answer_scan bs"
proof -
  have "list_all (\<lambda>b. b_schema b = demo_schema) cs" if "fetch_batches demo_sql_world url sql = Ok cs" for url sql cs
    using that by (auto simp: fetch_batches_def demo_sql_world_def demo_batch_def and_then_Ok split: if_splits)
  then show ?thesis
    using assms by (auto simp: scan_execute_request announced_def and_then_Ok split: option.splits prod.splits sum.splits)
qed

theorem query_answers_granted_data_witness:
  "\<exists>q. iam_optimize demo_ops (sx_rule (build_for_user demo_libs (\<lambda>_. Ok []) demo_factory \<lparr>user_id = ''bob'', groups = []\<rparr>)) demo_answer_plan = Ok q
     \<and> plan_meaning demo_run (scanned_rows True demo_sql_world (\<lambda>bs. concat (map b_columns bs))) q = {#demo_customer 1 ''Ann''#}"
proof -
  obtain q where q: "iam_optimize demo_ops (sx_rule (build_for_user demo_libs (\<lambda>_. Ok []) demo_factory \<lparr>user_id = ''bob'', groups = []\<rparr>)) demo_answer_plan = Ok q"
    unfolding build_for_user_rule using demo_rule_returns by blast
  let ?granted = "\<lambda>sc. rows_allow demo_libs \<lparr>aq_user_id = ''bob'', aq_groups = [], aq_namespace = ds_namespace (rs_dataset sc),
      aq_dataset = ds_name (rs_dataset sc), aq_action = ''SELECT''\<rparr>
      (set (policy_rows (ic_db (run (iam_step demo_libs id) demo_central []))))"
  have "(\<forall>sc \<in> set (plan_scans q). \<exists>bs schema. scan_execute True demo_sql_world sc = Some (Ok (bs, schema))) \<and>
      plan_meaning demo_run (scanned_rows True demo_sql_world (\<lambda>bs. concat (map b_columns bs))) q =
      plan_meaning demo_run (\<lambda>sc. if ?granted sc then mset demo_rows else {#}) demo_answer_plan"
    by (rule query_answers_granted_data [OF demo_iam_env demo_seed(2) demo_central_start refl demo_factory_new demo_df_laws
          demo_operators_run demo_refilters _ demo_sql_round_trip q refl, where rows = "\<lambda>_. demo_rows"])
      (use demo_scan_served demo_scan_plain demo_answer_announced in \<open>simp_all add: demo_sql_text demo_text_display demo_answer_plan_def demo_pushed_table\<close>)
  moreover have "filter (holds demo_semantics (rs_pushed_filters demo_pushed)) demo_rows = [demo_customer 1 ''Ann'']"
    by (simp add: demo_pushed_def demo_rows_def demo_customer_def condition_def demo_semantics_def)
  moreover have "?granted demo_answer_scan" by (simp add: demo_central_allows)
  ultimately have "plan_meaning demo_run (scanned_rows True demo_sql_world (\<lambda>bs. concat (map b_columns bs))) q = {#demo_customer 1 ''Ann''#}"
    by (simp add: demo_answer_plan_def demo_run_def flip: mset_filter)
  with q show ?thesis by blast
qed

end
