(* ===== verification/Client_Setup.thy ===== *)
theory Client_Setup
  imports Coordinator Executor Audit_Event
begin

text \<open>
  How elan sets up what it uses from outside: the S3 clients of the coordinator (\<open>upload.rs\<close>) and the executor
  (\<open>context.rs\<close>), the options with which both read a CSV file (\<open>dataset.rs\<close>, \<open>context.rs\<close>), the schema message
  the coordinator writes, and the Kafka producer (\<open>elan-audit/src/kafka.rs\<close>). A builder is the record of the
  settings the code gives it; what is built from it is an argument.
\<close>

section \<open>S3 clients\<close>

record s3_builder =
  sb_endpoint :: string
  sb_access_key_id :: string
  sb_secret_access_key :: string
  sb_bucket_name :: string
  sb_region :: string
  sb_allow_http :: bool

definition coordinator_s3 :: "store_config \<Rightarrow> s3_builder" where
  "coordinator_s3 cfg =
     \<lparr>sb_endpoint = cos_endpoint cfg, sb_access_key_id = cos_access_key cfg, sb_secret_access_key = cos_secret_key cfg,
      sb_bucket_name = cos_bucket cfg, sb_region = ''us-east-1'', sb_allow_http = cos_allow_http cfg\<rparr>"

definition build_store :: "(s3_builder \<Rightarrow> (string, 's) result) \<Rightarrow> store_config \<Rightarrow> (string, 's) result" where
  "build_store s3_build cfg = s3_build (coordinator_s3 cfg)"

definition executor_s3 :: "object_store_config \<Rightarrow> s3_builder" where
  "executor_s3 cfg =
     \<lparr>sb_endpoint = os_endpoint cfg, sb_access_key_id = os_access_key cfg, sb_secret_access_key = os_secret_key cfg,
      sb_bucket_name = os_bucket cfg, sb_region = ''us-east-1'', sb_allow_http = os_allow_http cfg\<rparr>"

definition object_store_url :: "object_store_config \<Rightarrow> string" where
  "object_store_url cfg = ''s3://'' @ os_bucket cfg @ ''/''"

definition register_object_store ::
  "(s3_builder \<Rightarrow> (string, 's) result) \<Rightarrow> (string \<Rightarrow> (string, 'u) result) \<Rightarrow> ('u \<Rightarrow> 's \<Rightarrow> 'x \<Rightarrow> 'x) \<Rightarrow>
   object_store_config \<Rightarrow> 'x \<Rightarrow> (string, 'x) result" where
  "register_object_store s3_build url_parse add_store cfg ctx =
     and_then (s3_build (executor_s3 cfg)) (\<lambda>store.
     and_then (url_parse (object_store_url cfg)) (\<lambda>url.
     Ok (add_store url store ctx)))"

section \<open>Reading a CSV file\<close>

text \<open>The two options that elan sets, with DataFusion's defaults.\<close>

record csv_read_options =
  cv_has_header :: bool
  cv_delimiter :: u8

definition csv_read_options_default :: csv_read_options where
  "csv_read_options_default = \<lparr>cv_has_header = True, cv_delimiter = 44\<rparr>"

record 'x table_context =
  tc_new :: 'x
  tc_register_csv :: "string \<Rightarrow> string \<Rightarrow> csv_read_options \<Rightarrow> 'x \<Rightarrow> (string, 'x) result"
  tc_register_parquet :: "string \<Rightarrow> string \<Rightarrow> 'x \<Rightarrow> (string, 'x) result"
  tc_table_schema :: "string \<Rightarrow> 'x \<Rightarrow> (string, schema) result"

definition infer_csv_schema :: "'x table_context \<Rightarrow> string \<Rightarrow> bool \<Rightarrow> u8 \<Rightarrow> (string, schema) result" where
  "infer_csv_schema T path has_header delimiter =
     and_then (tc_register_csv T ''_schema_probe'' path
                 (csv_read_options_default\<lparr>cv_has_header := has_header, cv_delimiter := delimiter\<rparr>) (tc_new T))
       (tc_table_schema T ''_schema_probe'')"

definition infer_parquet_schema :: "'x table_context \<Rightarrow> string \<Rightarrow> (string, schema) result" where
  "infer_parquet_schema T path =
     and_then (tc_register_parquet T ''_schema_probe'' path (tc_new T)) (tc_table_schema T ''_schema_probe'')"

text \<open>The executor's registration of a CSV mount.\<close>

definition register_csv_mount :: "'x table_context \<Rightarrow> string \<Rightarrow> string \<Rightarrow> bool \<Rightarrow> 'x \<Rightarrow> (string, 'x) result" where
  "register_csv_mount T table_name path has_header ctx =
     tc_register_csv T table_name path (csv_read_options_default\<lparr>cv_has_header := has_header\<rparr>) ctx"

section \<open>The schema message\<close>

text \<open>A stream of a schema and no batches; the writer's two calls are arguments.\<close>

definition serialize_schema ::
  "(schema \<Rightarrow> (string, 'w) result) \<Rightarrow> ('w \<Rightarrow> (string, u8 list) result) \<Rightarrow> schema \<Rightarrow> (string, u8 list) result" where
  "serialize_schema try_new finish s = and_then (try_new s) finish"

text \<open>The functions above as the parts of the coordinator's \<open>infer_schema\<close> and \<open>to_registration\<close>.\<close>

definition schema_probe_of ::
  "'x table_context \<Rightarrow> (schema \<Rightarrow> (string, 'w) result) \<Rightarrow> ('w \<Rightarrow> (string, u8 list) result) \<Rightarrow> schema_probe" where
  "schema_probe_of T try_new finish =
     \<lparr>probe_csv = infer_csv_schema T, probe_parquet = infer_parquet_schema T,
      write_schema = serialize_schema try_new finish\<rparr>"

section \<open>The Kafka producer\<close>

definition kafka_settings :: "string \<Rightarrow> (string \<times> string) list" where
  "kafka_settings brokers =
     [(''bootstrap.servers'', brokers), (''message.timeout.ms'', ''5000''), (''delivery.timeout.ms'', ''10000'')]"

definition kafka_sink_with_config ::
  "((string \<times> string) list \<Rightarrow> (string, 'p) result) \<Rightarrow> (string \<times> string) list \<Rightarrow> (elan_error, 'p) result" where
  "kafka_sink_with_config create settings = map_err Kafka (create settings)"

definition kafka_sink_new :: "((string \<times> string) list \<Rightarrow> (string, 'p) result) \<Rightarrow> string \<Rightarrow> (elan_error, 'p) result" where
  "kafka_sink_new create brokers = map_err Kafka (create (kafka_settings brokers))"

section \<open>One store for the coordinator and its executors\<close>

text \<open>
  With one endpoint, bucket, key pair and HTTP setting in both configurations, the coordinator and the executor build the same client,
  and the executor finds the object of an upload key below the URL it registers the store under.
\<close>

lemma shared_store:
  assumes "os_endpoint x = cos_endpoint cfg" "os_access_key x = cos_access_key cfg" "os_secret_key x = cos_secret_key cfg"
    and "os_bucket x = cos_bucket cfg" "os_allow_http x = cos_allow_http cfg"
  shows "executor_s3 x = coordinator_s3 cfg"
    and "strip_prefix (object_store_url x) (''s3://'' @ cos_bucket cfg @ ''/'' @ s3_key c path ns) = Some (s3_key c path ns)"
  using assms by (simp_all add: executor_s3_def coordinator_s3_def object_store_url_def strip_prefix_Some)

end
