(* ===== verification/Scan_Node.thy ===== *)
theory Scan_Node
  imports Iam_Optimizer Remote_Scan
begin

text \<open>
  What DataFusion sees of elan's own types besides their execution: the constructor of the scan node, its plan
  properties and its line in a plan that is printed (\<open>planner/remote_scan.rs\<close>), the kind of the tables
  (\<open>catalog/table.rs\<close>), and the name, the debug text and the schema check of the optimizer rule (\<open>elan-iam\<close>,
  \<open>optimizer.rs\<close>).
\<close>

section \<open>The scan node\<close>

datatype emission_type = EmitIncremental | EmitFinal | EmitBoth
datatype boundedness = Bounded | Unbounded
datatype partitioning = RoundRobinBatch nat | UnknownPartitioning nat

record plan_properties =
  pl_equivalence_schema :: schema
  pl_partitioning :: partitioning
  pl_emission :: emission_type
  pl_boundedness :: boundedness

definition remote_scan_new :: "dataset_info \<Rightarrow> schema \<Rightarrow> expr list \<Rightarrow> 64 word option \<Rightarrow> remote_scan \<times> plan_properties" where
  "remote_scan_new dataset schema pushed_filters limit =
     (\<lparr>rs_dataset = dataset, rs_schema = schema, rs_pushed_filters = pushed_filters, rs_limit = limit\<rparr>,
      \<lparr>pl_equivalence_schema = schema, pl_partitioning = UnknownPartitioning 1, pl_emission = EmitFinal, pl_boundedness = Bounded\<rparr>)"

definition dataset_namespace :: "remote_scan \<Rightarrow> string" where "dataset_namespace sc = ds_namespace (rs_dataset sc)"
definition dataset_name :: "remote_scan \<Rightarrow> string" where "dataset_name sc = ds_name (rs_dataset sc)"

definition fmt_as :: "remote_scan \<Rightarrow> string" where
  "fmt_as sc =
     ''RemoteTableScanExec: '' @ ds_namespace (rs_dataset sc) @ ''.'' @ ds_name (rs_dataset sc) @ '' @ '' @
     ds_executor_endpoint (rs_dataset sc)"

section \<open>Table and rule\<close>

datatype table_type = BaseTable | ViewTable | TemporaryTable

definition elan_table_type :: "elan_table \<Rightarrow> table_type" where "elan_table_type t = BaseTable"
definition elan_table_schema :: "elan_table \<Rightarrow> schema" where "elan_table_schema t = et_schema t"

definition rule_name :: "'n iam_filter_rule \<Rightarrow> string" where "rule_name r = ''IamFilterRule''"
definition rule_schema_check :: "'n iam_filter_rule \<Rightarrow> bool" where "rule_schema_check r = True"

definition rule_debug :: "'n iam_filter_rule \<Rightarrow> string" where
  "rule_debug r = ''IamFilterRule(user='' @ user_id (rule_subject r) @ '')''"

text \<open>
  What DataFusion documents of a physical rule with a schema check: a plan whose schema the rule has changed is an
  error instead of the result.
\<close>

definition checked_optimize :: "'n df_ops \<Rightarrow> 'n iam_filter_rule \<Rightarrow> 'n plan \<Rightarrow> (df_error, 'n plan) result" where
  "checked_optimize D rule p =
     and_then (iam_optimize D rule p) (\<lambda>q.
     if rule_schema_check rule \<and> plan_schema D q \<noteq> plan_schema D p
     then Err (PlanError (''PhysicalOptimizer rule '' @ rule_name rule @ '' failed'')) else Ok q)"

text \<open>The lines of a printed plan: the children of a node are indented below it.\<close>

fun plan_lines :: "('n \<Rightarrow> string) \<Rightarrow> nat \<Rightarrow> 'n plan \<Rightarrow> string list" where
  "plan_lines node_text depth (RemoteTableScanExec sc) = [replicate depth CHR '' '' @ fmt_as sc]"
| "plan_lines node_text depth (PlanNode n cs) =
     (replicate depth CHR '' '' @ node_text n) # concat (map (plan_lines node_text (depth + 2)) cs)"

section \<open>Lemmas\<close>

text \<open>A scan is made by the constructor, with the schema that its plan properties have.\<close>

lemma table_scan_new:
  "table_scan t projection filters limit =
     and_then (case projection of Some proj \<Rightarrow> schema_project (elan_table_schema t) proj | None \<Rightarrow> Ok (elan_table_schema t))
       (\<lambda>s. Ok (RemoteTableScanExec (fst (remote_scan_new (et_dataset t) s filters limit))))"
  by (simp add: table_scan_def remote_scan_new_def elan_table_schema_def split: option.split)

text \<open>The schema check never refuses what the rule made.\<close>

lemma checked_optimize_same:
  assumes "df_laws D"
  shows "checked_optimize D (elan_iam_rule check subject) p = iam_optimize D (elan_iam_rule check subject) p"
proof (cases "iam_optimize D (elan_iam_rule check subject) p")
  case (Inr q)
  then show ?thesis using iam_rule_scans(2) [OF assms Inr] by (simp add: checked_optimize_def)
qed (simp add: checked_optimize_def)

text \<open>The scan lines of a printed plan are those of its scans; after the rule, of visible datasets only.\<close>

lemma plan_lines_scan:
  "line \<in> set (plan_lines node_text depth p) \<Longrightarrow>
     (\<exists>sc \<in> set (plan_scans p). \<exists>k. line = replicate k CHR '' '' @ fmt_as sc) \<or> (\<exists>n k. line = replicate k CHR '' '' @ node_text n)"
proof (induction p arbitrary: depth)
  case (RemoteTableScanExec sc)
  then show ?case by auto
next
  case (PlanNode n cs)
  then show ?case by auto (metis UnionI)+
qed

lemma optimized_lines_visible:
  assumes "df_laws D" "checked_optimize D (elan_iam_rule check subject) p = Ok q" "line \<in> set (plan_lines node_text depth q)"
    and "\<And>n k. line \<noteq> replicate k CHR '' '' @ node_text n"
  shows "\<exists>sc \<in> set (plan_scans p). (\<exists>k. line = replicate k CHR '' '' @ fmt_as sc) \<and>
    is_visible check subject (dataset_namespace sc) (dataset_name sc)"
proof -
  have "iam_optimize D (elan_iam_rule check subject) p = Ok q" using assms(1,2) by (simp add: checked_optimize_same)
  from iam_rule_scans(1) [OF assms(1) this] plan_lines_scan [OF assms(3)] assms(4)
  show ?thesis by (auto simp: dataset_namespace_def dataset_name_def)
qed

end
