(* ===== verification/Spec2Isabelle.thy ===== *)
theory Spec2Isabelle
  imports Iam_Race Catalog_Race Subject_Race Query_Run Central_Start Service_Start Audit_Trail Tui_Audit Tui_View Http_Routes
    Federation Query_Answer Client_Setup Scan_Node
begin

text \<open>
  Verification of elan, a federated query system (crates under \<open>crates/\<close>). elan-central keeps the
  dataset catalog, the access policies and the audit trail in SQLite and serves them over gRPC. An
  elan-coordinator registers the datasets of one site and sends heartbeats. elan-query answers SQL over
  HTTP: it copies the catalog and the policies from elan-central, plans each query with DataFusion,
  removes what the user may not read and runs every remaining scan as SQL text at the elan-executor of
  the dataset. elan-tui is the terminal client.

  Theories, in the order of their imports:
  \<^item> \<open>Elan_Prelude\<close>: results, strings, machine integers, sorting, runs of a step function; the locales
    \<open>invariant_step\<close> (an operation keeps an invariant) and \<open>simulation\<close> (it refines another).
  \<^item> \<open>Common_Types\<close> (elan-common): errors, datasets, HTTP messages; the record \<open>libs\<close> of foreign functions.
  \<^item> \<open>Iam_Engine\<close>, \<open>Physical_Plan\<close>, \<open>Iam_Optimizer\<close> (elan-iam): policies and the snapshot engine
    (\<open>SnapshotIamEngine::check\<close> is \<open>snapshot_check\<close>), the part of DataFusion's plans the code uses, the
    optimizer rule (\<open>apply_iam\<close>). Locales \<open>iam_engine\<close> and \<open>deny_overrides_engine\<close>.
  \<^item> \<open>Sql_Table\<close>, \<open>Catalog_Store\<close>, \<open>Catalog_Spec\<close>, \<open>Central_Catalog\<close> (elan-central): tables as lists of rows with the
    migrations' constraints, \<open>db/catalog_store.rs\<close>, its abstract specification as finite maps with the
    refinement, and the gRPC services over it; the locale \<open>catalog_service\<close> is what elan-query uses.
    \<open>Catalog_Race\<close> has the statements of \<open>upsert_dataset\<close> as steps that interleave with other calls.
  \<^item> \<open>Iam_Store\<close>, \<open>Central_Iam\<close>, \<open>Iam_Race\<close>, \<open>Central_Audit\<close> (elan-central): \<open>db/iam_store.rs\<close>, the policy service with the
    in-process engine, and the audit service. \<open>Subject_Race\<close> has the statements of \<open>create_policy\<close>, \<open>add_group_member\<close> and
    \<open>get_or_create_subject\<close> as steps that interleave, \<open>Iam_Race\<close> the handlers over them.
  \<^item> \<open>Audit_Event\<close> (elan-audit): events and the three sinks, under the locale \<open>audit_sink\<close>.
  \<^item> \<open>Remote_Scan\<close>, \<open>Query_Catalog\<close>, \<open>Query_Session\<close>, \<open>Query_Run\<close>, \<open>Query_Http\<close> (elan-query): the scan node, the catalog
    providers, the session factory and its refresh, the requests that leave when a query runs, the HTTP handlers.
  \<^item> \<open>Sql_Text\<close>, \<open>Pushdown\<close>, \<open>Federated_Scan\<close>: the text of a scan (\<open>build_sql\<close>) against a reference reader of SQL and a
    three-valued semantics of conditions; what a pushed-down filter and limit select at the executor, and a scan
    from elan-query to the rows of the executor's table and back. \<open>Query_Answer\<close> has the answer of a whole query: the
    plan over the rows that its scans fetch, under the stored policies. \<open>Scan_Node\<close> has what DataFusion sees of the scan
    node, the table and the rule besides their execution.
  \<^item> \<open>Federation\<close>: elan-central, the refresh task and the open sessions of one elan-query as interleaved steps.
  \<^item> \<open>Executor\<close>, \<open>Coordinator\<close>, \<open>Tui\<close>, \<open>Tui_View\<close>: the remaining services. \<open>Tui\<close> ends with the whole program as a step
    relation: loop, tasks and channel in any interleaving; \<open>Tui_View\<close> has the widgets of a frame.
  \<^item> \<open>Client_Setup\<close>: the settings of the S3 and Kafka clients and of DataFusion's CSV reader.
  \<^item> \<open>Service_Config\<close>, \<open>Central_Start\<close>, \<open>Service_Start\<close>: command lines, the layered configuration (\<open>config.rs\<close>), and the
    starts (\<open>main.rs\<close>) of the four services. \<open>Central_Start\<close> has the database file with its migrations, the calls
    served on it and its restart.
  \<^item> \<open>Audit_Stream\<close>, \<open>Audit_Trail\<close>, \<open>Tui_Audit\<close>: the audit service's publishers and one subscriber as interleaved steps,
    the way of a query's events into the audit table, and the terminal's client of the stream
    (\<open>client/central.rs\<close>).
  \<^item> \<open>Http_Routes\<close>: the routers and health endpoints, and the URLs the clients build.
  \<^item> this theory: properties that span services.

  Conventions. A \<open>Result\<close> is a sum, \<open>Ok\<close> on the right. A handler takes the request and the state and
  returns the response and the new state; \<open>fold\<close>-like runs of handlers are \<open>run step state calls\<close>. Strings
  are lists of bytes. A Rust integer is a word of its width; an addition the compiler checks only in
  debug builds takes a flag \<open>checks\<close>, and \<open>None\<close> is the panic. Code outside \<open>src/\<close> is a parameter: UUID and JSON
  texts (\<open>libs\<close>), DataFusion (\<open>df_ops\<close>, \<open>df_engine\<close>), Arrow, HTTP, tokio's channels, the clock and fresh
  identifiers. What a theorem needs of these is a named hypothesis (\<open>uuid_codec\<close>, \<open>json_codec\<close>, \<open>df_laws\<close>,
  \<open>bounded_channel\<close>, \<open>broadcast_channel\<close>, \<open>layered\<close>: the config crate, \<open>migrator_ok\<close>: sqlx's migrations,
  \<open>permutes_rows\<close>: the order in which SQLite returns rows of equal sort keys, \<open>display_text\<close>: the texts of DataFusion's scalar
  values, \<open>answers_select\<close>: a selection with every name quoted that DataFusion runs returns the rows on which its condition is
  true, up to the limit, \<open>operators_run\<close>, \<open>refilters\<close>: its operators compute bags of rows from bags of rows and filter again what was
  pushed down, \<open>header_text\<close>: which header values have a text). Each
  has an instance (\<open>demo_libs\<close>, \<open>demo_ops\<close>, ...) on which the theorems are applied. Every function is total;
  the recursion of \<open>apply_iam\<close> over a plan has a termination proof, and no model of the code uses fuel. The reference
  parser of \<open>Sql_Text\<close> has fuel five times the number of tokens and five more; \<open>reads_expr\<close> and \<open>parse_conj\<close> show that this
  is enough for every text that a scan sends.

  What is shown. Decisions: Deny overrides, the order of the policies does not matter, an added Deny never
  grants. Enforcement: the optimized plan scans exactly the permitted datasets, from the database of
  elan-central to the session of elan-query, and running it depends on no executor's answer to a request for
  any other dataset; whatever elan-central serves meanwhile, a request comes from a session whose policies were those
  of the start and names a dataset that elan-central has listed. Scans: the text sent means the pushed-down filters and their
  limit, so a query answers what it means on the tables that the user may read, the others taken as empty,
  where no limit, no projection, no string literal, no negation under a comparison and no quote in a name is involved and every condition can be
  evaluated. Catalog: invariants from the empty database on,
  refinement, lookup after registration, heartbeats that bring a coordinator's datasets back, exact copies at elan-query, a configured dataset in the
  session. Starts: a database that only elan-central has written always starts again, with the state it had
  when it was stopped; a coordinator that starts has uploaded what it could and leaves its datasets live; what uploads leave in the
  bucket; which failures a start survives. Audit: what a query records and stores, what exactly replay and live stream deliver
  under every interleaving with publishers, up to the terminal.
  Transport: endpoints, SQL text, the executor's answer. Terminal: bounds, no panic within 65535
  events, no hanging indicator. Some theorems state behaviour that the documents do not promise: row
  filters that the rule ignores, a denied dataset that is read under the name of another or through a name with a quote in it, a filter on a string that
  is read as a comparison of columns, a revoked grant that elan-query keeps honouring, a replay that waits for ever, a replay without events that were asked for, a gap and an overlap between replay and
  live stream, a stale engine after concurrent writes, a migration that cannot be applied, a dataset whose identifier ends every
  listing, identifiers and subject types that are dropped, a user beyond ASCII who is recorded as anonymous.

  Not modelled: sockets and TLS below the listeners, logging, the generated protobuf code, the Ballista
  scheduler behind its start, DataFusion's execution of the operators above a scan, what the S3 and Kafka
  crates do with their settings (\<open>build\<close> and \<open>create\<close> are parameters), and the terminal's raw mode and its layout algorithm. Failures of the disk under a
  running SQLite are not modelled either.
\<close>

section \<open>From a coordinator's configuration to a query session\<close>

lemma push_tables:
  assumes "distinct (map ds_name xs)" "d \<in> set xs"
  shows "sv_datasets (schema_provider_new ipc_schema ns xs) (ds_name d) = Some (elan_table_of ipc_schema d)"
proof -
  let ?push = "\<lambda>m ds. m(ds_name ds \<mapsto> elan_table_of ipc_schema ds)"
  have other: "foldl ?push m ys n = m n" if "n \<notin> ds_name ` set ys" for m ys n
    using that by (induction ys arbitrary: m) auto
  have "foldl ?push m xs (ds_name d) = Some (elan_table_of ipc_schema d)" for m
    using assms by (induction xs arbitrary: m) (auto simp: other)
  then show ?thesis by (simp add: schema_provider_new_def)
qed

lemma listed_live_row:
  assumes "catalog_inv db" "list_datasets L None db = Ok ds" "r \<in> set (live_rows db)"
  obtains d where "d \<in> set ds" "ds_namespace d = d_namespace r" "ds_name d = d_name r"
    "ds_coordinator_id d = d_coordinator_id r" "ds_executor_endpoint d = d_executor_endpoint r"
proof -
  have tr: "traverse (row_to_dataset L) (sort_key dataset_key (filter (in_namespace None) (live_rows db))) = Ok ds"
    using assms(2) by (simp add: list_datasets_sorted)
  then have "\<forall>x \<in> set (live_rows db). \<exists>d. row_to_dataset L x = Ok d"
    using traverse_ex_Ok [of "row_to_dataset L" "sort_key dataset_key (filter (in_namespace None) (live_rows db))"]
    by (auto simp: in_namespace_def)
  then obtain d where d: "row_to_dataset L r = Ok d" using assms(3) by blast
  then have "d \<in> set ds" using traverse_in_set [OF tr] assms(3) by (auto simp: in_namespace_def)
  then show thesis using row_to_dataset_sel [OF d] by (intro that)
qed

lemma session_tables:
  assumes "uuid_codec L" "json_codec L" "catalog_inv db" "list_datasets L None db = Ok ds" "d \<in> set ds"
    and "sf' = refresh_tick L sf (answer_of (svc_list_datasets L db []))"
  obtains sp where "sf_datasets sf' (ds_namespace d) \<noteq> None" "sv_namespace sp = ds_namespace d"
    "map_option (schema_provider_new ipc_schema (ds_namespace d)) (sf_datasets sf' (ds_namespace d)) = Some sp"
    "sv_datasets sp (ds_name d) = Some (elan_table_of ipc_schema d)"
proof -
  let ?xs = "filter (\<lambda>x. ds_namespace x = ds_namespace d) ds"
  have "sf_datasets sf' = foldl push_dataset Map.empty ds"
    using load_datasets_central [OF assms(1,2), of db] assms(4) by (simp add: refresh_tick_def assms(6))
  moreover have "d \<in> set ?xs" using assms(5) by simp
  ultimately have xs: "sf_datasets sf' (ds_namespace d) = Some ?xs" by (auto simp: push_datasets filter_empty_conv)
  have "distinct (map (\<lambda>x. (ds_namespace x, ds_name x)) ?xs)"
    using list_datasets_keys [OF assms(3,4)] by (rule distinct_map_filter)
  then have "distinct (map ds_name ?xs)" by (auto simp: distinct_map inj_on_def)
  then have "sv_datasets (schema_provider_new ipc_schema (ds_namespace d) ?xs) (ds_name d) = Some (elan_table_of ipc_schema d)"
    using \<open>d \<in> set ?xs\<close> by (rule push_tables)
  moreover have "sv_namespace (schema_provider_new ipc_schema (ds_namespace d) ?xs) = ds_namespace d"
    by (simp add: schema_provider_new_def)
  ultimately show thesis using xs that by simp
qed


lemma demo_registration:
  "\<exists>db' ds. coordinator_register demo_libs demo_probe ''t0'' [(''t1'', 5)] demo_coordinator (empty_catalog True) = (Ok (), db') \<and>
     list_datasets demo_libs None db' = Ok ds"
  by (simp add: coordinator_register_def register_def upsert_coordinator_def empty_catalog_def demo_coordinator_def
      to_registration_def demo_probe_def register_dataset_def upsert_dataset_def internal_error_def Let_def
      list_datasets_def live_rows_def sql_join_def row_to_dataset_def demo_csv_def dc_name_def dc_namespace_def dc_source_type_def
      source_type_try_from_def uuid_codecD [OF demo_uuid_codec] json_codecD [OF demo_json_codec] demo_json_text)


section \<open>A grant that elan-query has loaded\<close>

text \<open>After a refresh, a new session can ask for every dataset that is listed and visible to its user.\<close>

lemma refreshed_session_request:
  fixes D :: "'n df_ops"
  assumes "uuid_codec L" "json_codec L" "catalog_inv (catalog_of (fd_central s))"
    and "list_datasets L None (catalog_of (fd_central s)) = Ok ds" "d \<in> set ds" "fd_asked s = None"
    and "is_visible (fd_check L s) subj (ds_namespace d) (ds_name d)"
  shows "\<exists>s' se sc. (federation_move L scan ipc_schema D)\<^sup>*\<^sup>* s s' \<and> fd_central s' = fd_central s \<and>
    sf_datasets (fd_factory s') = foldl push_dataset Map.empty ds \<and> fd_sessions s' = fd_sessions s @ [se] \<and> os_user se = subj \<and>
    rs_dataset sc = d \<and> fd_requests s' = fd_requests s @ [(subj, sc)]"
proof -
  let ?answer = "answer_of (svc_list_datasets L (catalog_of (fd_central s)) [])"
  let ?s1 = "s\<lparr>fd_asked := Some ?answer\<rparr>" and ?sf = "refresh_tick L (fd_factory s) ?answer"
  let ?s2 = "s\<lparr>fd_factory := ?sf, fd_asked := None\<rparr>"
  let ?schemas = "\<lambda>ns. map_option (schema_provider_new ipc_schema ns) (sf_datasets ?sf ns)"
  let ?se = "\<lparr>os_user = subj, os_schemas = ?schemas\<rparr>"
  let ?s3 = "?s2\<lparr>fd_sessions := fd_sessions s @ [?se]\<rparr>"
  have datasets: "sf_datasets ?sf = foldl push_dataset Map.empty ds" and engine: "sf_engine ?sf = sf_engine (fd_factory s)"
    using load_datasets_central [OF assms(1,2), of "catalog_of (fd_central s)"] assms(4) by (simp_all add: refresh_tick_def)
  have m1: "federation_move L scan ipc_schema D s ?s1" by (rule refresh_asks [OF assms(6)])
  have m2: "federation_move L scan ipc_schema D ?s1 ?s2" using refresh_installs [of ?s1 ?answer] by simp
  have m3: "federation_move L scan ipc_schema D ?s2 ?s3"
    using session_opens [of L ipc_schema ?s2 subj ?schemas] by (simp add: build_for_user_def Let_def)
  obtain sp where sp: "?schemas (ds_namespace d) = Some sp" "sv_datasets sp (ds_name d) = Some (elan_table_of ipc_schema d)"
    using session_tables [OF assms(1-5) refl, of "fd_factory s" ipc_schema] by metis
  define sc where "sc = \<lparr>rs_dataset = d, rs_schema = et_schema (elan_table_of ipc_schema d), rs_pushed_filters = [], rs_limit = None\<rparr>"
  have "table_scan (elan_table_of ipc_schema d) None [] None = Ok (RemoteTableScanExec sc :: unit plan)"
    by (simp add: table_scan_def elan_table_of_def sc_def)
  then have "scan_of_session ?se sc"
    unfolding scan_of_session_def using sp by (metis open_session.select_convs(2))
  moreover have "is_visible (fd_check L ?s3) (os_user ?se) (ds_namespace (rs_dataset sc)) (ds_name (rs_dataset sc))"
    using assms(7) engine by (simp add: sc_def)
  ultimately have "federation_move L scan ipc_schema D ?s3 (?s3\<lparr>fd_requests := fd_requests ?s3 @ [(os_user ?se, sc)]\<rparr>)"
    by (intro request_possible) simp_all
  then have "(federation_move L scan ipc_schema D)\<^sup>*\<^sup>* s (?s3\<lparr>fd_requests := fd_requests ?s3 @ [(os_user ?se, sc)]\<rparr>)"
    using m1 m2 m3 by (meson converse_rtranclp_into_rtranclp r_into_rtranclp)
  then show ?thesis
    by (intro exI [of _ "?s3\<lparr>fd_requests := fd_requests ?s3 @ [(os_user ?se, sc)]\<rparr>"] exI [of _ ?se] exI [of _ sc])
      (simp add: datasets sc_def)
qed

text \<open>
  C27. A grant that elan-query has loaded stays in force: whatever happens after the start, and whatever elan-central serves
  after that, a Deny for the user included, elan-query can refresh, open a new session for a user who had the grant at the
  start and send the request for any dataset that is still listed.
\<close>

theorem revoked_grant_still_served:
  fixes D :: "'n df_ops"
  assumes "iam_env L scan" "json_codec L" "uuid_parse L seed_policy_id \<noteq> None" "migrator_ok E" "elan_disk L scan E disk"
    and "central_main L scan E args disk = (Ok srv, disk')"
    and "federation_start L scan fresh (run (server_step L scan) srv calls0) calls = Ok s0"
    and "df_laws D" "(federation_move L scan ipc_schema D)\<^sup>*\<^sup>* s0 s" "fd_asked s = None"
    and "list_datasets L None (catalog_of (run (server_step L scan) (fd_central s) later)) = Ok ds" "d \<in> set ds"
    and "rows_allow L \<lparr>aq_user_id = u, aq_groups = gs, aq_namespace = ds_namespace d, aq_dataset = ds_name d, aq_action = ''SELECT''\<rparr>
      (set (policy_rows (sf_iam (cs_db (run (server_step L scan) (run (server_step L scan) srv calls0) calls)))))"
  shows "\<exists>s' se sc. (federation_move L scan ipc_schema D)\<^sup>*\<^sup>* s s' \<and>
    fd_central s' = run (server_step L scan) (fd_central s) later \<and>
    sf_datasets (fd_factory s') = foldl push_dataset Map.empty ds \<and>
    fd_sessions s' = fd_sessions s @ [se] \<and> os_user se = \<lparr>user_id = u, groups = gs\<rparr> \<and>
    rs_dataset sc = d \<and> fd_requests s' = fd_requests s @ [(\<lparr>user_id = u, groups = gs\<rparr>, sc)]"
proof -
  have codec: "uuid_codec L" using assms(1) by (simp add: iam_env_def)
  obtain past where moves: "(federation_move L scan ipc_schema D)\<^sup>*\<^sup>* s
      (s\<lparr>fd_central := run (server_step L scan) (fd_central s) later, fd_past := past\<rparr>)"
    using central_moves [of L scan ipc_schema D s later] by blast
  let ?s1 = "s\<lparr>fd_central := run (server_step L scan) (fd_central s) later, fd_past := past\<rparr>"
  have "federation_inv L (sf_engine (fd_factory s0)) ?s1"
    using federation_reachable_inv [OF assms(1-8)] rtranclp_trans [OF assms(9) moves] by blast
  then have inv: "catalog_inv (catalog_of (fd_central ?s1))" and engine: "sf_engine (fd_factory ?s1) = sf_engine (fd_factory s0)"
    by (auto simp: federation_inv_def)
  have "is_visible (fd_check L ?s1) \<lparr>user_id = u, groups = gs\<rparr> (ds_namespace d) (ds_name d)"
    unfolding engine start_visible [OF assms(1,3-7)] by (rule assms(13))
  from refreshed_session_request [OF codec assms(2) inv _ assms(12) _ this, of scan ipc_schema D] assms(10,11)
  obtain s' se sc where s': "(federation_move L scan ipc_schema D)\<^sup>*\<^sup>* ?s1 s'" "fd_central s' = fd_central ?s1"
    "sf_datasets (fd_factory s') = foldl push_dataset Map.empty ds" "fd_sessions s' = fd_sessions s @ [se]"
    "os_user se = \<lparr>user_id = u, groups = gs\<rparr>" "rs_dataset sc = d"
    "fd_requests s' = fd_requests s @ [(\<lparr>user_id = u, groups = gs\<rparr>, sc)]"
    by auto
  then show ?thesis using rtranclp_trans [OF moves s'(1)] by (intro exI [of _ s'] exI [of _ se] exI [of _ sc]) simp
qed

theorem revoked_grant_still_served_witness:
  "\<exists>s' sc. (federation_move demo_libs id (\<lambda>_. Ok []) demo_ops)\<^sup>*\<^sup>* demo_federation s' \<and>
     \<not> apd_allowed (svc_check_access demo_libs (server_iam (fd_central s')) (demo_request ''bob'' ''crm'')) \<and>
     rs_dataset sc = demo_dataset 8 ''crm'' ''orders'' Parquet \<and> fd_requests s' = [(\<lparr>user_id = ''bob'', groups = []\<rparr>, sc)]"
proof -
  let ?later = "[IamCall (CreatePolicy 10 11 (demo_deny_proto ''user'' ''bob''))]"
  let ?d = "demo_dataset 8 ''crm'' ''orders'' Parquet"
  have iam: "server_iam demo_fed_server = demo_central"
    using demo_fed_server_db(2) by (simp add: demo_fed_calls_def demo_server_def demo_central_def)
  have catalog: "catalog_of (run (server_step demo_libs id) (fd_central demo_federation) ?later) = demo_catalog"
    by (simp add: demo_federation_def Let_def demo_fed_server_db)
  obtain st' where deny: "svc_create_policy demo_libs id 10 11 (demo_deny_proto ''user'' ''bob'') demo_central = (Ok ''11'', st')"
    using demo_create by blast
  then have denied: "\<not> apd_allowed (svc_check_access demo_libs st' (demo_request ''bob'' ''crm''))"
    by (rule created_deny_refuses [OF demo_iam_env demo_central_sync])
      (simp_all add: demo_deny_proto_def demo_central_def seeded_iam_db_def stated_policy_def demo_request_def matching_defs)
  have server: "server_iam (run (server_step demo_libs id) (fd_central demo_federation) ?later) = st'"
    using iam deny by (simp add: demo_federation_def Let_def)
  have "sf_iam (cs_db (run (server_step demo_libs id) demo_fed_server [])) = ic_db demo_central"
    using demo_fed_server_db(2) by (simp add: demo_central_def)
  note allowed = demo_central_allows [of "ds_namespace ?d" "ds_name ?d", folded this]
  have "\<exists>s' se sc. (federation_move demo_libs id (\<lambda>_. Ok []) demo_ops)\<^sup>*\<^sup>* demo_federation s' \<and>
      fd_central s' = run (server_step demo_libs id) (fd_central demo_federation) ?later \<and>
      sf_datasets (fd_factory s') = foldl push_dataset Map.empty
        [demo_dataset 9 ''acct'' ''ledger'' Delta, demo_dataset 7 ''crm'' ''customers'' Csv, ?d] \<and>
      fd_sessions s' = fd_sessions demo_federation @ [se] \<and> os_user se = \<lparr>user_id = ''bob'', groups = []\<rparr> \<and>
      rs_dataset sc = ?d \<and> fd_requests s' = fd_requests demo_federation @ [(\<lparr>user_id = ''bob'', groups = []\<rparr>, sc)]"
    by (rule revoked_grant_still_served [OF demo_iam_env demo_json_codec demo_seed(2) demo_migrator new_disk demo_central_main
          demo_federation_start demo_df_laws rtranclp.rtrancl_refl _ _ _ allowed])
      (simp_all only: catalog demo_list, simp_all add: demo_federation_def)
  then obtain s' sc where s': "(federation_move demo_libs id (\<lambda>_. Ok []) demo_ops)\<^sup>*\<^sup>* demo_federation s'"
      "fd_central s' = run (server_step demo_libs id) (fd_central demo_federation) ?later" "rs_dataset sc = ?d"
      "fd_requests s' = [(\<lparr>user_id = ''bob'', groups = []\<rparr>, sc)]"
    by (auto simp: demo_federation_def)
  then show ?thesis using denied server by (intro exI [of _ s'] exI [of _ sc]) simp
qed

section \<open>From the terminal to the audit pane\<close>

lemma audit_task_live:
  "audit_task (Ok (Ok (map Ok (forward_live [] (map Received evs))))) = map (\<lambda>e. AuditMessage (audit_line e)) evs"
  by (induction evs) (simp_all add: audit_task_def)

text \<open>
  C36. The audit trail comes back to the terminal: every event of a query that elan-tui sends for a user, with a name that a
  header carries unchanged, is attributed to its session and to that user when the name is ASCII, but to the user \<open>anonymous\<close>
  when it is not; the live stream shows it as a line with its type and the user it is attributed to, and
  what the query sent is what the user typed.
\<close>

theorem own_query_in_audit_pane:
  assumes "header_text to_str" "header_word username"
    and "tr_body req = Some body" "req = client_query base_url username sql session_id"
    and "handle_query L A run_sql inst R build to_str (Some (tr_authorization req)) body = (resp, events)"
    and "recorded = (if ascii_text username then username else ''anonymous'')"
  shows "map (\<lambda>e. (ae_user_id e, ae_session_id e)) (map (\<lambda>e. central_proto L e (payload e)) events)
      = map (\<lambda>_. (recorded, session_id)) events
    \<and> audit_task (Ok (Ok (map Ok (forward_live [] (map Received (map (\<lambda>e. central_proto L e (payload e)) events))))))
      = map (\<lambda>e. AuditMessage (''[?] '' @ event_type e @ '' '' @ recorded)) events
    \<and> qr_sql body = sql \<and> length events = (case build \<lparr>user_id = recorded, groups = []\<rparr> of Inl _ \<Rightarrow> 0 | Inr _ \<Rightarrow> 2)"
proof -
  have body: "qr_sql body = sql" "qr_session_id body = Some session_id" and auth: "tr_authorization req = ''Bearer '' @ username"
    using assms(3,4) by (auto simp: client_query_def)
  have "list_all (\<lambda>e. as_user_id (ev_subject e) = recorded \<and> as_session_id (ev_subject e) = Some session_id) events
      \<and> length events = (case build \<lparr>user_id = recorded, groups = []\<rparr> of Inl _ \<Rightarrow> 0 | Inr _ \<Rightarrow> 2)"
    using assms(5) unfolding auth handle_query_def bearer_subject [OF assms(1,2), folded assms(6)] Let_def
    by (auto simp: audit_event_new_def body split: sum.splits)
  then show ?thesis
    unfolding audit_task_live by (auto simp: list_all_iff audit_line_def central_proto_def body)
qed

text \<open>A user whose name is the UTF-8 bytes of one letter with an accent, and what the pane shows of the query.\<close>

theorem own_query_in_audit_pane_witness:
  "\<exists>resp events.
     handle_query demo_libs demo_arrow (\<lambda>ctx sql. Err (PlanError ''no table'')) ''q1'' demo_request_env
       (\<lambda>subj. Ok (build_for_user demo_libs (\<lambda>_. Ok []) demo_factory subj :: unit session_context)) demo_to_str
       (Some (''Bearer '' @ [CHR 0xC3, CHR 0xA9])) \<lparr>qr_sql = ''SELECT 1'', qr_session_id = Some ''s1''\<rparr> = (resp, events) \<and>
     length events = 2 \<and> map ae_user_id (map (\<lambda>e. central_proto demo_libs e []) events) = map (\<lambda>_. ''anonymous'') events"
proof -
  let ?user = "[CHR 0xC3, CHR 0xA9]"
  obtain resp events where h: "handle_query demo_libs demo_arrow (\<lambda>ctx sql. Err (PlanError ''no table'')) ''q1'' demo_request_env
       (\<lambda>subj. Ok (build_for_user demo_libs (\<lambda>_. Ok []) demo_factory subj :: unit session_context)) demo_to_str
       (Some (tr_authorization (client_query ''http://q'' ?user ''SELECT 1'' ''s1''))) \<lparr>qr_sql = ''SELECT 1'', qr_session_id = Some ''s1''\<rparr> = (resp, events)"
    by fastforce
  have name: "header_word ?user" "(if ascii_text ?user then ?user else ''anonymous'') = ''anonymous''"
    by (simp_all add: header_word_def ascii_text_def)
  have body: "tr_body (client_query ''http://q'' ?user ''SELECT 1'' ''s1'') = Some \<lparr>qr_sql = ''SELECT 1'', qr_session_id = Some ''s1''\<rparr>"
    by (simp add: client_query_def)
  have auth: "tr_authorization (client_query ''http://q'' ?user ''SELECT 1'' ''s1'') = ''Bearer '' @ ?user" by (simp add: client_query_def)
  note own = own_query_in_audit_pane [OF demo_header_text name(1) body refl h refl, where payload = "\<lambda>_. []", unfolded name(2)]
  have "map fst (map (\<lambda>e. (ae_user_id e, ae_session_id e)) (map (\<lambda>e. central_proto demo_libs e []) events)) =
      map fst (map (\<lambda>_. (''anonymous'', ''s1'')) events)"
    by (rule arg_cong [OF conjunct1 [OF own]])
  then have "map ae_user_id (map (\<lambda>e. central_proto demo_libs e []) events) = map (\<lambda>_. ''anonymous'') events"
    by (simp only: list.map_comp comp_def fst_conv)
  moreover have "length events = 2" using conjunct2 [OF conjunct2 [OF conjunct2 [OF own]]] by (simp only: sum.case)
  ultimately show ?thesis using h [unfolded auth] by blast
qed

end
